theory Spec2Isabelle
  imports Main "HOL-Library.Multiset"
begin

section \<open>Data model (shared/schema.ts)\<close>

text \<open>
  The six tables of the schema, one record per row type. Identifiers are the strings the
  code uses (UUIDs in practice), timestamps are milliseconds since the epoch, and a
  nullable column is an \<open>option\<close>. The counters \<open>views\<close> and \<open>likes\<close> are
  unbounded integers: the model does not cover counters beyond the range of a PostgreSQL
  \<open>integer\<close> or of an exact JavaScript number.
\<close>

datatype user_rank = Default | Admin

record user =
  u_id :: string
  username :: string
  password :: string
  email :: string
  displayName :: "string option"
  bio :: "string option"
  location :: "string option"
  website :: "string option"
  avatarUrl :: "string option"
  profilePicture :: "string option"
  rank :: user_rank
  u_createdAt :: int

record snippet =
  s_id :: string
  title :: string
  description :: "string option"
  html :: string
  css :: string
  javascript :: string
  isPublic :: bool
  authorId :: string
  views :: int
  likes :: int
  s_createdAt :: int
  updatedAt :: int

record snippet_like =
  l_id :: string
  l_snippetId :: string
  l_userId :: string
  l_createdAt :: int

record snippet_view =
  v_id :: string
  v_snippetId :: string
  v_userId :: "string option"
  v_ipAddress :: "string option"
  v_createdAt :: int

record follow =
  f_id :: string
  followerId :: string
  followingId :: string
  f_createdAt :: int

record notification =
  n_id :: string
  n_userId :: string
  n_type :: string
  n_title :: string
  n_message :: string
  n_snippetId :: "string option"
  n_fromUserId :: "string option"
  isRead :: bool
  n_createdAt :: int

text \<open>The insert types picked from the tables by \<open>createInsertSchema(...).pick\<close>.\<close>

record insert_user =
  iu_username :: string
  iu_password :: string
  iu_email :: string
  iu_displayName :: "string option"
  iu_bio :: "string option"
  iu_location :: "string option"
  iu_website :: "string option"

record insert_snippet =
  is_title :: string
  is_description :: "string option"
  is_html :: "string option"
  is_css :: "string option"
  is_javascript :: "string option"
  is_isPublic :: "bool option"

record insert_notification =
  in_userId :: string
  in_type :: string
  in_title :: string
  in_message :: string
  in_snippetId :: "string option"
  in_fromUserId :: "string option"

text \<open>\<open>Partial<User>\<close> and \<open>Partial<Snippet>\<close>: every field may be absent (\<open>None\<close>).\<close>

record user_updates =
  uu_id :: "string option"
  uu_username :: "string option"
  uu_password :: "string option"
  uu_email :: "string option"
  uu_displayName :: "string option option"
  uu_bio :: "string option option"
  uu_location :: "string option option"
  uu_website :: "string option option"
  uu_avatarUrl :: "string option option"
  uu_profilePicture :: "string option option"
  uu_rank :: "user_rank option"
  uu_createdAt :: "int option"

record snippet_updates =
  su_id :: "string option"
  su_title :: "string option"
  su_description :: "string option option"
  su_html :: "string option"
  su_css :: "string option"
  su_javascript :: "string option"
  su_isPublic :: "bool option"
  su_authorId :: "string option"
  su_views :: "int option"
  su_likes :: "int option"
  su_createdAt :: "int option"
  su_updatedAt :: "int option"

text \<open>The API types \<open>SnippetWithAuthor\<close> (a snippet extended by two fields).\<close>

record author_info =
  a_id :: string
  a_username :: string
  a_displayName :: "string option"
  a_avatarUrl :: "string option"
  a_profilePicture :: "string option"

record snippet_with_author = snippet +
  author :: author_info
  isLiked :: "bool option"

section \<open>JavaScript helpers\<close>

text \<open>
  Truthiness of a \<open>string | undefined | null\<close>: absent and the empty string are falsy.
  \<open>x || null\<close> keeps a truthy \<open>x\<close> and is \<open>null\<close> otherwise.
\<close>

fun truthy :: "string option \<Rightarrow> bool" where
  "truthy None = False"
| "truthy (Some s) = (s \<noteq> [])"

definition or_null :: "string option \<Rightarrow> string option" where
  "or_null x = (if truthy x then x else None)"

definition or_string :: "string option \<Rightarrow> string \<Rightarrow> string" where
  "or_string x d = (case x of None \<Rightarrow> d | Some s \<Rightarrow> if s \<noteq> [] then s else d)"

text \<open>
  \<open>stored === arg\<close> where \<open>stored\<close> is \<open>string | null\<close> (a stored column) and
  \<open>arg\<close> is \<open>string | undefined\<close> (an optional parameter): \<open>null === undefined\<close> is
  false, so an absent argument matches nothing.
\<close>

definition strict_eq :: "string option \<Rightarrow> string option \<Rightarrow> bool" where
  "strict_eq stored arg = (case arg of None \<Rightarrow> False | Some a \<Rightarrow> stored = Some a)"

text \<open>
  \<open>Array.prototype.slice(start, end)\<close> on integer arguments: a negative index counts
  from the end, and both are clamped to the array.
\<close>

definition slice :: "int \<Rightarrow> int \<Rightarrow> 'a list \<Rightarrow> 'a list" where
  "slice start end xs =
     (let n = int (length xs);
          k = (if start < 0 then max (n + start) 0 else min start n);
          e = (if end < 0 then max (n + end) 0 else min end n)
      in take (nat (e - k)) (drop (nat k) xs))"

text \<open>
  A JavaScript \<open>Map\<close> keeps its entries in insertion order: \<open>set\<close> on a present key
  replaces the value in place, on a new key appends; \<open>delete\<close> reports whether the key
  was present; \<open>values()\<close> lists the values in insertion order.
\<close>

type_synonym ('k, 'v) js_map = "('k \<times> 'v) list"

definition Map_get :: "('k, 'v) js_map \<Rightarrow> 'k \<Rightarrow> 'v option" where
  "Map_get m k = map_of m k"

fun Map_set :: "'k \<Rightarrow> 'v \<Rightarrow> ('k, 'v) js_map \<Rightarrow> ('k, 'v) js_map" where
  "Map_set k v [] = [(k, v)]"
| "Map_set k v (p # ps) = (if fst p = k then (k, v) # ps else p # Map_set k v ps)"

definition Map_delete :: "'k \<Rightarrow> ('k, 'v) js_map \<Rightarrow> ('k, 'v) js_map" where
  "Map_delete k m = filter (\<lambda>p. fst p \<noteq> k) m"

definition Map_values :: "('k, 'v) js_map \<Rightarrow> 'v list" where
  "Map_values m = map snd m"

text \<open>\<open>xs.forEach(x => map.delete(key x))\<close>.\<close>

definition forEach_delete :: "('v \<Rightarrow> 'k) \<Rightarrow> 'v list \<Rightarrow> ('k, 'v) js_map \<Rightarrow> ('k, 'v) js_map" where
  "forEach_delete key xs m = fold (\<lambda>x. Map_delete (key x)) xs m"

section \<open>MemStorage (server/storage.ts)\<close>

record mem_storage =
  m_users :: "(string, user) js_map"
  m_snippets :: "(string, snippet) js_map"
  m_snippetLikes :: "(string, snippet_like) js_map"
  m_snippetViews :: "(string, snippet_view) js_map"
  m_follows :: "(string, follow) js_map"
  m_notifications :: "(string, notification) js_map"

definition MemStorage_new :: mem_storage where
  "MemStorage_new = \<lparr>m_users = [], m_snippets = [], m_snippetLikes = [],
     m_snippetViews = [], m_follows = [], m_notifications = []\<rparr>"

text \<open>
  Every method takes what the environment supplies as extra arguments: the identifier
  returned by \<open>randomUUID()\<close> and the time read by \<open>new Date()\<close>.
\<close>

datatype js_error = TypeError

text \<open>\<open>{ ...user, ...updates }\<close>: a field of \<open>updates\<close> that is present wins.\<close>

definition merge_user :: "user \<Rightarrow> user_updates \<Rightarrow> user" where
  "merge_user u up =
     \<lparr>u_id = (case uu_id up of None \<Rightarrow> u_id u | Some x \<Rightarrow> x),
      username = (case uu_username up of None \<Rightarrow> username u | Some x \<Rightarrow> x),
      password = (case uu_password up of None \<Rightarrow> password u | Some x \<Rightarrow> x),
      email = (case uu_email up of None \<Rightarrow> email u | Some x \<Rightarrow> x),
      displayName = (case uu_displayName up of None \<Rightarrow> displayName u | Some x \<Rightarrow> x),
      bio = (case uu_bio up of None \<Rightarrow> bio u | Some x \<Rightarrow> x),
      location = (case uu_location up of None \<Rightarrow> location u | Some x \<Rightarrow> x),
      website = (case uu_website up of None \<Rightarrow> website u | Some x \<Rightarrow> x),
      avatarUrl = (case uu_avatarUrl up of None \<Rightarrow> avatarUrl u | Some x \<Rightarrow> x),
      profilePicture = (case uu_profilePicture up of None \<Rightarrow> profilePicture u | Some x \<Rightarrow> x),
      rank = (case uu_rank up of None \<Rightarrow> rank u | Some x \<Rightarrow> x),
      u_createdAt = (case uu_createdAt up of None \<Rightarrow> u_createdAt u | Some x \<Rightarrow> x)\<rparr>"

text \<open>\<open>{ ...snippet, ...updates, updatedAt: new Date() }\<close>.\<close>

definition merge_snippet :: "snippet \<Rightarrow> snippet_updates \<Rightarrow> int \<Rightarrow> snippet" where
  "merge_snippet s up now =
     \<lparr>s_id = (case su_id up of None \<Rightarrow> s_id s | Some x \<Rightarrow> x),
      title = (case su_title up of None \<Rightarrow> title s | Some x \<Rightarrow> x),
      description = (case su_description up of None \<Rightarrow> description s | Some x \<Rightarrow> x),
      html = (case su_html up of None \<Rightarrow> html s | Some x \<Rightarrow> x),
      css = (case su_css up of None \<Rightarrow> css s | Some x \<Rightarrow> x),
      javascript = (case su_javascript up of None \<Rightarrow> javascript s | Some x \<Rightarrow> x),
      isPublic = (case su_isPublic up of None \<Rightarrow> isPublic s | Some x \<Rightarrow> x),
      authorId = (case su_authorId up of None \<Rightarrow> authorId s | Some x \<Rightarrow> x),
      views = (case su_views up of None \<Rightarrow> views s | Some x \<Rightarrow> x),
      likes = (case su_likes up of None \<Rightarrow> likes s | Some x \<Rightarrow> x),
      s_createdAt = (case su_createdAt up of None \<Rightarrow> s_createdAt s | Some x \<Rightarrow> x),
      updatedAt = now\<rparr>"

subsection \<open>Users\<close>

definition MemStorage_getUser :: "string \<Rightarrow> mem_storage \<Rightarrow> user option" where
  "MemStorage_getUser ident st = Map_get (m_users st) ident"

definition MemStorage_getUserByUsername :: "string \<Rightarrow> mem_storage \<Rightarrow> user option" where
  "MemStorage_getUserByUsername name st =
     find (\<lambda>user. username user = name) (Map_values (m_users st))"

text \<open>
  \<open>createAdminUser\<close> differs from \<open>createUser\<close> in the rank only; \<open>hashedPassword\<close>
  is what \<open>bcrypt.hash\<close> returned.
\<close>

definition MemStorage_createAdminUser ::
  "insert_user \<Rightarrow> user_rank \<Rightarrow> string \<Rightarrow> string \<Rightarrow> int \<Rightarrow> mem_storage \<Rightarrow> user \<times> mem_storage" where
  "MemStorage_createAdminUser insertUser r ident hashedPassword now st =
     (let user = \<lparr>u_id = ident, username = iu_username insertUser, password = hashedPassword,
                  email = iu_email insertUser,
                  displayName = Some (or_string (iu_displayName insertUser) (iu_username insertUser)),
                  bio = or_null (iu_bio insertUser),
                  location = or_null (iu_location insertUser),
                  website = or_null (iu_website insertUser),
                  avatarUrl = None, profilePicture = None, rank = r, u_createdAt = now\<rparr>
      in (user, st\<lparr>m_users := Map_set ident user (m_users st)\<rparr>))"

definition MemStorage_createUser ::
  "insert_user \<Rightarrow> string \<Rightarrow> string \<Rightarrow> int \<Rightarrow> mem_storage \<Rightarrow> user \<times> mem_storage" where
  "MemStorage_createUser insertUser ident hashedPassword now st =
     MemStorage_createAdminUser insertUser Default ident hashedPassword now st"

definition MemStorage_updateUser ::
  "string \<Rightarrow> user_updates \<Rightarrow> mem_storage \<Rightarrow> user option \<times> mem_storage" where
  "MemStorage_updateUser ident updates st =
     (case Map_get (m_users st) ident of
        None \<Rightarrow> (None, st)
      | Some user \<Rightarrow>
          let updatedUser = merge_user user updates
          in (Some updatedUser, st\<lparr>m_users := Map_set ident updatedUser (m_users st)\<rparr>))"

subsection \<open>Snippets\<close>

definition mem_author :: "user \<Rightarrow> author_info" where
  "mem_author a = \<lparr>a_id = u_id a, a_username = username a,
     a_displayName = Some (or_string (displayName a) (username a)),
     a_avatarUrl = avatarUrl a, a_profilePicture = profilePicture a\<rparr>"

definition with_author :: "snippet \<Rightarrow> author_info \<Rightarrow> snippet_with_author" where
  "with_author s a = snippet.extend s (snippet_with_author.fields a None)"

definition MemStorage_getSnippet :: "string \<Rightarrow> mem_storage \<Rightarrow> snippet option" where
  "MemStorage_getSnippet ident st = Map_get (m_snippets st) ident"

definition MemStorage_getSnippetWithAuthor ::
  "string \<Rightarrow> mem_storage \<Rightarrow> snippet_with_author option" where
  "MemStorage_getSnippetWithAuthor ident st =
     (case Map_get (m_snippets st) ident of
        None \<Rightarrow> None
      | Some snippet \<Rightarrow>
          (case Map_get (m_users st) (authorId snippet) of
             None \<Rightarrow> None
           | Some a \<Rightarrow> Some (with_author snippet (mem_author a))))"

text \<open>
  The list methods end with \<open>this.users.get(snippet.authorId)!\<close> and read \<open>author.id\<close>:
  a snippet whose author has no user record makes the whole call throw a TypeError.
\<close>

fun mem_attach_authors ::
  "(string, user) js_map \<Rightarrow> snippet list \<Rightarrow> js_error + snippet_with_author list" where
  "mem_attach_authors us [] = Inr []"
| "mem_attach_authors us (s # ss) =
     (case Map_get us (authorId s) of
        None \<Rightarrow> Inl TypeError
      | Some a \<Rightarrow>
          (case mem_attach_authors us ss of
             Inl e \<Rightarrow> Inl e
           | Inr rs \<Rightarrow> Inr (with_author s (mem_author a) # rs)))"

text \<open>
  \<open>sort((a, b) => key b - key a)\<close> is a stable sort by descending key
  (\<open>sort_key\<close> is the stable insertion sort of the list library).
\<close>

definition sort_desc :: "('a \<Rightarrow> int) \<Rightarrow> 'a list \<Rightarrow> 'a list" where
  "sort_desc key xs = sort_key (\<lambda>x. - key x) xs"

definition MemStorage_getPublicSnippets ::
  "int \<Rightarrow> int \<Rightarrow> mem_storage \<Rightarrow> js_error + snippet_with_author list" where
  "MemStorage_getPublicSnippets limit offset st =
     (let publicSnippets =
            slice offset (offset + limit)
              (sort_desc updatedAt (filter isPublic (Map_values (m_snippets st))))
      in mem_attach_authors (m_users st) publicSnippets)"

text \<open>
  \<open>weekAgo.setDate(weekAgo.getDate() - 7)\<close> moves the local calendar date back seven
  days and keeps the local time of day. That is \<open>7 * 24\<close> hours earlier, corrected by
  \<open>shift\<close>, which the time zone of the server determines: the change of its UTC
  offset between the two dates, 0 unless a daylight-saving change lies between them and
  one hour more or less otherwise.
\<close>

definition weekAgo :: "int \<Rightarrow> int \<Rightarrow> int" where
  "weekAgo shift now = now - 7 * 24 * 60 * 60 * 1000 + shift"

definition MemStorage_getTrendingSnippets ::
  "int \<Rightarrow> int \<Rightarrow> int \<Rightarrow> mem_storage \<Rightarrow> js_error + snippet_with_author list" where
  "MemStorage_getTrendingSnippets limit now shift st =
     (let trendingSnippets =
            slice 0 limit
              (sort_desc (\<lambda>s. likes s + views s)
                 (filter (\<lambda>snippet. isPublic snippet \<and> s_createdAt snippet > weekAgo shift now)
                    (Map_values (m_snippets st))))
      in mem_attach_authors (m_users st) trendingSnippets)"

definition MemStorage_createSnippet ::
  "insert_snippet \<Rightarrow> string \<Rightarrow> string \<Rightarrow> int \<Rightarrow> mem_storage \<Rightarrow> snippet \<times> mem_storage" where
  "MemStorage_createSnippet snippetData author_id ident now st =
     (let snippet = \<lparr>s_id = ident, title = is_title snippetData,
                     description = or_null (is_description snippetData),
                     html = or_string (is_html snippetData) [],
                     css = or_string (is_css snippetData) [],
                     javascript = or_string (is_javascript snippetData) [],
                     isPublic = (case is_isPublic snippetData of None \<Rightarrow> False | Some b \<Rightarrow> b),
                     authorId = author_id, views = 0, likes = 0,
                     s_createdAt = now, updatedAt = now\<rparr>
      in (snippet, st\<lparr>m_snippets := Map_set ident snippet (m_snippets st)\<rparr>))"

definition MemStorage_updateSnippet ::
  "string \<Rightarrow> snippet_updates \<Rightarrow> int \<Rightarrow> mem_storage \<Rightarrow> snippet option \<times> mem_storage" where
  "MemStorage_updateSnippet ident updates now st =
     (case Map_get (m_snippets st) ident of
        None \<Rightarrow> (None, st)
      | Some snippet \<Rightarrow>
          let updatedSnippet = merge_snippet snippet updates now
          in (Some updatedSnippet,
              st\<lparr>m_snippets := Map_set ident updatedSnippet (m_snippets st)\<rparr>))"

definition MemStorage_deleteSnippet :: "string \<Rightarrow> mem_storage \<Rightarrow> bool \<times> mem_storage" where
  "MemStorage_deleteSnippet ident st =
     (Map_get (m_snippets st) ident \<noteq> None,
      st\<lparr>m_snippets := Map_delete ident (m_snippets st)\<rparr>)"

definition MemStorage_incrementViews ::
  "string \<Rightarrow> string option \<Rightarrow> string option \<Rightarrow> string \<Rightarrow> int \<Rightarrow> mem_storage \<Rightarrow> mem_storage" where
  "MemStorage_incrementViews snippetId userId ipAddress viewId now st =
     (case find (\<lambda>view. v_snippetId view = snippetId \<and>
                   (if truthy userId then strict_eq (v_userId view) userId
                    else strict_eq (v_ipAddress view) ipAddress))
             (Map_values (m_snippetViews st)) of
        Some existingView \<Rightarrow> st
      | None \<Rightarrow>
          let view = \<lparr>v_id = viewId, v_snippetId = snippetId, v_userId = or_null userId,
                      v_ipAddress = or_null ipAddress, v_createdAt = now\<rparr>;
              st1 = st\<lparr>m_snippetViews := Map_set viewId view (m_snippetViews st)\<rparr>
          in (case Map_get (m_snippets st1) snippetId of
                Some snippet \<Rightarrow>
                  st1\<lparr>m_snippets :=
                     Map_set snippetId (snippet\<lparr>views := views snippet + 1\<rparr>) (m_snippets st1)\<rparr>
              | None \<Rightarrow> st1))"

subsection \<open>Likes\<close>

definition MemStorage_likeSnippet ::
  "string \<Rightarrow> string \<Rightarrow> string \<Rightarrow> int \<Rightarrow> mem_storage \<Rightarrow> bool \<times> mem_storage" where
  "MemStorage_likeSnippet snippetId userId likeId now st =
     (case find (\<lambda>like. l_snippetId like = snippetId \<and> l_userId like = userId)
             (Map_values (m_snippetLikes st)) of
        Some existingLike \<Rightarrow> (False, st)
      | None \<Rightarrow>
          let like = \<lparr>l_id = likeId, l_snippetId = snippetId, l_userId = userId,
                      l_createdAt = now\<rparr>;
              st1 = st\<lparr>m_snippetLikes := Map_set likeId like (m_snippetLikes st)\<rparr>
          in (case Map_get (m_snippets st1) snippetId of
                Some snippet \<Rightarrow>
                  (True, st1\<lparr>m_snippets :=
                     Map_set snippetId (snippet\<lparr>likes := likes snippet + 1\<rparr>) (m_snippets st1)\<rparr>)
              | None \<Rightarrow> (True, st1)))"

definition MemStorage_isSnippetLiked :: "string \<Rightarrow> string \<Rightarrow> mem_storage \<Rightarrow> bool" where
  "MemStorage_isSnippetLiked snippetId userId st =
     list_ex (\<lambda>like. l_snippetId like = snippetId \<and> l_userId like = userId)
       (Map_values (m_snippetLikes st))"

definition MemStorage_unlikeSnippet :: "string \<Rightarrow> string \<Rightarrow> mem_storage \<Rightarrow> bool \<times> mem_storage" where
  "MemStorage_unlikeSnippet snippetId userId st =
     (case find (\<lambda>like. l_snippetId like = snippetId \<and> l_userId like = userId)
             (Map_values (m_snippetLikes st)) of
        None \<Rightarrow> (False, st)
      | Some like \<Rightarrow>
          let st1 = st\<lparr>m_snippetLikes := Map_delete (l_id like) (m_snippetLikes st)\<rparr>
          in (case Map_get (m_snippets st1) snippetId of
                Some snippet \<Rightarrow>
                  if likes snippet > 0
                  then (True, st1\<lparr>m_snippets :=
                          Map_set snippetId (snippet\<lparr>likes := likes snippet - 1\<rparr>) (m_snippets st1)\<rparr>)
                  else (True, st1)
              | None \<Rightarrow> (True, st1)))"

subsection \<open>Follows\<close>

definition MemStorage_followUser ::
  "string \<Rightarrow> string \<Rightarrow> string \<Rightarrow> int \<Rightarrow> mem_storage \<Rightarrow> bool \<times> mem_storage" where
  "MemStorage_followUser follower following followId now st =
     (if follower = following then (False, st)
      else
        (case find (\<lambda>follow. followerId follow = follower \<and> followingId follow = following)
                (Map_values (m_follows st)) of
           Some existingFollow \<Rightarrow> (False, st)
         | None \<Rightarrow>
             let follow = \<lparr>f_id = followId, followerId = follower, followingId = following,
                           f_createdAt = now\<rparr>
             in (True, st\<lparr>m_follows := Map_set followId follow (m_follows st)\<rparr>)))"

definition MemStorage_unfollowUser ::
  "string \<Rightarrow> string \<Rightarrow> mem_storage \<Rightarrow> bool \<times> mem_storage" where
  "MemStorage_unfollowUser follower following st =
     (case find (\<lambda>follow. followerId follow = follower \<and> followingId follow = following)
             (Map_values (m_follows st)) of
        None \<Rightarrow> (False, st)
      | Some follow \<Rightarrow> (True, st\<lparr>m_follows := Map_delete (f_id follow) (m_follows st)\<rparr>))"

definition MemStorage_isFollowing :: "string \<Rightarrow> string \<Rightarrow> mem_storage \<Rightarrow> bool" where
  "MemStorage_isFollowing follower following st =
     list_ex (\<lambda>follow. followerId follow = follower \<and> followingId follow = following)
       (Map_values (m_follows st))"

definition MemStorage_getFollowers :: "string \<Rightarrow> mem_storage \<Rightarrow> user list" where
  "MemStorage_getFollowers userId st =
     (let followerIds = map followerId
                          (filter (\<lambda>follow. followingId follow = userId)
                             (Map_values (m_follows st)))
      in List.map_filter (\<lambda>i. Map_get (m_users st) i) followerIds)"

subsection \<open>Notifications\<close>

definition MemStorage_createNotification ::
  "insert_notification \<Rightarrow> string \<Rightarrow> int \<Rightarrow> mem_storage \<Rightarrow> notification \<times> mem_storage" where
  "MemStorage_createNotification insertNotification ident now st =
     (let notification =
            \<lparr>n_id = ident, n_userId = in_userId insertNotification,
             n_type = in_type insertNotification, n_title = in_title insertNotification,
             n_message = in_message insertNotification,
             n_snippetId = or_null (in_snippetId insertNotification),
             n_fromUserId = or_null (in_fromUserId insertNotification),
             isRead = False, n_createdAt = now\<rparr>
      in (notification, st\<lparr>m_notifications := Map_set ident notification (m_notifications st)\<rparr>))"

definition MemStorage_markNotificationRead ::
  "string \<Rightarrow> string \<Rightarrow> mem_storage \<Rightarrow> bool \<times> mem_storage" where
  "MemStorage_markNotificationRead ident userId st =
     (case Map_get (m_notifications st) ident of
        None \<Rightarrow> (False, st)
      | Some notification \<Rightarrow>
          if n_userId notification \<noteq> userId then (False, st)
          else (True, st\<lparr>m_notifications :=
                  Map_set ident (notification\<lparr>isRead := True\<rparr>) (m_notifications st)\<rparr>))"

definition MemStorage_markAllNotificationsRead :: "string \<Rightarrow> mem_storage \<Rightarrow> mem_storage" where
  "MemStorage_markAllNotificationsRead userId st =
     fold (\<lambda>notification st'.
             if n_userId notification = userId \<and> \<not> isRead notification
             then st'\<lparr>m_notifications :=
                    Map_set (n_id notification) (notification\<lparr>isRead := True\<rparr>)
                      (m_notifications st')\<rparr>
             else st')
       (Map_values (m_notifications st)) st"

subsection \<open>Deleting a user\<close>

text \<open>The body of the loop over the user's snippets.\<close>

definition mem_delete_snippet_cascade :: "snippet \<Rightarrow> mem_storage \<Rightarrow> mem_storage" where
  "mem_delete_snippet_cascade snippet st =
     (let st1 = st\<lparr>m_snippets := Map_delete (s_id snippet) (m_snippets st)\<rparr>;
          st2 = st1\<lparr>m_snippetLikes :=
                  forEach_delete l_id
                    (filter (\<lambda>like. l_snippetId like = s_id snippet)
                       (Map_values (m_snippetLikes st1)))
                    (m_snippetLikes st1)\<rparr>
      in st2\<lparr>m_snippetViews :=
               forEach_delete v_id
                 (filter (\<lambda>view. v_snippetId view = s_id snippet)
                    (Map_values (m_snippetViews st2)))
                 (m_snippetViews st2)\<rparr>)"

definition MemStorage_deleteUserAndSnippets ::
  "string \<Rightarrow> mem_storage \<Rightarrow> bool \<times> mem_storage" where
  "MemStorage_deleteUserAndSnippets userId st =
     (case Map_get (m_users st) userId of
        None \<Rightarrow> (False, st)
      | Some user \<Rightarrow>
          let userSnippets = filter (\<lambda>snippet. authorId snippet = userId)
                               (Map_values (m_snippets st));
              st1 = fold mem_delete_snippet_cascade userSnippets st;
              st2 = st1\<lparr>m_snippetLikes :=
                      forEach_delete l_id
                        (filter (\<lambda>like. l_userId like = userId)
                           (Map_values (m_snippetLikes st1)))
                        (m_snippetLikes st1)\<rparr>;
              st3 = st2\<lparr>m_snippetViews :=
                      forEach_delete v_id
                        (filter (\<lambda>view. v_userId view = Some userId)
                           (Map_values (m_snippetViews st2)))
                        (m_snippetViews st2)\<rparr>;
              st4 = st3\<lparr>m_follows :=
                      forEach_delete f_id
                        (filter (\<lambda>follow. followerId follow = userId \<or> followingId follow = userId)
                           (Map_values (m_follows st3)))
                        (m_follows st3)\<rparr>;
              st5 = st4\<lparr>m_notifications :=
                      forEach_delete n_id
                        (filter (\<lambda>notification. n_userId notification = userId
                                   \<or> n_fromUserId notification = Some userId)
                           (Map_values (m_notifications st4)))
                        (m_notifications st4)\<rparr>
          in (True, st5\<lparr>m_users := Map_delete userId (m_users st5)\<rparr>))"

section \<open>DatabaseStorage (server/storage.ts)\<close>

text \<open>
  The database is its six tables, each a list of rows in insertion order. A statement
  that violates the primary key \<open>id\<close> of a table, or the unique columns
  \<open>username\<close> and \<open>email\<close> of \<open>users\<close>, raises an error and changes nothing; so
  does a negative \<open>OFFSET\<close>, and an \<open>UPDATE\<close> that the query builder is given no
  value for. No statement runs inside a transaction.
  Where SQL leaves the order of rows open (no \<open>ORDER BY\<close>, or equal sort keys), the
  model scans a table in insertion order, joins with the \<open>from\<close> table as the outer loop
  and sorts stably.
\<close>

datatype db_error = UniqueViolation | InvalidRowCount | NoValuesToSet

record database =
  t_users :: "user list"
  t_snippets :: "snippet list"
  t_snippetLikes :: "snippet_like list"
  t_snippetViews :: "snippet_view list"
  t_follows :: "follow list"
  t_notifications :: "notification list"

definition DatabaseStorage_new :: database where
  "DatabaseStorage_new = \<lparr>t_users = [], t_snippets = [], t_snippetLikes = [],
     t_snippetViews = [], t_follows = [], t_notifications = []\<rparr>"

text \<open>\<open>const [row] = await db.select()...\<close>: the first row, if any.\<close>

definition first_row :: "'a list \<Rightarrow> 'a option" where
  "first_row rows = (case rows of [] \<Rightarrow> None | r # _ \<Rightarrow> Some r)"

definition users_unique :: "user list \<Rightarrow> bool" where
  "users_unique us \<longleftrightarrow>
     distinct (map u_id us) \<and> distinct (map username us) \<and> distinct (map email us)"

text \<open>
  \<open>.limit(limit).offset(offset)\<close>: the query builder writes a \<open>LIMIT\<close> clause only for a
  limit that is not negative, so a negative limit returns every row; it writes an
  \<open>OFFSET\<close> clause for every offset other than 0, and the database refuses a negative one.
\<close>

definition limit_offset :: "int \<Rightarrow> int \<Rightarrow> 'a list \<Rightarrow> db_error + 'a list" where
  "limit_offset limit offset rows =
     (if offset < 0 then Inl InvalidRowCount
      else if limit < 0 then Inr (drop (nat offset) rows)
      else Inr (take (nat limit) (drop (nat offset) rows)))"

subsection \<open>Users\<close>

definition DatabaseStorage_getUser :: "string \<Rightarrow> database \<Rightarrow> user option" where
  "DatabaseStorage_getUser ident db = first_row (filter (\<lambda>u. u_id u = ident) (t_users db))"

definition DatabaseStorage_getUserByUsername :: "string \<Rightarrow> database \<Rightarrow> user option" where
  "DatabaseStorage_getUserByUsername name db =
     first_row (filter (\<lambda>u. username u = name) (t_users db))"

text \<open>
  \<open>createUser\<close> passes no rank and the column default \<open>'default'\<close> applies;
  \<open>createAdminUser\<close> passes the given one. Columns that are not passed are \<open>NULL\<close>,
  \<open>created_at\<close> is the database's \<open>now()\<close>.
\<close>

definition DatabaseStorage_createAdminUser ::
  "insert_user \<Rightarrow> user_rank \<Rightarrow> string \<Rightarrow> string \<Rightarrow> int \<Rightarrow> database
     \<Rightarrow> db_error + user \<times> database" where
  "DatabaseStorage_createAdminUser insertUser r ident hashedPassword now db =
     (let user = \<lparr>u_id = ident, username = iu_username insertUser, password = hashedPassword,
                  email = iu_email insertUser, displayName = iu_displayName insertUser,
                  bio = iu_bio insertUser, location = iu_location insertUser,
                  website = iu_website insertUser, avatarUrl = None, profilePicture = None,
                  rank = r, u_createdAt = now\<rparr>
      in if ident \<in> set (map u_id (t_users db))
            \<or> iu_username insertUser \<in> set (map username (t_users db))
            \<or> iu_email insertUser \<in> set (map email (t_users db))
         then Inl UniqueViolation
         else Inr (user, db\<lparr>t_users := t_users db @ [user]\<rparr>))"

definition DatabaseStorage_createUser ::
  "insert_user \<Rightarrow> string \<Rightarrow> string \<Rightarrow> int \<Rightarrow> database \<Rightarrow> db_error + user \<times> database" where
  "DatabaseStorage_createUser insertUser ident hashedPassword now db =
     DatabaseStorage_createAdminUser insertUser Default ident hashedPassword now db"

text \<open>
  \<open>update(users).set(updates).where(eq(users.id, id)).returning()\<close>. The query
  builder throws "No values to set" for an \<open>updates\<close> object without any field, before
  anything reaches the database.
\<close>

definition no_values :: "user_updates \<Rightarrow> bool" where
  "no_values up \<longleftrightarrow>
     uu_id up = None \<and> uu_username up = None \<and> uu_password up = None \<and> uu_email up = None
     \<and> uu_displayName up = None \<and> uu_bio up = None \<and> uu_location up = None
     \<and> uu_website up = None \<and> uu_avatarUrl up = None \<and> uu_profilePicture up = None
     \<and> uu_rank up = None \<and> uu_createdAt up = None"

definition DatabaseStorage_updateUser ::
  "string \<Rightarrow> user_updates \<Rightarrow> database \<Rightarrow> db_error + user option \<times> database" where
  "DatabaseStorage_updateUser ident updates db =
     (if no_values updates then Inl NoValuesToSet
      else
        let rows = map (\<lambda>u. if u_id u = ident then merge_user u updates else u) (t_users db);
            returning = map (\<lambda>u. merge_user u updates)
                          (filter (\<lambda>u. u_id u = ident) (t_users db))
        in if returning \<noteq> [] \<and> \<not> users_unique rows then Inl UniqueViolation
           else Inr (first_row returning, db\<lparr>t_users := rows\<rparr>))"

subsection \<open>Snippets\<close>

definition db_author :: "user \<Rightarrow> author_info" where
  "db_author a = \<lparr>a_id = u_id a, a_username = username a, a_displayName = displayName a,
     a_avatarUrl = avatarUrl a, a_profilePicture = profilePicture a\<rparr>"

text \<open>\<open>from(snippets).innerJoin(users, eq(snippets.authorId, users.id))\<close>.\<close>

definition snippets_join_users :: "database \<Rightarrow> (snippet \<times> user) list" where
  "snippets_join_users db =
     concat (map (\<lambda>s. map (\<lambda>u. (s, u)) (filter (\<lambda>u. authorId s = u_id u) (t_users db)))
               (t_snippets db))"

definition select_with_author :: "(snippet \<times> user) list \<Rightarrow> snippet_with_author list" where
  "select_with_author rows = map (\<lambda>(s, u). with_author s (db_author u)) rows"

definition DatabaseStorage_getSnippet :: "string \<Rightarrow> database \<Rightarrow> snippet option" where
  "DatabaseStorage_getSnippet ident db =
     first_row (filter (\<lambda>s. s_id s = ident) (t_snippets db))"

definition DatabaseStorage_getSnippetWithAuthor ::
  "string \<Rightarrow> database \<Rightarrow> snippet_with_author option" where
  "DatabaseStorage_getSnippetWithAuthor ident db =
     first_row (select_with_author
                  (filter (\<lambda>(s, u). s_id s = ident) (snippets_join_users db)))"

definition DatabaseStorage_getPublicSnippets ::
  "int \<Rightarrow> int \<Rightarrow> database \<Rightarrow> db_error + snippet_with_author list" where
  "DatabaseStorage_getPublicSnippets limit offset db =
     limit_offset limit offset
       (select_with_author
          (sort_desc (\<lambda>(s, u). s_createdAt s)
             (filter (\<lambda>(s, u). isPublic s) (snippets_join_users db))))"

definition DatabaseStorage_getTrendingSnippets ::
  "int \<Rightarrow> database \<Rightarrow> db_error + snippet_with_author list" where
  "DatabaseStorage_getTrendingSnippets limit db =
     limit_offset limit 0
       (select_with_author
          (sort_desc (\<lambda>(s, u). likes s + views s)
             (filter (\<lambda>(s, u). isPublic s) (snippets_join_users db))))"

text \<open>
  \<open>createSnippet\<close> passes the validated fields and the author; \<open>id\<close>, the counters and
  both timestamps take their column defaults (\<open>gen_random_uuid()\<close>, \<open>0\<close>, \<open>now()\<close>),
  as do the text bodies and \<open>is_public\<close> when they are absent.
\<close>

definition DatabaseStorage_createSnippet ::
  "insert_snippet \<Rightarrow> string \<Rightarrow> string \<Rightarrow> int \<Rightarrow> database \<Rightarrow> db_error + snippet \<times> database" where
  "DatabaseStorage_createSnippet snippetData author_id ident now db =
     (let newSnippet =
            \<lparr>s_id = ident, title = is_title snippetData,
             description = is_description snippetData,
             html = (case is_html snippetData of None \<Rightarrow> [] | Some x \<Rightarrow> x),
             css = (case is_css snippetData of None \<Rightarrow> [] | Some x \<Rightarrow> x),
             javascript = (case is_javascript snippetData of None \<Rightarrow> [] | Some x \<Rightarrow> x),
             isPublic = (case is_isPublic snippetData of None \<Rightarrow> False | Some b \<Rightarrow> b),
             authorId = author_id, views = 0, likes = 0, s_createdAt = now, updatedAt = now\<rparr>
      in if ident \<in> set (map s_id (t_snippets db)) then Inl UniqueViolation
         else Inr (newSnippet, db\<lparr>t_snippets := t_snippets db @ [newSnippet]\<rparr>))"

definition DatabaseStorage_updateSnippet ::
  "string \<Rightarrow> snippet_updates \<Rightarrow> int \<Rightarrow> database \<Rightarrow> db_error + snippet option \<times> database" where
  "DatabaseStorage_updateSnippet ident updates now db =
     (let rows = map (\<lambda>s. if s_id s = ident then merge_snippet s updates now else s)
                   (t_snippets db);
          returning = map (\<lambda>s. merge_snippet s updates now)
                        (filter (\<lambda>s. s_id s = ident) (t_snippets db))
      in if returning \<noteq> [] \<and> \<not> distinct (map s_id rows) then Inl UniqueViolation
         else Inr (first_row returning, db\<lparr>t_snippets := rows\<rparr>))"

definition DatabaseStorage_deleteSnippet :: "string \<Rightarrow> database \<Rightarrow> bool \<times> database" where
  "DatabaseStorage_deleteSnippet ident db =
     (filter (\<lambda>s. s_id s = ident) (t_snippets db) \<noteq> [],
      db\<lparr>t_snippets := filter (\<lambda>s. s_id s \<noteq> ident) (t_snippets db)\<rparr>)"

definition db_existing_view :: "string \<Rightarrow> string option \<Rightarrow> string option \<Rightarrow> database \<Rightarrow> bool" where
  "db_existing_view snippetId userId ipAddress db =
     (if truthy userId
      then filter (\<lambda>v. v_snippetId v = snippetId \<and> v_userId v = userId) (t_snippetViews db) \<noteq> []
      else if truthy ipAddress
      then filter (\<lambda>v. v_snippetId v = snippetId \<and> v_ipAddress v = ipAddress) (t_snippetViews db) \<noteq> []
      else False)"

definition DatabaseStorage_incrementViews ::
  "string \<Rightarrow> string option \<Rightarrow> string option \<Rightarrow> string \<Rightarrow> int \<Rightarrow> database \<Rightarrow> db_error + database" where
  "DatabaseStorage_incrementViews snippetId userId ipAddress viewId now db =
     (if db_existing_view snippetId userId ipAddress db then Inr db
      else if viewId \<in> set (map v_id (t_snippetViews db)) then Inl UniqueViolation
      else
        let view = \<lparr>v_id = viewId, v_snippetId = snippetId, v_userId = or_null userId,
                    v_ipAddress = or_null ipAddress, v_createdAt = now\<rparr>;
            db1 = db\<lparr>t_snippetViews := t_snippetViews db @ [view]\<rparr>
        in Inr (db1\<lparr>t_snippets :=
                  map (\<lambda>s. if s_id s = snippetId then s\<lparr>views := views s + 1\<rparr> else s)
                    (t_snippets db1)\<rparr>))"

subsection \<open>Likes\<close>

definition DatabaseStorage_likeSnippet ::
  "string \<Rightarrow> string \<Rightarrow> string \<Rightarrow> int \<Rightarrow> database \<Rightarrow> db_error + bool \<times> database" where
  "DatabaseStorage_likeSnippet snippetId userId likeId now db =
     (case first_row (filter (\<lambda>l. l_snippetId l = snippetId \<and> l_userId l = userId)
                        (t_snippetLikes db)) of
        Some existingLike \<Rightarrow> Inr (False, db)
      | None \<Rightarrow>
          if likeId \<in> set (map l_id (t_snippetLikes db)) then Inl UniqueViolation
          else
            let db1 = db\<lparr>t_snippetLikes := t_snippetLikes db @
                         [\<lparr>l_id = likeId, l_snippetId = snippetId, l_userId = userId,
                           l_createdAt = now\<rparr>]\<rparr>
            in Inr (True, db1\<lparr>t_snippets :=
                      map (\<lambda>s. if s_id s = snippetId then s\<lparr>likes := likes s + 1\<rparr> else s)
                        (t_snippets db1)\<rparr>))"

definition DatabaseStorage_unlikeSnippet :: "string \<Rightarrow> string \<Rightarrow> database \<Rightarrow> bool \<times> database" where
  "DatabaseStorage_unlikeSnippet snippetId userId db =
     (case first_row (filter (\<lambda>l. l_snippetId l = snippetId \<and> l_userId l = userId)
                        (t_snippetLikes db)) of
        None \<Rightarrow> (False, db)
      | Some existingLike \<Rightarrow>
          let db1 = db\<lparr>t_snippetLikes :=
                       filter (\<lambda>l. \<not> (l_snippetId l = snippetId \<and> l_userId l = userId))
                         (t_snippetLikes db)\<rparr>
          in (True, db1\<lparr>t_snippets :=
                map (\<lambda>s. if s_id s = snippetId then s\<lparr>likes := likes s - 1\<rparr> else s)
                  (t_snippets db1)\<rparr>))"

definition DatabaseStorage_isSnippetLiked :: "string \<Rightarrow> string \<Rightarrow> database \<Rightarrow> bool" where
  "DatabaseStorage_isSnippetLiked snippetId userId db =
     (first_row (filter (\<lambda>l. l_snippetId l = snippetId \<and> l_userId l = userId)
                   (t_snippetLikes db)) \<noteq> None)"

subsection \<open>Follows\<close>

definition DatabaseStorage_followUser ::
  "string \<Rightarrow> string \<Rightarrow> string \<Rightarrow> int \<Rightarrow> database \<Rightarrow> db_error + bool \<times> database" where
  "DatabaseStorage_followUser follower following followId now db =
     (if follower = following then Inr (False, db)
      else
        (case first_row (filter (\<lambda>f. followerId f = follower \<and> followingId f = following)
                           (t_follows db)) of
           Some existingFollow \<Rightarrow> Inr (False, db)
         | None \<Rightarrow>
             if followId \<in> set (map f_id (t_follows db)) then Inl UniqueViolation
             else Inr (True, db\<lparr>t_follows := t_follows db @
                         [\<lparr>f_id = followId, followerId = follower, followingId = following,
                           f_createdAt = now\<rparr>]\<rparr>)))"

definition DatabaseStorage_unfollowUser :: "string \<Rightarrow> string \<Rightarrow> database \<Rightarrow> bool \<times> database" where
  "DatabaseStorage_unfollowUser follower following db =
     (filter (\<lambda>f. followerId f = follower \<and> followingId f = following) (t_follows db) \<noteq> [],
      db\<lparr>t_follows :=
           filter (\<lambda>f. \<not> (followerId f = follower \<and> followingId f = following)) (t_follows db)\<rparr>)"

definition DatabaseStorage_isFollowing :: "string \<Rightarrow> string \<Rightarrow> database \<Rightarrow> bool" where
  "DatabaseStorage_isFollowing follower following db =
     (first_row (filter (\<lambda>f. followerId f = follower \<and> followingId f = following)
                   (t_follows db)) \<noteq> None)"

text \<open>
  \<open>from(users).innerJoin(follows, eq(users.id, follows.followerId))
  .where(eq(follows.followingId, userId))\<close>: one row for every pair of a user row and a
  follow record of that user on \<open>userId\<close>.
\<close>

definition followers_join :: "string \<Rightarrow> database \<Rightarrow> user list" where
  "followers_join userId db =
     concat (map (\<lambda>u. map (\<lambda>f. u)
                        (filter (\<lambda>f. u_id u = followerId f \<and> followingId f = userId)
                           (t_follows db)))
               (t_users db))"

text \<open>
  The query has no \<open>ORDER BY\<close>: the database returns these rows in an order of its own
  choosing. \<open>arrange\<close> is that choice; all that is known of it is that it permutes the
  rows.
\<close>

definition DatabaseStorage_getFollowers ::
  "(user list \<Rightarrow> user list) \<Rightarrow> string \<Rightarrow> database \<Rightarrow> user list" where
  "DatabaseStorage_getFollowers arrange userId db = arrange (followers_join userId db)"

subsection \<open>Notifications\<close>

definition DatabaseStorage_createNotification ::
  "insert_notification \<Rightarrow> string \<Rightarrow> int \<Rightarrow> database \<Rightarrow> db_error + notification \<times> database" where
  "DatabaseStorage_createNotification insertNotification ident now db =
     (let notification =
            \<lparr>n_id = ident, n_userId = in_userId insertNotification,
             n_type = in_type insertNotification, n_title = in_title insertNotification,
             n_message = in_message insertNotification,
             n_snippetId = in_snippetId insertNotification,
             n_fromUserId = in_fromUserId insertNotification,
             isRead = False, n_createdAt = now\<rparr>
      in if ident \<in> set (map n_id (t_notifications db)) then Inl UniqueViolation
         else Inr (notification, db\<lparr>t_notifications := t_notifications db @ [notification]\<rparr>))"

definition DatabaseStorage_markNotificationRead ::
  "string \<Rightarrow> string \<Rightarrow> database \<Rightarrow> bool \<times> database" where
  "DatabaseStorage_markNotificationRead ident userId db =
     (filter (\<lambda>n. n_id n = ident \<and> n_userId n = userId) (t_notifications db) \<noteq> [],
      db\<lparr>t_notifications :=
           map (\<lambda>n. if n_id n = ident \<and> n_userId n = userId then n\<lparr>isRead := True\<rparr> else n)
             (t_notifications db)\<rparr>)"

definition DatabaseStorage_markAllNotificationsRead :: "string \<Rightarrow> database \<Rightarrow> database" where
  "DatabaseStorage_markAllNotificationsRead userId db =
     db\<lparr>t_notifications :=
          map (\<lambda>n. if n_userId n = userId \<and> isRead n = False then n\<lparr>isRead := True\<rparr> else n)
            (t_notifications db)\<rparr>"

subsection \<open>Deleting a user\<close>

text \<open>
  Five \<open>DELETE\<close> statements, each evaluated on the state its predecessors left; the
  subquery \<open>SELECT id FROM snippets WHERE author_id = userId\<close> is read while the
  snippets are still there. None of them can violate a constraint, so the \<open>catch\<close>
  branch is not reached.
\<close>

definition DatabaseStorage_deleteUserAndSnippets :: "string \<Rightarrow> database \<Rightarrow> bool \<times> database" where
  "DatabaseStorage_deleteUserAndSnippets userId db =
     (let db1 = db\<lparr>t_snippetLikes :=
                     filter (\<lambda>l. \<not> (l_snippetId l \<in> set (map s_id (filter (\<lambda>s. authorId s = userId)
                                                                      (t_snippets db)))
                                   \<or> l_userId l = userId))
                       (t_snippetLikes db)\<rparr>;
          db2 = db1\<lparr>t_snippetViews :=
                      filter (\<lambda>v. \<not> (v_snippetId v \<in> set (map s_id (filter (\<lambda>s. authorId s = userId)
                                                                       (t_snippets db1)))
                                    \<or> v_userId v = Some userId))
                        (t_snippetViews db1)\<rparr>;
          db3 = db2\<lparr>t_follows :=
                      filter (\<lambda>f. \<not> (followerId f = userId \<or> followingId f = userId))
                        (t_follows db2)\<rparr>;
          db4 = db3\<lparr>t_notifications :=
                      filter (\<lambda>n. \<not> (n_userId n = userId \<or> n_fromUserId n = Some userId))
                        (t_notifications db3)\<rparr>;
          db5 = db4\<lparr>t_snippets := filter (\<lambda>s. authorId s \<noteq> userId) (t_snippets db4)\<rparr>
      in (filter (\<lambda>u. u_id u = userId) (t_users db5) \<noteq> [],
          db5\<lparr>t_users := filter (\<lambda>u. u_id u \<noteq> userId) (t_users db5)\<rparr>))"

section \<open>Sequences of storage operations\<close>

text \<open>
  The state-changing methods of \<open>IStorage\<close>, with the identifier, password hash and
  time the environment supplies to each call.
\<close>

datatype storage_op =
    CreateUser insert_user string string int
  | CreateAdminUser insert_user user_rank string string int
  | UpdateUser string user_updates
  | CreateSnippet insert_snippet string string int
  | UpdateSnippet string snippet_updates int
  | DeleteSnippet string
  | IncrementViews string "string option" "string option" string int
  | LikeSnippet string string string int
  | UnlikeSnippet string string
  | FollowUser string string string int
  | UnfollowUser string string
  | CreateNotification insert_notification string int
  | MarkNotificationRead string string
  | MarkAllNotificationsRead string
  | DeleteUserAndSnippets string

fun MemStorage_step :: "storage_op \<Rightarrow> mem_storage \<Rightarrow> mem_storage" where
  "MemStorage_step (CreateUser iu i h t) st = snd (MemStorage_createUser iu i h t st)"
| "MemStorage_step (CreateAdminUser iu r i h t) st = snd (MemStorage_createAdminUser iu r i h t st)"
| "MemStorage_step (UpdateUser i up) st = snd (MemStorage_updateUser i up st)"
| "MemStorage_step (CreateSnippet d a i t) st = snd (MemStorage_createSnippet d a i t st)"
| "MemStorage_step (UpdateSnippet i up t) st = snd (MemStorage_updateSnippet i up t st)"
| "MemStorage_step (DeleteSnippet i) st = snd (MemStorage_deleteSnippet i st)"
| "MemStorage_step (IncrementViews s u ip i t) st = MemStorage_incrementViews s u ip i t st"
| "MemStorage_step (LikeSnippet s u i t) st = snd (MemStorage_likeSnippet s u i t st)"
| "MemStorage_step (UnlikeSnippet s u) st = snd (MemStorage_unlikeSnippet s u st)"
| "MemStorage_step (FollowUser f g i t) st = snd (MemStorage_followUser f g i t st)"
| "MemStorage_step (UnfollowUser f g) st = snd (MemStorage_unfollowUser f g st)"
| "MemStorage_step (CreateNotification n i t) st = snd (MemStorage_createNotification n i t st)"
| "MemStorage_step (MarkNotificationRead i u) st = snd (MemStorage_markNotificationRead i u st)"
| "MemStorage_step (MarkAllNotificationsRead u) st = MemStorage_markAllNotificationsRead u st"
| "MemStorage_step (DeleteUserAndSnippets u) st = snd (MemStorage_deleteUserAndSnippets u st)"

text \<open>A call that throws leaves the database as it was.\<close>

definition state_after :: "database \<Rightarrow> db_error + 'a \<times> database \<Rightarrow> database" where
  "state_after db r = (case r of Inl e \<Rightarrow> db | Inr (x, db') \<Rightarrow> db')"

fun DatabaseStorage_step :: "storage_op \<Rightarrow> database \<Rightarrow> database" where
  "DatabaseStorage_step (CreateUser iu i h t) db =
     state_after db (DatabaseStorage_createUser iu i h t db)"
| "DatabaseStorage_step (CreateAdminUser iu r i h t) db =
     state_after db (DatabaseStorage_createAdminUser iu r i h t db)"
| "DatabaseStorage_step (UpdateUser i up) db = state_after db (DatabaseStorage_updateUser i up db)"
| "DatabaseStorage_step (CreateSnippet d a i t) db =
     state_after db (DatabaseStorage_createSnippet d a i t db)"
| "DatabaseStorage_step (UpdateSnippet i up t) db =
     state_after db (DatabaseStorage_updateSnippet i up t db)"
| "DatabaseStorage_step (DeleteSnippet i) db = snd (DatabaseStorage_deleteSnippet i db)"
| "DatabaseStorage_step (IncrementViews s u ip i t) db =
     (case DatabaseStorage_incrementViews s u ip i t db of Inl e \<Rightarrow> db | Inr db' \<Rightarrow> db')"
| "DatabaseStorage_step (LikeSnippet s u i t) db =
     state_after db (DatabaseStorage_likeSnippet s u i t db)"
| "DatabaseStorage_step (UnlikeSnippet s u) db = snd (DatabaseStorage_unlikeSnippet s u db)"
| "DatabaseStorage_step (FollowUser f g i t) db =
     state_after db (DatabaseStorage_followUser f g i t db)"
| "DatabaseStorage_step (UnfollowUser f g) db = snd (DatabaseStorage_unfollowUser f g db)"
| "DatabaseStorage_step (CreateNotification n i t) db =
     state_after db (DatabaseStorage_createNotification n i t db)"
| "DatabaseStorage_step (MarkNotificationRead i u) db =
     snd (DatabaseStorage_markNotificationRead i u db)"
| "DatabaseStorage_step (MarkAllNotificationsRead u) db =
     DatabaseStorage_markAllNotificationsRead u db"
| "DatabaseStorage_step (DeleteUserAndSnippets u) db =
     snd (DatabaseStorage_deleteUserAndSnippets u db)"

text \<open>The state after a sequence of calls, the first call first.\<close>

definition MemStorage_run :: "storage_op list \<Rightarrow> mem_storage \<Rightarrow> mem_storage" where
  "MemStorage_run ops st = fold MemStorage_step ops st"

definition DatabaseStorage_run :: "storage_op list \<Rightarrow> database \<Rightarrow> database" where
  "DatabaseStorage_run ops db = fold DatabaseStorage_step ops db"

section \<open>Route handlers (server/routes.ts)\<close>

text \<open>
  The routes call \<open>storage\<close>, which is \<open>new DatabaseStorage()\<close>. A handler takes the
  session's \<open>userId\<close> (if any), the parameters of the request and the database, and
  returns the response with the database it leaves. \<open>res.json\<close> without \<open>res.status\<close>
  answers 200. An exception caught by a handler's outer \<open>catch\<close> is answered with
  status 400 and the message of the error.
\<close>

datatype thrown = ZodError | DbError db_error

datatype json =
    Message string
  | ErrorMessage thrown
  | SnippetWithAuthorJson snippet_with_author
  | SnippetJson snippet

record response =
  status :: nat
  body :: json

text \<open>\<open>requireAuth\<close>: the session must carry a truthy \<open>userId\<close>.\<close>

definition requireAuth :: "string option \<Rightarrow> response option" where
  "requireAuth session_userId =
     (if \<not> truthy session_userId
      then Some \<lparr>status = 401, body = Message ''Authentication required''\<rparr>
      else None)"

text \<open>\<open>requireAdmin\<close>: the session's user must exist and have rank \<open>'admin'\<close>.\<close>

definition requireAdmin :: "string option \<Rightarrow> database \<Rightarrow> response option" where
  "requireAdmin session_userId db =
     (case session_userId of
        None \<Rightarrow> Some \<lparr>status = 401, body = Message ''Authentication required''\<rparr>
      | Some uid \<Rightarrow>
          if uid = [] then Some \<lparr>status = 401, body = Message ''Authentication required''\<rparr>
          else
            (case DatabaseStorage_getUser uid db of
               None \<Rightarrow> Some \<lparr>status = 403, body = Message ''Admin privileges required''\<rparr>
             | Some user \<Rightarrow>
                 if rank user \<noteq> Admin
                 then Some \<lparr>status = 403, body = Message ''Admin privileges required''\<rparr>
                 else None))"

subsection \<open>GET /api/snippets/:id\<close>

text \<open>
  \<open>req_ip\<close> and \<open>remoteAddress\<close> are \<open>req.ip\<close> and \<open>req.connection.remoteAddress\<close>;
  the handler falls back to \<open>'unknown'\<close>.
\<close>

definition GET_api_snippets_id ::
  "string option \<Rightarrow> string \<Rightarrow> string option \<Rightarrow> string option \<Rightarrow> string \<Rightarrow> int \<Rightarrow> database
     \<Rightarrow> response \<times> database" where
  "GET_api_snippets_id session_userId ident req_ip remoteAddress viewId now db =
     (case DatabaseStorage_getSnippetWithAuthor ident db of
        None \<Rightarrow> (\<lparr>status = 404, body = Message ''Snippet not found''\<rparr>, db)
      | Some snippet \<Rightarrow>
          if \<not> isPublic snippet \<and> session_userId \<noteq> Some (authorId snippet)
          then (\<lparr>status = 403, body = Message ''Access denied''\<rparr>, db)
          else
            let ipAddress = or_string req_ip (or_string remoteAddress ''unknown'')
            in (case DatabaseStorage_incrementViews ident session_userId (Some ipAddress)
                       viewId now db of
                  Inl e \<Rightarrow> (\<lparr>status = 400, body = ErrorMessage (DbError e)\<rparr>, db)
                | Inr db1 \<Rightarrow>
                    (case session_userId of
                       None \<Rightarrow> (\<lparr>status = 200, body = SnippetWithAuthorJson snippet\<rparr>, db1)
                     | Some uid \<Rightarrow>
                         if uid = []
                         then (\<lparr>status = 200, body = SnippetWithAuthorJson snippet\<rparr>, db1)
                         else (\<lparr>status = 200, body = SnippetWithAuthorJson
                                  (snippet\<lparr>isLiked :=
                                     Some (DatabaseStorage_isSnippetLiked ident uid db1)\<rparr>)\<rparr>,
                               db1))))"

subsection \<open>POST /api/snippets\<close>

definition new_snippet_notification :: "user \<Rightarrow> user \<Rightarrow> snippet \<Rightarrow> insert_notification" where
  "new_snippet_notification follower a snippet =
     \<lparr>in_userId = u_id follower, in_type = ''new_snippet'', in_title = ''New Snippet Posted'',
      in_message = or_string (displayName a) (username a) @ '' posted a new snippet: ''
                     @ [CHR 0x22] @ title snippet @ [CHR 0x22],
      in_snippetId = Some (s_id snippet), in_fromUserId = Some (u_id a)\<rparr>"

text \<open>
  The loop over the followers. The \<open>k\<close>-th call of \<open>createNotification\<close> gets the
  identifier \<open>uuid k\<close> and the time \<open>clock k\<close>. A call that throws ends the loop: the
  exception is caught by the inner \<open>try\<close>, logged and dropped, and the notifications
  written before it stay.
\<close>

fun notify_followers ::
  "user list \<Rightarrow> nat \<Rightarrow> (nat \<Rightarrow> string) \<Rightarrow> (nat \<Rightarrow> int) \<Rightarrow> user \<Rightarrow> snippet \<Rightarrow> database \<Rightarrow> database" where
  "notify_followers [] k uuid clock a snippet db = db"
| "notify_followers (follower # followers) k uuid clock a snippet db =
     (case DatabaseStorage_createNotification (new_snippet_notification follower a snippet)
             (uuid k) (clock k) db of
        Inl e \<Rightarrow> db
      | Inr (n, db') \<Rightarrow> notify_followers followers (Suc k) uuid clock a snippet db')"

text \<open>
  \<open>parsed\<close> is the result of \<open>insertSnippetSchema.parse(req.body)\<close>, \<open>None\<close> when it
  throws; \<open>ident\<close> and \<open>now\<close> are the new snippet's identifier and creation time,
  \<open>arrange\<close> the order in which the database returns the followers.
\<close>

definition POST_api_snippets ::
  "string option \<Rightarrow> insert_snippet option \<Rightarrow> string \<Rightarrow> int \<Rightarrow> (user list \<Rightarrow> user list)
     \<Rightarrow> (nat \<Rightarrow> string) \<Rightarrow> (nat \<Rightarrow> int) \<Rightarrow> database \<Rightarrow> response \<times> database" where
  "POST_api_snippets session_userId parsed ident now arrange uuid clock db =
     (case requireAuth session_userId of
        Some denied \<Rightarrow> (denied, db)
      | None \<Rightarrow>
          (case parsed of
             None \<Rightarrow> (\<lparr>status = 400, body = ErrorMessage ZodError\<rparr>, db)
           | Some snippetData \<Rightarrow>
               (case DatabaseStorage_createSnippet snippetData (the session_userId) ident now db of
                  Inl e \<Rightarrow> (\<lparr>status = 400, body = ErrorMessage (DbError e)\<rparr>, db)
                | Inr (snippet, db1) \<Rightarrow>
                    (\<lparr>status = 201, body = SnippetJson snippet\<rparr>,
                     if isPublic snippet
                     then
                       (let followers = DatabaseStorage_getFollowers arrange
                                          (the session_userId) db1
                        in case DatabaseStorage_getUser (the session_userId) db1 of
                             None \<Rightarrow> db1
                           | Some a \<Rightarrow> notify_followers followers 0 uuid clock a snippet db1)
                     else db1))))"

subsection \<open>POST /api/snippets/:id/like\<close>

definition POST_api_snippets_id_like ::
  "string option \<Rightarrow> string \<Rightarrow> string \<Rightarrow> int \<Rightarrow> database \<Rightarrow> response \<times> database" where
  "POST_api_snippets_id_like session_userId ident likeId now db =
     (case requireAuth session_userId of
        Some denied \<Rightarrow> (denied, db)
      | None \<Rightarrow>
          (case DatabaseStorage_likeSnippet ident (the session_userId) likeId now db of
             Inl e \<Rightarrow> (\<lparr>status = 400, body = ErrorMessage (DbError e)\<rparr>, db)
           | Inr (success, db1) \<Rightarrow>
               if \<not> success
               then (\<lparr>status = 400, body = Message ''Already liked or snippet not found''\<rparr>, db1)
               else (\<lparr>status = 200, body = Message ''Snippet liked successfully''\<rparr>, db1)))"

subsection \<open>POST /api/users/:username/follow\<close>

definition POST_api_users_username_follow ::
  "string option \<Rightarrow> string \<Rightarrow> string \<Rightarrow> int \<Rightarrow> database \<Rightarrow> response \<times> database" where
  "POST_api_users_username_follow session_userId name followId now db =
     (case requireAuth session_userId of
        Some denied \<Rightarrow> (denied, db)
      | None \<Rightarrow>
          (case DatabaseStorage_getUserByUsername name db of
             None \<Rightarrow> (\<lparr>status = 404, body = Message ''User not found''\<rparr>, db)
           | Some userToFollow \<Rightarrow>
               if Some (u_id userToFollow) = session_userId
               then (\<lparr>status = 400, body = Message ''Cannot follow yourself''\<rparr>, db)
               else
                 (case DatabaseStorage_followUser (the session_userId) (u_id userToFollow)
                         followId now db of
                    Inl e \<Rightarrow> (\<lparr>status = 400, body = ErrorMessage (DbError e)\<rparr>, db)
                  | Inr (success, db1) \<Rightarrow>
                      if \<not> success
                      then (\<lparr>status = 400, body = Message ''Already following this user''\<rparr>, db1)
                      else (\<lparr>status = 200, body = Message ''User followed successfully''\<rparr>, db1))))"

subsection \<open>DELETE /api/admin/users/:id\<close>

definition DELETE_api_admin_users_id :: "string option \<Rightarrow> string \<Rightarrow> database \<Rightarrow> response \<times> database" where
  "DELETE_api_admin_users_id session_userId ident db =
     (case requireAdmin session_userId db of
        Some denied \<Rightarrow> (denied, db)
      | None \<Rightarrow>
          if Some ident = session_userId
          then (\<lparr>status = 400, body = Message ''Cannot delete your own account''\<rparr>, db)
          else
            (case DatabaseStorage_getUser ident db of
               None \<Rightarrow> (\<lparr>status = 404, body = Message ''User not found''\<rparr>, db)
             | Some existingUser \<Rightarrow>
                 (\<lparr>status = 200, body = Message ''User and all their content deleted successfully''\<rparr>,
                  snd (DatabaseStorage_deleteUserAndSnippets ident db))))"

section \<open>Invariants of the stored records\<close>

text \<open>No follow record relates a user to itself, and no pair occurs in two records.\<close>

definition follows_ok :: "follow list \<Rightarrow> bool" where
  "follows_ok fs \<longleftrightarrow>
     (\<forall>f \<in> set fs. followerId f \<noteq> followingId f)
     \<and> distinct (map (\<lambda>f. (followerId f, followingId f)) fs)"

text \<open>The primary keys of the \<open>users\<close> and \<open>snippets\<close> tables.\<close>

definition db_keys_ok :: "database \<Rightarrow> bool" where
  "db_keys_ok db \<longleftrightarrow> distinct (map u_id (t_users db)) \<and> distinct (map s_id (t_snippets db))"

text \<open>
  \<open>MemStorage\<close> deletes records by the \<open>id\<close> stored in them; every method stores a
  record under that \<open>id\<close> as its key.
\<close>

definition stored_under_id :: "('v \<Rightarrow> string) \<Rightarrow> (string, 'v) js_map \<Rightarrow> bool" where
  "stored_under_id ident m \<longleftrightarrow> (\<forall>p \<in> set m. fst p = ident (snd p))"

text \<open>
  Likes, views, follows and notifications are never stored otherwise, and a \<open>Map\<close> has
  every key once.
\<close>

definition mem_records_ok :: "mem_storage \<Rightarrow> bool" where
  "mem_records_ok st \<longleftrightarrow>
     stored_under_id l_id (m_snippetLikes st) \<and> distinct (map fst (m_snippetLikes st))
     \<and> stored_under_id v_id (m_snippetViews st) \<and> stored_under_id f_id (m_follows st)
     \<and> stored_under_id n_id (m_notifications st)"

text \<open>
  A snippet is stored under its \<open>id\<close> when it is created, but \<open>updateSnippet\<close> merges
  any \<open>id\<close> that \<open>updates\<close> carries into the record and leaves the key as it was.
  \<open>own_snippets_keyed u\<close>: the snippets authored by \<open>u\<close> are still under their ids.
\<close>

definition own_snippets_keyed :: "string \<Rightarrow> mem_storage \<Rightarrow> bool" where
  "own_snippets_keyed u st \<longleftrightarrow>
     (\<forall>p \<in> set (m_snippets st). authorId (snd p) = u \<longrightarrow> fst p = s_id (snd p))"

text \<open>
  A call keeps every snippet under its id unless it is an \<open>updateSnippet\<close> whose
  \<open>updates\<close> carry another \<open>id\<close> (the route passes the six editable fields only).
\<close>

definition keeps_ids :: "storage_op \<Rightarrow> bool" where
  "keeps_ids op =
     (case op of UpdateSnippet i up t \<Rightarrow> su_id up = None \<or> su_id up = Some i | _ \<Rightarrow> True)"

section \<open>What deleting a user must leave behind\<close>


definition mem_owned :: "string \<Rightarrow> mem_storage \<Rightarrow> string list" where
  "mem_owned u st = map s_id (filter (\<lambda>s. authorId s = u) (Map_values (m_snippets st)))"

definition db_owned :: "string \<Rightarrow> database \<Rightarrow> string list" where
  "db_owned u db = map s_id (filter (\<lambda>s. authorId s = u) (t_snippets db))"

section \<open>Calls that remove a like record\<close>

text \<open>
  The like of \<open>u\<close> on \<open>s\<close> is removed by \<open>unlikeSnippet(s, u)\<close>, and by
  \<open>deleteUserAndSnippets(x)\<close> when \<open>x\<close> is \<open>u\<close> or the author of a snippet with id
  \<open>s\<close>. No other call of \<open>DatabaseStorage\<close> removes it.
\<close>

definition db_removes_like :: "string \<Rightarrow> string \<Rightarrow> storage_op \<Rightarrow> database \<Rightarrow> bool" where
  "db_removes_like s u op db =
     (case op of
        UnlikeSnippet s' u' \<Rightarrow> s' = s \<and> u' = u
      | DeleteUserAndSnippets x \<Rightarrow> x = u \<or> s \<in> set (db_owned x db)
      | _ \<Rightarrow> False)"

text \<open>None of the calls \<open>ops\<close>, made one after the other from \<open>db\<close>, removes that like.\<close>

fun db_like_kept :: "string \<Rightarrow> string \<Rightarrow> storage_op list \<Rightarrow> database \<Rightarrow> bool" where
  "db_like_kept s u [] db = True"
| "db_like_kept s u (op # ops) db =
     (\<not> db_removes_like s u op db \<and> db_like_kept s u ops (DatabaseStorage_step op db))"

text \<open>
  \<open>MemStorage.deleteUserAndSnippets(x)\<close> does nothing when \<open>x\<close> is not a user. And in
  \<open>MemStorage\<close> a like record is also lost when a later \<open>likeSnippet\<close> stores its
  record under an identifier that is already in use, which \<open>randomUUID()\<close> does not
  return in practice.
\<close>

definition mem_removes_like :: "string \<Rightarrow> string \<Rightarrow> storage_op \<Rightarrow> mem_storage \<Rightarrow> bool" where
  "mem_removes_like s u op st =
     (case op of
        UnlikeSnippet s' u' \<Rightarrow> s' = s \<and> u' = u
      | DeleteUserAndSnippets x \<Rightarrow>
          MemStorage_getUser x st \<noteq> None \<and> (x = u \<or> s \<in> set (mem_owned x st))
      | _ \<Rightarrow> False)"

definition mem_like_id_reused :: "storage_op \<Rightarrow> mem_storage \<Rightarrow> bool" where
  "mem_like_id_reused op st =
     (case op of
        LikeSnippet s' u' i' t' \<Rightarrow>
          \<not> MemStorage_isSnippetLiked s' u' st \<and> i' \<in> set (map fst (m_snippetLikes st))
      | _ \<Rightarrow> False)"

fun mem_like_kept :: "string \<Rightarrow> string \<Rightarrow> storage_op list \<Rightarrow> mem_storage \<Rightarrow> bool" where
  "mem_like_kept s u [] st = True"
| "mem_like_kept s u (op # ops) st =
     (\<not> mem_removes_like s u op st \<and> \<not> mem_like_id_reused op st
      \<and> mem_like_kept s u ops (MemStorage_step op st))"

section \<open>Notifications written by POST /api/snippets\<close>

text \<open>The row that \<open>DatabaseStorage.createNotification\<close> inserts.\<close>

definition notification_row :: "insert_notification \<Rightarrow> string \<Rightarrow> int \<Rightarrow> notification" where
  "notification_row n ident now =
     \<lparr>n_id = ident, n_userId = in_userId n, n_type = in_type n, n_title = in_title n,
      n_message = in_message n, n_snippetId = in_snippetId n, n_fromUserId = in_fromUserId n,
      isRead = False, n_createdAt = now\<rparr>"

text \<open>
  One \<open>'new_snippet'\<close> row per follower, the \<open>j\<close>-th of them with the \<open>j\<close>-th
  identifier and time, counted from \<open>k\<close>.
\<close>

definition new_snippet_rows ::
  "user list \<Rightarrow> nat \<Rightarrow> (nat \<Rightarrow> string) \<Rightarrow> (nat \<Rightarrow> int) \<Rightarrow> user \<Rightarrow> snippet \<Rightarrow> notification list" where
  "new_snippet_rows followers k uuid clock a snippet =
     map (\<lambda>(j, follower).
            notification_row (new_snippet_notification follower a snippet) (uuid j) (clock j))
       (enumerate k followers)"

text \<open>The identifiers \<open>uuid k, ..., uuid (k + n - 1)\<close> differ from each other and from those in use.\<close>

definition fresh_ids :: "(nat \<Rightarrow> string) \<Rightarrow> nat \<Rightarrow> nat \<Rightarrow> string list \<Rightarrow> bool" where
  "fresh_ids uuid k n used \<longleftrightarrow>
     distinct (map uuid [k..<k + n]) \<and> set (map uuid [k..<k + n]) \<inter> set used = {}"

text \<open>
  \<open>f\<close> is a follower of \<open>uid\<close> that can be notified: a follow record of \<open>f\<close> on
  \<open>uid\<close> exists, and \<open>f\<close> has a user record.
\<close>

definition follower_with_record :: "string \<Rightarrow> string \<Rightarrow> database \<Rightarrow> bool" where
  "follower_with_record f uid db \<longleftrightarrow>
     (\<exists>r \<in> set (t_follows db). followerId r = f \<and> followingId r = uid)
     \<and> f \<in> set (map u_id (t_users db))"

section \<open>Example states\<close>

text \<open>
  Two users and one public snippet by the first of them, as \<open>MemStorage\<close> holds them and
  as the database does; \<open>example_db_liked\<close> is the database after the second user has
  liked the snippet.
\<close>

definition example_snippet :: snippet where
  "example_snippet = \<lparr>s_id = ''s1'', title = ''Hello'', description = None, html = ''<p>hi</p>'',
     css = [], javascript = [], isPublic = True, authorId = ''u1'', views = 0, likes = 0,
     s_createdAt = 1000, updatedAt = 1000\<rparr>"

definition example_user :: "string \<Rightarrow> string \<Rightarrow> user_rank \<Rightarrow> user" where
  "example_user ident name r = \<lparr>u_id = ident, username = name, password = ''hash'',
     email = name @ ''@example.org'', displayName = Some name, bio = None, location = None,
     website = None, avatarUrl = None, profilePicture = None, rank = r, u_createdAt = 500\<rparr>"

definition example_mem :: mem_storage where
  "example_mem = MemStorage_new\<lparr>
     m_users := [(''u1'', example_user ''u1'' ''alice'' Default),
                 (''u2'', example_user ''u2'' ''bob'' Default)],
     m_snippets := [(''s1'', example_snippet)]\<rparr>"

definition example_like :: snippet_like where
  "example_like = \<lparr>l_id = ''l1'', l_snippetId = ''s1'', l_userId = ''u2'', l_createdAt = 2000\<rparr>"

definition example_mem_liked :: mem_storage where
  "example_mem_liked = example_mem\<lparr>
     m_snippets := [(''s1'', example_snippet\<lparr>likes := 1\<rparr>)],
     m_snippetLikes := [(''l1'', example_like)]\<rparr>"

definition example_db :: database where
  "example_db = DatabaseStorage_new\<lparr>
     t_users := [example_user ''u1'' ''alice'' Default, example_user ''u2'' ''bob'' Default],
     t_snippets := [example_snippet]\<rparr>"

definition example_db_liked :: database where
  "example_db_liked = example_db\<lparr>
     t_snippets := [example_snippet\<lparr>likes := 1\<rparr>],
     t_snippetLikes := [example_like]\<rparr>"

text \<open>
  A database with an administrator (\<open>u3\<close>) and a private snippet \<open>s2\<close> of the
  first user.
\<close>

definition example_private_snippet :: snippet where
  "example_private_snippet = example_snippet\<lparr>s_id := ''s2'', title := ''Secret'', isPublic := False\<rparr>"

definition example_db_private :: database where
  "example_db_private = DatabaseStorage_new\<lparr>
     t_users := [example_user ''u1'' ''alice'' Default, example_user ''u2'' ''bob'' Default,
                 example_user ''u3'' ''carol'' Admin],
     t_snippets := [example_private_snippet]\<rparr>"

text \<open>The database with the rank of every user replaced by \<open>r user\<close>.\<close>

definition set_ranks :: "(user \<Rightarrow> user_rank) \<Rightarrow> database \<Rightarrow> database" where
  "set_ranks r db = db\<lparr>t_users := map (\<lambda>u. u\<lparr>rank := r u\<rparr>) (t_users db)\<rparr>"

text \<open>The view of the example snippet by the second user, and the states that hold it.\<close>

definition example_view :: snippet_view where
  "example_view = \<lparr>v_id = ''v1'', v_snippetId = ''s1'', v_userId = Some ''u2'',
     v_ipAddress = Some ''10.0.0.7'', v_createdAt = 2000\<rparr>"

definition example_mem_viewed :: mem_storage where
  "example_mem_viewed = example_mem\<lparr>
     m_snippets := [(''s1'', example_snippet\<lparr>views := 1\<rparr>)],
     m_snippetViews := [(''v1'', example_view)]\<rparr>"

definition example_db_viewed :: database where
  "example_db_viewed = example_db\<lparr>
     t_snippets := [example_snippet\<lparr>views := 1\<rparr>],
     t_snippetViews := [example_view]\<rparr>"

text \<open>
  A sequence of calls in which the first user follows the second, tries to follow the
  second again and tries to follow itself.
\<close>

definition example_follow :: follow where
  "example_follow = \<lparr>f_id = ''f1'', followerId = ''u1'', followingId = ''u2'', f_createdAt = 100\<rparr>"

definition example_follow_ops :: "storage_op list" where
  "example_follow_ops =
     [FollowUser ''u1'' ''u2'' ''f1'' 100, FollowUser ''u1'' ''u2'' ''f2'' 200,
      FollowUser ''u1'' ''u1'' ''f3'' 300]"









text \<open>
  The calls that produce \<open>example_mem_full\<close> from the empty storage. And a sequence of
  calls in which \<open>updateSnippet\<close> is passed \<open>{ id: 'zz' }\<close>: the record of snippet
  \<open>s1\<close> then carries the id \<open>zz\<close> and is still stored under the key \<open>s1\<close>.
\<close>

definition example_signup :: "string \<Rightarrow> insert_user" where
  "example_signup name = \<lparr>iu_username = name, iu_password = ''secret'',
     iu_email = name @ ''@example.org'', iu_displayName = Some name, iu_bio = None,
     iu_location = None, iu_website = None\<rparr>"

definition example_hello :: "string \<Rightarrow> insert_snippet" where
  "example_hello t = \<lparr>is_title = t, is_description = None, is_html = Some ''<p>hi</p>'',
     is_css = None, is_javascript = None, is_isPublic = Some True\<rparr>"





text \<open>
  The second user, followed by the first, posts a snippet; \<open>example_uuid\<close> and
  \<open>example_clock\<close> stand for the identifiers and times of the notification writes.
\<close>

definition example_uuid :: "nat \<Rightarrow> string" where
  "example_uuid k = ''n'' @ replicate k (CHR ''x'')"

definition example_clock :: "nat \<Rightarrow> int" where
  "example_clock k = 5000 + int k"

definition example_db_followed :: database where
  "example_db_followed = example_db\<lparr>t_follows := [example_follow]\<rparr>"

definition example_post :: "bool \<Rightarrow> insert_snippet" where
  "example_post public = \<lparr>is_title = ''Demo'', is_description = None, is_html = Some ''<b>x</b>'',
     is_css = None, is_javascript = None, is_isPublic = Some public\<rparr>"

definition example_posted :: "bool \<Rightarrow> snippet" where
  "example_posted public = \<lparr>s_id = ''s9'', title = ''Demo'', description = None,
     html = ''<b>x</b>'', css = [], javascript = [], isPublic = public, authorId = ''u2'',
     views = 0, likes = 0, s_createdAt = 5000, updatedAt = 5000\<rparr>"

definition example_new_notification :: notification where
  "example_new_notification = \<lparr>n_id = ''n'', n_userId = ''u1'', n_type = ''new_snippet'',
     n_title = ''New Snippet Posted'',
     n_message = ''bob posted a new snippet: '' @ [CHR 0x22] @ ''Demo'' @ [CHR 0x22],
     n_snippetId = Some ''s9'', n_fromUserId = Some ''u2'', isRead = False, n_createdAt = 5000\<rparr>"

text \<open>
  One user creates the public snippets \<open>a\<close> and \<open>b\<close>, in that order, and then edits
  the title of \<open>a\<close>; \<open>example_edited\<close> and \<open>example_second\<close> are the two snippets
  afterwards and \<open>example_author\<close> is what a listing shows of their author.
\<close>

definition example_registration :: insert_user where
  "example_registration = \<lparr>iu_username = ''alice'', iu_password = ''secret'',
     iu_email = ''alice@example.org'', iu_displayName = Some ''Alice'', iu_bio = None,
     iu_location = None, iu_website = None\<rparr>"

definition example_titled :: "string \<Rightarrow> insert_snippet" where
  "example_titled t = \<lparr>is_title = t, is_description = None, is_html = Some ''<i>x</i>'',
     is_css = None, is_javascript = None, is_isPublic = Some True\<rparr>"

definition example_retitle :: snippet_updates where
  "example_retitle = \<lparr>su_id = None, su_title = Some ''A2'', su_description = None,
     su_html = None, su_css = None, su_javascript = None, su_isPublic = None,
     su_authorId = None, su_views = None, su_likes = None, su_createdAt = None,
     su_updatedAt = None\<rparr>"

definition example_edit_ops :: "storage_op list" where
  "example_edit_ops =
     [CreateUser example_registration ''u1'' ''hash'' 500,
      CreateSnippet (example_titled ''A'') ''u1'' ''a'' 1000,
      CreateSnippet (example_titled ''B'') ''u1'' ''b'' 2000,
      UpdateSnippet ''a'' example_retitle 3000]"

definition example_edited :: snippet where
  "example_edited = \<lparr>s_id = ''a'', title = ''A2'', description = None, html = ''<i>x</i>'',
     css = [], javascript = [], isPublic = True, authorId = ''u1'', views = 0, likes = 0,
     s_createdAt = 1000, updatedAt = 3000\<rparr>"

definition example_second :: snippet where
  "example_second = \<lparr>s_id = ''b'', title = ''B'', description = None, html = ''<i>x</i>'',
     css = [], javascript = [], isPublic = True, authorId = ''u1'', views = 0, likes = 0,
     s_createdAt = 2000, updatedAt = 2000\<rparr>"

definition example_author :: author_info where
  "example_author = \<lparr>a_id = ''u1'', a_username = ''alice'', a_displayName = Some ''Alice'',
     a_avatarUrl = None, a_profilePicture = None\<rparr>"

text \<open>Thirty days after the example snippet was created.\<close>

definition example_later :: int where
  "example_later = 1000 + 30 * 24 * 60 * 60 * 1000"

text \<open>
  The calls that produce \<open>example_db_private\<close> from the empty database. Then the
  administrator deletes the first user, whose session is still open and posts another
  private snippet: \<open>example_db_orphan\<close> holds a snippet whose author has no user row.
\<close>

definition example_secret :: insert_snippet where
  "example_secret = \<lparr>is_title = ''Secret'', is_description = None, is_html = Some ''<p>hi</p>'',
     is_css = None, is_javascript = None, is_isPublic = Some False\<rparr>"

definition example_private_ops :: "storage_op list" where
  "example_private_ops =
     [CreateUser (example_signup ''alice'') ''u1'' ''hash'' 500,
      CreateUser (example_signup ''bob'') ''u2'' ''hash'' 500,
      CreateAdminUser (example_signup ''carol'') Admin ''u3'' ''hash'' 500,
      CreateSnippet example_secret ''u1'' ''s2'' 1000]"

definition example_orphan_ops :: "storage_op list" where
  "example_orphan_ops =
     example_private_ops
     @ [DeleteUserAndSnippets ''u1'', CreateSnippet example_secret ''u1'' ''s3'' 6000]"

definition example_orphan_snippet :: snippet where
  "example_orphan_snippet =
     example_private_snippet\<lparr>s_id := ''s3'', s_createdAt := 6000, updatedAt := 6000\<rparr>"

definition example_db_orphan :: database where
  "example_db_orphan = DatabaseStorage_new\<lparr>
     t_users := [example_user ''u2'' ''bob'' Default, example_user ''u3'' ''carol'' Admin],
     t_snippets := [example_orphan_snippet]\<rparr>"

text \<open>
  The calls that produce \<open>example_mem\<close> and \<open>example_db\<close> from the empty storage,
  and calls made between two likes of the example snippet by the second user, none of
  which removes the like.
\<close>

definition example_start_ops :: "storage_op list" where
  "example_start_ops =
     [CreateUser (example_signup ''alice'') ''u1'' ''hash'' 500,
      CreateUser (example_signup ''bob'') ''u2'' ''hash'' 500,
      CreateSnippet (example_hello ''Hello'') ''u1'' ''s1'' 1000]"

definition example_between_ops :: "storage_op list" where
  "example_between_ops =
     [IncrementViews ''s1'' (Some ''u2'') (Some ''10.0.0.7'') ''v1'' 2000,
      LikeSnippet ''s1'' ''u1'' ''l5'' 2200,
      UnlikeSnippet ''s1'' ''u1'',
      DeleteUserAndSnippets ''u3'']"

text \<open>
  States in which a public snippet of the second user does not reach a follower: the
  follower \<open>u7\<close> has no user record; the author \<open>u2\<close> has none; the identifier
  drawn for the notification is already in use.
\<close>

definition example_followed_ops :: "storage_op list" where
  "example_followed_ops = example_start_ops @ [FollowUser ''u1'' ''u2'' ''f1'' 100]"

definition example_ghost_follower_ops :: "storage_op list" where
  "example_ghost_follower_ops = example_followed_ops @ [FollowUser ''u7'' ''u2'' ''f7'' 120]"

definition example_ghost_author_ops :: "storage_op list" where
  "example_ghost_author_ops =
     [CreateUser (example_signup ''alice'') ''u1'' ''hash'' 500,
      FollowUser ''u1'' ''u2'' ''f1'' 100]"

definition example_collision_ops :: "storage_op list" where
  "example_collision_ops =
     example_followed_ops
     @ [CreateNotification
          \<lparr>in_userId = ''u2'', in_type = ''follow'', in_title = ''New Follower'',
           in_message = ''alice started following you'', in_snippetId = None,
           in_fromUserId = Some ''u1''\<rparr>
          ''n'' 900]"

section \<open>Verified properties\<close>

subsection \<open>Facts about the map and row helpers\<close>

lemma Map_set_mem: "(k, v) \<in> set (Map_set k v m)"
  by (induction m) auto

lemma Map_set_value_mem: "v \<in> set (Map_values (Map_set k v m))"
  unfolding Map_values_def using Map_set_mem [of k v m] by force

lemma map_of_Map_set: "map_of (Map_set k v m) k' = (if k' = k then Some v else map_of m k')"
  by (induction m) auto

lemma update_none_matching:
  "\<forall>x \<in> set xs. \<not> P x \<Longrightarrow> map (\<lambda>x. if P x then f x else x) xs = xs"
  by (induction xs) auto

lemma first_row_None: "first_row xs = None \<longleftrightarrow> xs = []"
  by (cases xs) (auto simp: first_row_def)

lemma or_string_nonempty: "d \<noteq> [] \<Longrightarrow> or_string x d \<noteq> []"
  by (auto simp: or_string_def split: option.splits)

subsection \<open>Primary keys\<close>

lemma map_key_update:
  "(\<And>x. k (f x) = k x) \<Longrightarrow> map (k \<circ> (\<lambda>x. if P x then f x else x)) xs = map k xs"
  by (induction xs) auto

lemma db_keys_ok_createAdminUser:
  "db_keys_ok db \<Longrightarrow> db_keys_ok (state_after db (DatabaseStorage_createAdminUser iu r i h t db))"
  by (auto simp: db_keys_ok_def state_after_def DatabaseStorage_createAdminUser_def Let_def)

lemma db_keys_ok_updateUser:
  assumes "db_keys_ok db"
  shows "db_keys_ok (state_after db (DatabaseStorage_updateUser i up db))"
proof (cases "filter (\<lambda>u. u_id u = i) (t_users db) = []")
  case True
  then have "\<forall>u \<in> set (t_users db). \<not> u_id u = i"
    by (simp add: filter_empty_conv)
  then have "map (\<lambda>u. if u_id u = i then merge_user u up else u) (t_users db) = t_users db"
    by (rule update_none_matching)
  with assms True show ?thesis
    by (simp add: DatabaseStorage_updateUser_def state_after_def Let_def db_keys_ok_def)
next
  case False
  with assms show ?thesis
    by (simp add: DatabaseStorage_updateUser_def state_after_def Let_def db_keys_ok_def
        users_unique_def)
qed

lemma db_keys_ok_createSnippet:
  "db_keys_ok db \<Longrightarrow> db_keys_ok (state_after db (DatabaseStorage_createSnippet d a i t db))"
  by (auto simp: db_keys_ok_def state_after_def DatabaseStorage_createSnippet_def Let_def)

lemma db_keys_ok_updateSnippet:
  assumes "db_keys_ok db"
  shows "db_keys_ok (state_after db (DatabaseStorage_updateSnippet i up t db))"
proof (cases "filter (\<lambda>s. s_id s = i) (t_snippets db) = []")
  case True
  then have "\<forall>s \<in> set (t_snippets db). \<not> s_id s = i"
    by (simp add: filter_empty_conv)
  then have "map (\<lambda>s. if s_id s = i then merge_snippet s up t else s) (t_snippets db)
               = t_snippets db"
    by (rule update_none_matching)
  with assms True show ?thesis
    by (simp add: DatabaseStorage_updateSnippet_def state_after_def Let_def db_keys_ok_def)
next
  case False
  with assms show ?thesis
    by (simp add: DatabaseStorage_updateSnippet_def state_after_def Let_def db_keys_ok_def)
qed

lemma db_keys_ok_incrementViews:
  "db_keys_ok db \<Longrightarrow>
     db_keys_ok (case DatabaseStorage_incrementViews s u ip i t db of
                   Inl e \<Rightarrow> db | Inr db' \<Rightarrow> db')"
  by (simp add: db_keys_ok_def DatabaseStorage_incrementViews_def Let_def map_key_update)

lemma db_keys_ok_likeSnippet:
  "db_keys_ok db \<Longrightarrow> db_keys_ok (state_after db (DatabaseStorage_likeSnippet s u i t db))"
  by (simp add: db_keys_ok_def state_after_def DatabaseStorage_likeSnippet_def Let_def
      map_key_update split: option.splits)

lemma db_keys_ok_unlikeSnippet:
  "db_keys_ok db \<Longrightarrow> db_keys_ok (snd (DatabaseStorage_unlikeSnippet s u db))"
  by (simp add: db_keys_ok_def DatabaseStorage_unlikeSnippet_def Let_def
      map_key_update split: option.splits)

lemma db_keys_ok_deleteUser:
  "db_keys_ok db \<Longrightarrow> db_keys_ok (snd (DatabaseStorage_deleteUserAndSnippets u db))"
  by (simp add: db_keys_ok_def DatabaseStorage_deleteUserAndSnippets_def Let_def
      distinct_map_filter)

lemma DatabaseStorage_step_keys_ok:
  assumes "db_keys_ok db"
  shows "db_keys_ok (DatabaseStorage_step op db)"
proof (cases op)
  case (CreateUser iu i h t)
  with assms show ?thesis
    by (simp add: DatabaseStorage_createUser_def db_keys_ok_createAdminUser)
next
  case (CreateAdminUser iu r i h t)
  with assms show ?thesis by (simp add: db_keys_ok_createAdminUser)
next
  case (UpdateUser i up)
  with assms show ?thesis by (simp add: db_keys_ok_updateUser)
next
  case (CreateSnippet d a i t)
  with assms show ?thesis by (simp add: db_keys_ok_createSnippet)
next
  case (UpdateSnippet i up t)
  with assms show ?thesis by (simp add: db_keys_ok_updateSnippet)
next
  case (DeleteSnippet i)
  with assms show ?thesis
    by (simp add: db_keys_ok_def DatabaseStorage_deleteSnippet_def distinct_map_filter)
next
  case (IncrementViews s u ip i t)
  with assms show ?thesis by (simp add: db_keys_ok_incrementViews)
next
  case (LikeSnippet s u i t)
  with assms show ?thesis by (simp add: db_keys_ok_likeSnippet)
next
  case (UnlikeSnippet s u)
  with assms show ?thesis by (simp add: db_keys_ok_unlikeSnippet)
next
  case (FollowUser f g i t)
  with assms show ?thesis
    by (simp add: db_keys_ok_def state_after_def DatabaseStorage_followUser_def
        split: option.splits)
next
  case (UnfollowUser f g)
  with assms show ?thesis by (simp add: db_keys_ok_def DatabaseStorage_unfollowUser_def)
next
  case (CreateNotification n i t)
  with assms show ?thesis
    by (simp add: db_keys_ok_def state_after_def DatabaseStorage_createNotification_def Let_def)
next
  case (MarkNotificationRead i u)
  with assms show ?thesis
    by (simp add: db_keys_ok_def DatabaseStorage_markNotificationRead_def Let_def)
next
  case (MarkAllNotificationsRead u)
  with assms show ?thesis
    by (simp add: db_keys_ok_def DatabaseStorage_markAllNotificationsRead_def)
next
  case (DeleteUserAndSnippets u)
  with assms show ?thesis by (simp add: db_keys_ok_deleteUser)
qed

lemma DatabaseStorage_run_keys_ok:
  "db_keys_ok db \<Longrightarrow> db_keys_ok (DatabaseStorage_run ops db)"
  unfolding DatabaseStorage_run_def
  by (induction ops arbitrary: db) (simp_all add: DatabaseStorage_step_keys_ok)

text \<open>
  In every database that calls of the storage methods produce from the empty one, no
  two users and no two snippets have the same \<open>id\<close>.
\<close>

lemma db_keys_ok_reachable: "db_keys_ok (DatabaseStorage_run ops DatabaseStorage_new)"
  by (rule DatabaseStorage_run_keys_ok) (simp add: db_keys_ok_def DatabaseStorage_new_def)

lemma filter_key_single:
  assumes "distinct (map k xs)" and "x \<in> set xs"
  shows "filter (\<lambda>y. k y = k x) xs = [x]"
  using assms
proof (induction xs)
  case Nil
  then show ?case by simp
next
  case (Cons a xs)
  show ?case
  proof (cases "a = x")
    case True
    from Cons.prems have "\<forall>y \<in> set xs. k y \<noteq> k a" by (auto simp: image_iff)
    then have "filter (\<lambda>y. k y = k a) xs = []" by (simp add: filter_empty_conv)
    with True show ?thesis by simp
  next
    case False
    with Cons.prems have mem: "x \<in> set xs" and "k a \<noteq> k x" by (auto simp: image_iff)
    with Cons show ?thesis by simp
  qed
qed

lemma join_filter_snippet:
  "filter (\<lambda>(s, u). P s) (concat (map (\<lambda>s. map (Pair s) (f s)) ss))
     = concat (map (\<lambda>s. map (Pair s) (f s)) (filter P ss))"
  by (induction ss) (auto simp: filter_empty_conv)

text \<open>
  The inner join with \<open>users\<close>: a snippet is returned with its author, and not at all
  when no user row has its \<open>authorId\<close>.
\<close>

lemma getSnippetWithAuthor_of_row:
  assumes "db_keys_ok db" and "sn \<in> set (t_snippets db)"
  shows "DatabaseStorage_getSnippetWithAuthor (s_id sn) db
           = (case DatabaseStorage_getUser (authorId sn) db of
                None \<Rightarrow> None
              | Some a \<Rightarrow> Some (with_author sn (db_author a)))"
proof -
  from assms have one: "filter (\<lambda>s. s_id s = s_id sn) (t_snippets db) = [sn]"
    by (simp add: db_keys_ok_def filter_key_single)
  have users: "filter (\<lambda>u. authorId sn = u_id u) (t_users db)
                 = filter (\<lambda>u. u_id u = authorId sn) (t_users db)"
    by (rule filter_cong) auto
  have "filter (\<lambda>(s, u). s_id s = s_id sn) (snippets_join_users db)
          = map (Pair sn) (filter (\<lambda>u. u_id u = authorId sn) (t_users db))"
    unfolding snippets_join_users_def join_filter_snippet one by (simp add: users)
  then show ?thesis
    by (cases "filter (\<lambda>u. u_id u = authorId sn) (t_users db)")
       (simp_all add: DatabaseStorage_getSnippetWithAuthor_def DatabaseStorage_getUser_def
          select_with_author_def first_row_def)
qed

subsection \<open>Viewing a snippet twice\<close>

lemma MemStorage_viewed_noop:
  assumes "\<exists>view \<in> set (Map_values (m_snippetViews st)). v_snippetId view = s \<and>
             (if truthy uid then strict_eq (v_userId view) uid else strict_eq (v_ipAddress view) ip)"
  shows "MemStorage_incrementViews s uid ip i t st = st"
  using assms by (auto simp: MemStorage_incrementViews_def find_None_iff split: option.splits)

lemma MemStorage_view_recorded:
  assumes "truthy uid \<or> truthy ip"
  shows "\<exists>view \<in> set (Map_values (m_snippetViews (MemStorage_incrementViews s uid ip i t st))).
           v_snippetId view = s \<and>
           (if truthy uid then strict_eq (v_userId view) uid else strict_eq (v_ipAddress view) ip)"
proof (cases "find (\<lambda>view. v_snippetId view = s \<and>
                   (if truthy uid then strict_eq (v_userId view) uid
                    else strict_eq (v_ipAddress view) ip))
             (Map_values (m_snippetViews st))")
  case (Some v)
  then have same: "MemStorage_incrementViews s uid ip i t st = st"
    by (simp add: MemStorage_incrementViews_def)
  from Some have "v \<in> set (Map_values (m_snippetViews st)) \<and> v_snippetId v = s \<and>
      (if truthy uid then strict_eq (v_userId v) uid else strict_eq (v_ipAddress v) ip)"
    unfolding find_Some_iff by (metis nth_mem)
  with same show ?thesis by auto
next
  case None
  let ?view = "\<lparr>v_id = i, v_snippetId = s, v_userId = or_null uid,
                      v_ipAddress = or_null ip, v_createdAt = t\<rparr>"
  have ok: "v_snippetId ?view = s \<and>
           (if truthy uid then strict_eq (v_userId ?view) uid else strict_eq (v_ipAddress ?view) ip)"
    using assms by (cases uid; cases ip) (auto simp: strict_eq_def or_null_def)
  have "?view \<in> set (Map_values (m_snippetViews (MemStorage_incrementViews s uid ip i t st)))"
    using None Map_set_value_mem [of ?view i "m_snippetViews st"]
    by (auto simp: MemStorage_incrementViews_def Let_def split: option.splits)
  with ok show ?thesis by blast
qed

lemma MemStorage_views_bound:
  assumes "Map_get (m_snippets st) s' = Some sn"
  shows "\<exists>sn'. Map_get (m_snippets (MemStorage_incrementViews s uid ip i t st)) s' = Some sn'
           \<and> views sn' \<le> views sn + 1 \<and> views sn \<le> views sn'"
  using assms
  by (auto simp: MemStorage_incrementViews_def Let_def Map_get_def map_of_Map_set
      split: option.splits)

lemma DatabaseStorage_viewed_noop:
  "db_existing_view s uid ip db \<Longrightarrow> DatabaseStorage_incrementViews s uid ip i t db = Inr db"
  by (simp add: DatabaseStorage_incrementViews_def)

lemma DatabaseStorage_view_recorded:
  assumes "truthy uid \<or> truthy ip" "DatabaseStorage_incrementViews s uid ip i t db = Inr db1"
  shows "db_existing_view s uid ip db1"
proof (cases "db_existing_view s uid ip db")
  case True
  with assms(2) show ?thesis by (simp add: DatabaseStorage_incrementViews_def)
next
  case False
  with assms show ?thesis
    by (cases uid; cases ip)
       (auto simp: DatabaseStorage_incrementViews_def db_existing_view_def Let_def or_null_def
          split: if_splits)
qed

lemma GET_twice_same_database:
  assumes "GET_api_snippets_id session_userId ident req_ip remoteAddress viewId now db = (resp, db1)"
    and "status resp = 200"
  shows "snd (GET_api_snippets_id session_userId ident req_ip remoteAddress viewId' now' db1) = db1"
proof -
  let ?ip = "Some (or_string req_ip (or_string remoteAddress ''unknown''))"
  have ip: "truthy ?ip" by (simp add: or_string_nonempty)
  from assms have "DatabaseStorage_incrementViews ident session_userId ?ip viewId now db = Inr db1"
    by (auto simp: GET_api_snippets_id_def Let_def split: option.splits if_splits sum.splits)
  with ip have "db_existing_view ident session_userId ?ip db1"
    using DatabaseStorage_view_recorded by blast
  then have "DatabaseStorage_incrementViews ident session_userId ?ip viewId' now' db1 = Inr db1"
    by (rule DatabaseStorage_viewed_noop)
  then show ?thesis
    by (auto simp: GET_api_snippets_id_def Let_def split: option.splits)
qed

text \<open>
  Claim C4. A viewer identity is a user id, or an IP address when no user id is supplied;
  in the code "supplied" is JavaScript truthiness (\<open>truthy\<close>: present and not the empty
  string). For every snippet id and every such identity, a second \<open>incrementViews\<close>
  with the same identity returns the storage exactly as the first call left it, in
  \<open>MemStorage\<close> and (when the first call returned) in \<open>DatabaseStorage\<close>; one call raises
  the views counter of the snippet by at most one, so two calls count at most one view.
  The same holds for two \<open>GET /api/snippets/:id\<close> requests of one session and address.
\<close>

theorem incrementViews_twice_counts_once:
  "(truthy uid \<or> truthy ip \<longrightarrow>
      MemStorage_incrementViews s uid ip i' t' (MemStorage_incrementViews s uid ip i t st)
        = MemStorage_incrementViews s uid ip i t st)
   \<and> (Map_get (m_snippets st) s = Some sn \<longrightarrow>
        (\<exists>sn'. Map_get (m_snippets (MemStorage_incrementViews s uid ip i t st)) s = Some sn'
               \<and> views sn' \<le> views sn + 1))
   \<and> (truthy uid \<or> truthy ip \<longrightarrow>
        DatabaseStorage_incrementViews s uid ip i t db = Inr db1 \<longrightarrow>
        DatabaseStorage_incrementViews s uid ip i' t' db1 = Inr db1)
   \<and> (GET_api_snippets_id session_userId s req_ip remoteAddress i t db = (resp, db1)
        \<and> status resp = 200 \<longrightarrow>
        snd (GET_api_snippets_id session_userId s req_ip remoteAddress i' t' db1) = db1)"
proof (intro conjI impI)
  assume "truthy uid \<or> truthy ip"
  from MemStorage_view_recorded [OF this]
  show "MemStorage_incrementViews s uid ip i' t' (MemStorage_incrementViews s uid ip i t st)
        = MemStorage_incrementViews s uid ip i t st"
    by (rule MemStorage_viewed_noop)
next
  assume "Map_get (m_snippets st) s = Some sn"
  from MemStorage_views_bound [OF this]
  show "\<exists>sn'. Map_get (m_snippets (MemStorage_incrementViews s uid ip i t st)) s = Some sn'
               \<and> views sn' \<le> views sn + 1"
    by blast
next
  assume "truthy uid \<or> truthy ip" "DatabaseStorage_incrementViews s uid ip i t db = Inr db1"
  then have "db_existing_view s uid ip db1" by (rule DatabaseStorage_view_recorded)
  then show "DatabaseStorage_incrementViews s uid ip i' t' db1 = Inr db1"
    by (rule DatabaseStorage_viewed_noop)
next
  assume "GET_api_snippets_id session_userId s req_ip remoteAddress i t db = (resp, db1)
        \<and> status resp = 200"
  then show "snd (GET_api_snippets_id session_userId s req_ip remoteAddress i' t' db1) = db1"
    using GET_twice_same_database by blast
qed

lemma example_mem_view:
  "MemStorage_incrementViews ''s1'' (Some ''u2'') (Some ''10.0.0.7'') ''v1'' 2000 example_mem
     = example_mem_viewed"
  by (simp add: MemStorage_incrementViews_def example_mem_def example_mem_viewed_def
      MemStorage_new_def Map_values_def Map_get_def example_snippet_def example_view_def
      or_null_def)

lemma example_db_view:
  "DatabaseStorage_incrementViews ''s1'' (Some ''u2'') (Some ''10.0.0.7'') ''v1'' 2000 example_db
     = Inr example_db_viewed"
  by (simp add: DatabaseStorage_incrementViews_def example_db_def example_db_viewed_def
      DatabaseStorage_new_def db_existing_view_def example_snippet_def example_view_def
      or_null_def)

lemma example_db_snippet_found:
  "DatabaseStorage_getSnippetWithAuthor ''s1'' example_db
     = Some (with_author example_snippet (db_author (example_user ''u1'' ''alice'' Default)))"
  by (simp add: DatabaseStorage_getSnippetWithAuthor_def example_db_def
      DatabaseStorage_new_def snippets_join_users_def select_with_author_def first_row_def
      example_snippet_def example_user_def)

lemma example_GET:
  "GET_api_snippets_id (Some ''u2'') ''s1'' (Some ''10.0.0.7'') None ''v1'' 2000 example_db
     = (\<lparr>status = 200, body = SnippetWithAuthorJson
           ((with_author example_snippet (db_author (example_user ''u1'' ''alice'' Default)))
              \<lparr>isLiked := Some False\<rparr>)\<rparr>, example_db_viewed)"
proof -
  have pub: "isPublic (with_author example_snippet a)" for a
    by (simp add: with_author_def example_snippet_def snippet.extend_def)
  have nl: "\<not> DatabaseStorage_isSnippetLiked ''s1'' ''u2'' example_db_viewed"
    by (simp add: DatabaseStorage_isSnippetLiked_def example_db_viewed_def example_db_def
        DatabaseStorage_new_def first_row_def)
  show ?thesis
    by (simp add: GET_api_snippets_id_def example_db_snippet_found pub or_string_def
        example_db_view nl)
qed

theorem incrementViews_twice_counts_once_witness:
  "truthy (Some ''u2'')
   \<and> MemStorage_incrementViews ''s1'' (Some ''u2'') (Some ''10.0.0.7'') ''v1'' 2000 example_mem
       = example_mem_viewed
   \<and> MemStorage_incrementViews ''s1'' (Some ''u2'') (Some ''10.0.0.7'') ''v2'' 3000 example_mem_viewed
       = example_mem_viewed
   \<and> Map_get (m_snippets example_mem) ''s1'' = Some example_snippet
   \<and> DatabaseStorage_incrementViews ''s1'' (Some ''u2'') (Some ''10.0.0.7'') ''v1'' 2000 example_db
       = Inr example_db_viewed
   \<and> DatabaseStorage_incrementViews ''s1'' (Some ''u2'') (Some ''10.0.0.7'') ''v2'' 3000
         example_db_viewed = Inr example_db_viewed
   \<and> snd (GET_api_snippets_id (Some ''u2'') ''s1'' (Some ''10.0.0.7'') None ''v2'' 3000
            example_db_viewed) = example_db_viewed"
proof -
  have g: "Map_get (m_snippets example_mem) ''s1'' = Some example_snippet"
    by (simp add: Map_get_def example_mem_def MemStorage_new_def)
  from incrementViews_twice_counts_once
         [of "Some ''u2''" "Some ''10.0.0.7''" "''s1''" "''v2''" 3000 "''v1''" 2000 example_mem
             example_snippet example_db example_db_viewed "Some ''u2''" "Some ''10.0.0.7''" None
             "\<lparr>status = 200, body = SnippetWithAuthorJson
                ((with_author example_snippet (db_author (example_user ''u1'' ''alice'' Default)))
                   \<lparr>isLiked := Some False\<rparr>)\<rparr>"]
       g example_mem_view example_db_view example_GET
  show ?thesis by simp
qed

subsection \<open>Liking a snippet that does not exist\<close>

text \<open>
  Claim C9. When \<open>snippetId\<close> identifies no snippet and \<open>u\<close> has no like record for it,
  \<open>likeSnippet(snippetId, u)\<close> returns \<open>true\<close> and stores a like record that refers to
  the missing snippet, in \<open>MemStorage\<close> and (given an unused identifier for the record)
  in \<open>DatabaseStorage\<close>; \<open>POST /api/snippets/:id/like\<close> therefore answers 200 with
  "Snippet liked successfully" and not its 400 branch.
\<close>

theorem likeSnippet_of_missing_snippet_succeeds:
  "(Map_get (m_snippets st) sid = None \<and> \<not> MemStorage_isSnippetLiked sid u st \<longrightarrow>
      MemStorage_likeSnippet sid u i t st
        = (True, st\<lparr>m_snippetLikes :=
                     Map_set i \<lparr>l_id = i, l_snippetId = sid, l_userId = u, l_createdAt = t\<rparr>
                       (m_snippetLikes st)\<rparr>))
   \<and> (DatabaseStorage_getSnippet sid db = None \<and> \<not> DatabaseStorage_isSnippetLiked sid u db
        \<and> i \<notin> set (map l_id (t_snippetLikes db)) \<longrightarrow>
        DatabaseStorage_likeSnippet sid u i t db
          = Inr (True, db\<lparr>t_snippetLikes := t_snippetLikes db @
                   [\<lparr>l_id = i, l_snippetId = sid, l_userId = u, l_createdAt = t\<rparr>]\<rparr>))
   \<and> (DatabaseStorage_getSnippet sid db = None \<and> \<not> DatabaseStorage_isSnippetLiked sid u db
        \<and> i \<notin> set (map l_id (t_snippetLikes db)) \<and> u \<noteq> [] \<longrightarrow>
        POST_api_snippets_id_like (Some u) sid i t db
          = (\<lparr>status = 200, body = Message ''Snippet liked successfully''\<rparr>,
             db\<lparr>t_snippetLikes := t_snippetLikes db @
                   [\<lparr>l_id = i, l_snippetId = sid, l_userId = u, l_createdAt = t\<rparr>]\<rparr>))"
proof -
  have mem: "MemStorage_likeSnippet sid u i t st
        = (True, st\<lparr>m_snippetLikes :=
                     Map_set i \<lparr>l_id = i, l_snippetId = sid, l_userId = u, l_createdAt = t\<rparr>
                       (m_snippetLikes st)\<rparr>)"
    if "Map_get (m_snippets st) sid = None" "\<not> MemStorage_isSnippetLiked sid u st"
    using that
    by (auto simp: MemStorage_likeSnippet_def MemStorage_isSnippetLiked_def list_ex_iff
        find_Some_iff Let_def split: option.splits)
  have dbl: "DatabaseStorage_likeSnippet sid u i t db
          = Inr (True, db\<lparr>t_snippetLikes := t_snippetLikes db @
                   [\<lparr>l_id = i, l_snippetId = sid, l_userId = u, l_createdAt = t\<rparr>]\<rparr>)"
    if a: "DatabaseStorage_getSnippet sid db = None" "\<not> DatabaseStorage_isSnippetLiked sid u db"
      "i \<notin> set (map l_id (t_snippetLikes db))"
  proof -
    from a(1) have "\<forall>s \<in> set (t_snippets db). \<not> s_id s = sid"
      by (auto simp: DatabaseStorage_getSnippet_def first_row_None filter_empty_conv)
    then have same: "map (\<lambda>s. if s_id s = sid then s\<lparr>likes := likes s + 1\<rparr> else s) (t_snippets db)
        = t_snippets db"
      by (rule update_none_matching)
    from a(2,3) show ?thesis
      by (simp add: DatabaseStorage_likeSnippet_def DatabaseStorage_isSnippetLiked_def Let_def same)
  qed
  show ?thesis
    using mem dbl by (auto simp: POST_api_snippets_id_like_def requireAuth_def)
qed

lemma example_like_missing:
  "DatabaseStorage_getSnippet ''nope'' example_db = None
   \<and> \<not> DatabaseStorage_isSnippetLiked ''nope'' ''u2'' example_db
   \<and> ''l1'' \<notin> set (map l_id (t_snippetLikes example_db))
   \<and> Map_get (m_snippets example_mem) ''nope'' = None
   \<and> \<not> MemStorage_isSnippetLiked ''nope'' ''u2'' example_mem"
  by (simp add: DatabaseStorage_getSnippet_def DatabaseStorage_isSnippetLiked_def example_db_def
      DatabaseStorage_new_def first_row_def example_snippet_def example_mem_def MemStorage_new_def
      Map_get_def MemStorage_isSnippetLiked_def Map_values_def)

theorem likeSnippet_of_missing_snippet_succeeds_witness:
  "Map_get (m_snippets example_mem) ''nope'' = None
   \<and> DatabaseStorage_getSnippet ''nope'' example_db = None
   \<and> MemStorage_likeSnippet ''nope'' ''u2'' ''l1'' 2000 example_mem
       = (True, example_mem\<lparr>m_snippetLikes :=
            [(''l1'', \<lparr>l_id = ''l1'', l_snippetId = ''nope'', l_userId = ''u2'',
                       l_createdAt = 2000\<rparr>)]\<rparr>)
   \<and> DatabaseStorage_likeSnippet ''nope'' ''u2'' ''l1'' 2000 example_db
       = Inr (True, example_db\<lparr>t_snippetLikes :=
            [\<lparr>l_id = ''l1'', l_snippetId = ''nope'', l_userId = ''u2'', l_createdAt = 2000\<rparr>]\<rparr>)
   \<and> POST_api_snippets_id_like (Some ''u2'') ''nope'' ''l1'' 2000 example_db
       = (\<lparr>status = 200, body = Message ''Snippet liked successfully''\<rparr>,
          example_db\<lparr>t_snippetLikes :=
            [\<lparr>l_id = ''l1'', l_snippetId = ''nope'', l_userId = ''u2'', l_createdAt = 2000\<rparr>]\<rparr>)"
proof -
  have e: "m_snippetLikes example_mem = [] \<and> t_snippetLikes example_db = []"
    by (simp add: example_mem_def example_db_def MemStorage_new_def DatabaseStorage_new_def)
  from likeSnippet_of_missing_snippet_succeeds
         [of example_mem "''nope''" "''u2''" "''l1''" 2000 example_db]
       example_like_missing e
  show ?thesis by simp
qed

subsection \<open>Follow records\<close>

lemma forEach_delete_filter:
  "forEach_delete key xs m = filter (\<lambda>p. fst p \<notin> key ` set xs) m"
  unfolding forEach_delete_def
  by (induction xs arbitrary: m) (auto simp: Map_delete_def intro: filter_cong)

lemma follows_ok_values_filter:
  "follows_ok (Map_values m) \<Longrightarrow> follows_ok (Map_values (filter P m))"
  by (auto simp: follows_ok_def Map_values_def distinct_map_filter)

lemma follows_ok_filter: "follows_ok fs \<Longrightarrow> follows_ok (filter P fs)"
  by (auto simp: follows_ok_def distinct_map_filter)

lemma Map_set_subset: "set (Map_set k v m) \<subseteq> insert (k, v) (set m)"
  by (induction m) auto

lemma follows_ok_Map_set:
  assumes "follows_ok (Map_values m)" "followerId v \<noteq> followingId v"
    and "\<forall>f \<in> set (Map_values m). \<not> (followerId f = followerId v \<and> followingId f = followingId v)"
  shows "follows_ok (Map_values (Map_set k v m))"
  using assms
proof (induction m)
  case Nil
  then show ?case by (simp add: follows_ok_def Map_values_def)
next
  case (Cons p ps)
  have sub: "snd ` set (Map_set k v ps) \<subseteq> insert v (snd ` set ps)"
    using Map_set_subset [of k v ps] by force
  from Cons.prems have ok: "follows_ok (Map_values ps)"
    by (simp add: follows_ok_def Map_values_def)
  from Cons.prems have fresh: "\<forall>f \<in> set (Map_values ps).
      \<not> (followerId f = followerId v \<and> followingId f = followingId v)"
    by (simp add: Map_values_def)
  note IH = Cons.IH [OF ok Cons.prems(2) fresh]
  show ?case
  proof (cases "fst p = k")
    case True
    with Cons.prems show ?thesis
      by (auto simp: follows_ok_def Map_values_def)
  next
    case False
    let ?pair = "\<lambda>f. (followerId f, followingId f)"
    have "?pair (snd p) \<noteq> ?pair x" if "x \<in> snd ` set (Map_set k v ps)" for x
    proof (cases "x = v")
      case True
      with Cons.prems(3) show ?thesis by (auto simp: Map_values_def)
    next
      case False
      with that sub have "x \<in> snd ` set ps" by blast
      with Cons.prems(1) show ?thesis
        by (auto simp: follows_ok_def Map_values_def)
    qed
    then have "?pair (snd p) \<notin> ?pair ` snd ` set (Map_set k v ps)" by blast
    with Cons.prems(1) IH \<open>fst p \<noteq> k\<close> show ?thesis
      by (simp add: follows_ok_def Map_values_def image_image)
  qed
qed

lemma MemStorage_followUser_follows_ok:
  assumes "follows_ok (Map_values (m_follows st))"
  shows "follows_ok (Map_values (m_follows (snd (MemStorage_followUser f g i t st))))"
proof (cases "f = g")
  case True
  with assms show ?thesis by (simp add: MemStorage_followUser_def)
next
  case False
  show ?thesis
  proof (cases "find (\<lambda>follow. followerId follow = f \<and> followingId follow = g)
                  (Map_values (m_follows st))")
    case (Some x)
    with assms False show ?thesis by (simp add: MemStorage_followUser_def)
  next
    case None
    then have "\<forall>x \<in> set (Map_values (m_follows st)). \<not> (followerId x = f \<and> followingId x = g)"
      by (simp add: find_None_iff)
    with assms False None show ?thesis
      by (simp add: MemStorage_followUser_def follows_ok_Map_set)
  qed
qed

lemma MemStorage_unfollowUser_follows_ok:
  assumes "follows_ok (Map_values (m_follows st))"
  shows "follows_ok (Map_values (m_follows (snd (MemStorage_unfollowUser f g st))))"
  using assms
  by (auto simp: MemStorage_unfollowUser_def Map_delete_def follows_ok_values_filter
      split: option.splits)

lemma m_follows_markAll:
  "m_follows (MemStorage_markAllNotificationsRead u st) = m_follows st"
proof -
  have "m_follows (fold (\<lambda>notification st'.
             if n_userId notification = u \<and> \<not> isRead notification
             then st'\<lparr>m_notifications :=
                    Map_set (n_id notification) (notification\<lparr>isRead := True\<rparr>)
                      (m_notifications st')\<rparr>
             else st') ns st) = m_follows st" for ns
    by (induction ns arbitrary: st) auto
  then show ?thesis by (simp add: MemStorage_markAllNotificationsRead_def)
qed

lemma m_follows_cascade:
  "m_follows (fold mem_delete_snippet_cascade sns st) = m_follows st"
  by (induction sns arbitrary: st) (auto simp: mem_delete_snippet_cascade_def Let_def)

lemma MemStorage_deleteUser_follows_ok:
  assumes "follows_ok (Map_values (m_follows st))"
  shows "follows_ok (Map_values (m_follows (snd (MemStorage_deleteUserAndSnippets u st))))"
  using assms
  by (auto simp: MemStorage_deleteUserAndSnippets_def Let_def m_follows_cascade
      forEach_delete_filter follows_ok_values_filter split: option.splits)

lemma MemStorage_step_follows_ok:
  assumes "follows_ok (Map_values (m_follows st))"
  shows "follows_ok (Map_values (m_follows (MemStorage_step op st)))"
proof (cases op)
  case (FollowUser f g i t)
  with assms show ?thesis by (simp add: MemStorage_followUser_follows_ok)
next
  case (UnfollowUser f g)
  with assms show ?thesis by (simp add: MemStorage_unfollowUser_follows_ok)
next
  case (DeleteUserAndSnippets u)
  with assms show ?thesis by (simp add: MemStorage_deleteUser_follows_ok)
next
  case (MarkAllNotificationsRead u)
  with assms show ?thesis by (simp add: m_follows_markAll)
qed (use assms in \<open>auto simp: MemStorage_createUser_def MemStorage_createAdminUser_def
      MemStorage_updateUser_def MemStorage_createSnippet_def MemStorage_updateSnippet_def
      MemStorage_deleteSnippet_def MemStorage_incrementViews_def MemStorage_likeSnippet_def
      MemStorage_unlikeSnippet_def MemStorage_createNotification_def
      MemStorage_markNotificationRead_def Let_def split: option.splits\<close>)

lemma MemStorage_run_follows_ok:
  "follows_ok (Map_values (m_follows st)) \<Longrightarrow>
     follows_ok (Map_values (m_follows (MemStorage_run ops st)))"
  unfolding MemStorage_run_def
  by (induction ops arbitrary: st) (auto simp: MemStorage_step_follows_ok)

lemma DatabaseStorage_followUser_follows_ok:
  assumes "follows_ok (t_follows db)"
  shows "follows_ok (t_follows (state_after db (DatabaseStorage_followUser f g i t db)))"
  using assms
  by (auto simp: DatabaseStorage_followUser_def state_after_def follows_ok_def first_row_None
      filter_empty_conv split: option.splits)

lemma DatabaseStorage_step_follows_ok:
  assumes "follows_ok (t_follows db)"
  shows "follows_ok (t_follows (DatabaseStorage_step op db))"
proof (cases op)
  case (FollowUser f g i t)
  with assms show ?thesis by (simp add: DatabaseStorage_followUser_follows_ok)
next
  case (UnfollowUser f g)
  with assms show ?thesis by (simp add: DatabaseStorage_unfollowUser_def follows_ok_filter)
next
  case (DeleteUserAndSnippets u)
  with assms show ?thesis
    by (simp add: DatabaseStorage_deleteUserAndSnippets_def Let_def follows_ok_filter)
qed (use assms in \<open>auto simp: state_after_def DatabaseStorage_createUser_def
      DatabaseStorage_createAdminUser_def DatabaseStorage_updateUser_def
      DatabaseStorage_createSnippet_def DatabaseStorage_updateSnippet_def
      DatabaseStorage_deleteSnippet_def DatabaseStorage_incrementViews_def
      DatabaseStorage_likeSnippet_def DatabaseStorage_unlikeSnippet_def
      DatabaseStorage_createNotification_def DatabaseStorage_markNotificationRead_def
      DatabaseStorage_markAllNotificationsRead_def Let_def split: option.splits if_splits\<close>)

lemma DatabaseStorage_run_follows_ok:
  "follows_ok (t_follows db) \<Longrightarrow> follows_ok (t_follows (DatabaseStorage_run ops db))"
  unfolding DatabaseStorage_run_def
  by (induction ops arbitrary: db) (auto simp: DatabaseStorage_step_follows_ok)

text \<open>
  Claim C8. From the empty storage, after any sequence of storage calls, every follow
  record has \<open>followerId \<noteq> followingId\<close> and no pair \<open>(followerId, followingId)\<close>
  occurs in two records, in \<open>MemStorage\<close> and in \<open>DatabaseStorage\<close>. In every state
  \<open>followUser(f, f)\<close> returns \<open>false\<close> and leaves the state as it is, and the follow
  route refuses a user who names itself with status 400.
\<close>

theorem follow_records_invariant:
  "follows_ok (Map_values (m_follows (MemStorage_run ops MemStorage_new)))
   \<and> follows_ok (t_follows (DatabaseStorage_run ops DatabaseStorage_new))
   \<and> MemStorage_followUser f f i t st = (False, st)
   \<and> DatabaseStorage_followUser f f i t db = Inr (False, db)
   \<and> (f \<noteq> [] \<and> DatabaseStorage_getUserByUsername name db = Some target \<and> u_id target = f \<longrightarrow>
        POST_api_users_username_follow (Some f) name i t db
          = (\<lparr>status = 400, body = Message ''Cannot follow yourself''\<rparr>, db))"
proof -
  have "follows_ok (Map_values (m_follows MemStorage_new))"
    by (simp add: MemStorage_new_def follows_ok_def Map_values_def)
  then have mem: "follows_ok (Map_values (m_follows (MemStorage_run ops MemStorage_new)))"
    by (rule MemStorage_run_follows_ok)
  have "follows_ok (t_follows DatabaseStorage_new)"
    by (simp add: DatabaseStorage_new_def follows_ok_def)
  then have dbs: "follows_ok (t_follows (DatabaseStorage_run ops DatabaseStorage_new))"
    by (rule DatabaseStorage_run_follows_ok)
  show ?thesis
    using mem dbs
    by (simp add: MemStorage_followUser_def DatabaseStorage_followUser_def
        POST_api_users_username_follow_def requireAuth_def)
qed

lemma example_follow_runs:
  "m_follows (MemStorage_run example_follow_ops MemStorage_new) = [(''f1'', example_follow)]
   \<and> t_follows (DatabaseStorage_run example_follow_ops DatabaseStorage_new) = [example_follow]"
  by (simp add: MemStorage_run_def DatabaseStorage_run_def example_follow_ops_def
      MemStorage_followUser_def DatabaseStorage_followUser_def MemStorage_new_def
      DatabaseStorage_new_def state_after_def first_row_def Map_values_def example_follow_def)

lemma example_alice:
  "DatabaseStorage_getUserByUsername ''alice'' example_db = Some (example_user ''u1'' ''alice'' Default)
   \<and> u_id (example_user ''u1'' ''alice'' Default) = ''u1''"
  by (simp add: DatabaseStorage_getUserByUsername_def example_db_def DatabaseStorage_new_def
      first_row_def example_user_def)

theorem follow_records_invariant_witness:
  "Map_values (m_follows (MemStorage_run example_follow_ops MemStorage_new)) = [example_follow]
   \<and> t_follows (DatabaseStorage_run example_follow_ops DatabaseStorage_new) = [example_follow]
   \<and> follows_ok [example_follow]
   \<and> MemStorage_followUser ''u1'' ''u1'' ''f3'' 300 example_mem = (False, example_mem)
   \<and> DatabaseStorage_getUserByUsername ''alice'' example_db
       = Some (example_user ''u1'' ''alice'' Default)
   \<and> POST_api_users_username_follow (Some ''u1'') ''alice'' ''f3'' 300 example_db
       = (\<lparr>status = 400, body = Message ''Cannot follow yourself''\<rparr>, example_db)"
proof -
  from follow_records_invariant
         [of example_follow_ops "''u1''" "''f3''" 300 example_mem example_db "''alice''"
             "example_user ''u1'' ''alice'' Default"]
       example_follow_runs example_alice
  show ?thesis by (simp add: Map_values_def)
qed

subsection \<open>How MemStorage keys its records\<close>

lemma stored_under_id_subset:
  "stored_under_id key m \<Longrightarrow> set m' \<subseteq> set m \<Longrightarrow> stored_under_id key m'"
  by (auto simp: stored_under_id_def)

lemma forEach_delete_subset: "set (forEach_delete key xs m) \<subseteq> set m"
  by (simp add: forEach_delete_filter)


lemma cascade_fields:
  "m_users (mem_delete_snippet_cascade sn st) = m_users st"
  "m_follows (mem_delete_snippet_cascade sn st) = m_follows st"
  "m_notifications (mem_delete_snippet_cascade sn st) = m_notifications st"
  "m_snippets (mem_delete_snippet_cascade sn st) = Map_delete (s_id sn) (m_snippets st)"
  "m_snippetLikes (mem_delete_snippet_cascade sn st)
     = forEach_delete l_id (filter (\<lambda>like. l_snippetId like = s_id sn)
         (Map_values (m_snippetLikes st))) (m_snippetLikes st)"
  "m_snippetViews (mem_delete_snippet_cascade sn st)
     = forEach_delete v_id (filter (\<lambda>view. v_snippetId view = s_id sn)
         (Map_values (m_snippetViews st))) (m_snippetViews st)"
  by (simp_all add: mem_delete_snippet_cascade_def Let_def)

lemma fold_cascade_same:
  "m_users (fold mem_delete_snippet_cascade sns st) = m_users st"
  "m_follows (fold mem_delete_snippet_cascade sns st) = m_follows st"
  "m_notifications (fold mem_delete_snippet_cascade sns st) = m_notifications st"
  by (induction sns arbitrary: st) (simp_all add: cascade_fields)

lemma fold_cascade_snippets:
  "m_snippets (fold mem_delete_snippet_cascade sns st)
     = filter (\<lambda>p. fst p \<notin> s_id ` set sns) (m_snippets st)"
  by (induction sns arbitrary: st) (auto simp: cascade_fields Map_delete_def intro: filter_cong)



lemma MemStorage_deleteUser_fields:
  assumes "Map_get (m_users st) u = Some user"
  defines "st1 \<equiv> fold mem_delete_snippet_cascade
                    (filter (\<lambda>snippet. authorId snippet = u) (Map_values (m_snippets st))) st"
  defines "st' \<equiv> snd (MemStorage_deleteUserAndSnippets u st)"
  shows "fst (MemStorage_deleteUserAndSnippets u st)"
    and "m_users st' = Map_delete u (m_users st)"
    and "m_snippets st' = m_snippets st1"
    and "m_snippetLikes st' = forEach_delete l_id (filter (\<lambda>like. l_userId like = u)
            (Map_values (m_snippetLikes st1))) (m_snippetLikes st1)"
    and "m_snippetViews st' = forEach_delete v_id (filter (\<lambda>view. v_userId view = Some u)
            (Map_values (m_snippetViews st1))) (m_snippetViews st1)"
    and "m_follows st' = forEach_delete f_id
            (filter (\<lambda>follow. followerId follow = u \<or> followingId follow = u)
               (Map_values (m_follows st))) (m_follows st)"
    and "m_notifications st' = forEach_delete n_id
            (filter (\<lambda>n. n_userId n = u \<or> n_fromUserId n = Some u)
               (Map_values (m_notifications st))) (m_notifications st)"
  using assms(1) unfolding st1_def st'_def
  by (simp_all add: MemStorage_deleteUserAndSnippets_def Let_def fold_cascade_same)

lemma stored_under_id_Map_set:
  "stored_under_id key m \<Longrightarrow> k = key v \<Longrightarrow> stored_under_id key (Map_set k v m)"
  using Map_set_subset [of k v m] by (auto simp: stored_under_id_def)

lemma stored_under_id_Map_delete:
  "stored_under_id key m \<Longrightarrow> stored_under_id key (Map_delete k m)"
  by (auto simp: stored_under_id_def Map_delete_def)

lemma stored_under_id_forEach_delete:
  "stored_under_id key m \<Longrightarrow> stored_under_id key (forEach_delete key' xs m)"
  using forEach_delete_subset stored_under_id_subset by blast

lemma stored_under_id_get:
  "stored_under_id key m \<Longrightarrow> Map_get m k = Some v \<Longrightarrow> k = key v"
proof -
  assume a: "stored_under_id key m" and "Map_get m k = Some v"
  then have "(k, v) \<in> set m" by (simp add: Map_get_def map_of_SomeD)
  with a have "fst (k, v) = key (snd (k, v))" unfolding stored_under_id_def by blast
  then show ?thesis by simp
qed

lemma stored_under_id_replace:
  assumes "stored_under_id key m" "Map_get m k = Some v" "key v' = key v"
  shows "stored_under_id key (Map_set k v' m)"
proof -
  from assms(1,2) have "k = key v" by (rule stored_under_id_get)
  with assms(3) have "k = key v'" by simp
  with assms(1) show ?thesis by (rule stored_under_id_Map_set)
qed


lemma Map_set_keys: "fst ` set (Map_set k v m) = insert k (fst ` set m)"
  by (induction m) auto

lemma distinct_Map_set: "distinct (map fst m) \<Longrightarrow> distinct (map fst (Map_set k v m))"
  by (induction m) (auto simp: Map_set_keys)

lemma distinct_Map_delete: "distinct (map fst m) \<Longrightarrow> distinct (map fst (Map_delete k m))"
  by (simp add: Map_delete_def distinct_map_filter)

lemma distinct_forEach_delete:
  "distinct (map fst m) \<Longrightarrow> distinct (map fst (forEach_delete key xs m))"
  by (simp add: forEach_delete_filter distinct_map_filter)

lemma Map_set_new_key: "k \<notin> fst ` set m \<Longrightarrow> set (Map_set k v m) = insert (k, v) (set m)"
  by (induction m) auto

lemma mem_records_ok_cascade:
  "mem_records_ok st \<Longrightarrow> mem_records_ok (fold mem_delete_snippet_cascade sns st)"
  by (induction sns arbitrary: st)
     (auto simp: mem_records_ok_def cascade_fields stored_under_id_forEach_delete
        distinct_forEach_delete)

lemma markAll_fields:
  "m_snippets (MemStorage_markAllNotificationsRead u st) = m_snippets st"
  "m_snippetLikes (MemStorage_markAllNotificationsRead u st) = m_snippetLikes st"
  "m_snippetViews (MemStorage_markAllNotificationsRead u st) = m_snippetViews st"
  "m_users (MemStorage_markAllNotificationsRead u st) = m_users st"
proof -
  let ?f = "\<lambda>notification st'.
             if n_userId notification = u \<and> \<not> isRead notification
             then st'\<lparr>m_notifications :=
                    Map_set (n_id notification) (notification\<lparr>isRead := True\<rparr>)
                      (m_notifications st')\<rparr>
             else st'"
  have "m_snippets (fold ?f ns st) = m_snippets st
      \<and> m_snippetLikes (fold ?f ns st) = m_snippetLikes st
      \<and> m_snippetViews (fold ?f ns st) = m_snippetViews st
      \<and> m_users (fold ?f ns st) = m_users st" for ns
    by (induction ns arbitrary: st) simp_all
  then show "m_snippets (MemStorage_markAllNotificationsRead u st) = m_snippets st"
    "m_snippetLikes (MemStorage_markAllNotificationsRead u st) = m_snippetLikes st"
    "m_snippetViews (MemStorage_markAllNotificationsRead u st) = m_snippetViews st"
    "m_users (MemStorage_markAllNotificationsRead u st) = m_users st"
    by (simp_all add: MemStorage_markAllNotificationsRead_def)
qed

lemma mem_records_ok_markAll:
  "mem_records_ok st \<Longrightarrow> mem_records_ok (MemStorage_markAllNotificationsRead u st)"
proof -
  have "mem_records_ok st \<Longrightarrow> mem_records_ok (fold (\<lambda>notification st'.
             if n_userId notification = u \<and> \<not> isRead notification
             then st'\<lparr>m_notifications :=
                    Map_set (n_id notification) (notification\<lparr>isRead := True\<rparr>)
                      (m_notifications st')\<rparr>
             else st') ns st)" for ns
    by (induction ns arbitrary: st) (auto simp: mem_records_ok_def stored_under_id_Map_set)
  then show "mem_records_ok st \<Longrightarrow> ?thesis"
    by (simp add: MemStorage_markAllNotificationsRead_def)
qed

lemma mem_records_ok_deleteUser:
  "mem_records_ok st \<Longrightarrow> mem_records_ok (snd (MemStorage_deleteUserAndSnippets u st))"
proof (cases "Map_get (m_users st) u")
  case None
  then show "mem_records_ok st \<Longrightarrow> ?thesis" by (simp add: MemStorage_deleteUserAndSnippets_def)
next
  case (Some user)
  assume "mem_records_ok st"
  then have "mem_records_ok (fold mem_delete_snippet_cascade
      (filter (\<lambda>snippet. authorId snippet = u) (Map_values (m_snippets st))) st)"
    by (rule mem_records_ok_cascade)
  then show ?thesis
    unfolding mem_records_ok_def MemStorage_deleteUser_fields(2-7) [OF Some]
    by (simp add: fold_cascade_same stored_under_id_forEach_delete distinct_forEach_delete)
qed

lemma likeSnippet_likes:
  "m_snippetLikes (snd (MemStorage_likeSnippet s u i t st))
     = (if MemStorage_isSnippetLiked s u st then m_snippetLikes st
        else Map_set i \<lparr>l_id = i, l_snippetId = s, l_userId = u, l_createdAt = t\<rparr>
               (m_snippetLikes st))"
  "m_snippetViews (snd (MemStorage_likeSnippet s u i t st)) = m_snippetViews st"
  "m_follows (snd (MemStorage_likeSnippet s u i t st)) = m_follows st"
  "m_notifications (snd (MemStorage_likeSnippet s u i t st)) = m_notifications st"
  "m_users (snd (MemStorage_likeSnippet s u i t st)) = m_users st"
  by (auto simp: MemStorage_likeSnippet_def MemStorage_isSnippetLiked_def list_ex_iff
      find_None_iff find_Some_iff Let_def split: option.splits)

lemma unlikeSnippet_likes:
  "m_snippetLikes (snd (MemStorage_unlikeSnippet s u st))
     = (case find (\<lambda>like. l_snippetId like = s \<and> l_userId like = u)
               (Map_values (m_snippetLikes st)) of
          None \<Rightarrow> m_snippetLikes st
        | Some like \<Rightarrow> Map_delete (l_id like) (m_snippetLikes st))"
  "m_snippetViews (snd (MemStorage_unlikeSnippet s u st)) = m_snippetViews st"
  "m_follows (snd (MemStorage_unlikeSnippet s u st)) = m_follows st"
  "m_notifications (snd (MemStorage_unlikeSnippet s u st)) = m_notifications st"
  "m_users (snd (MemStorage_unlikeSnippet s u st)) = m_users st"
  by (simp_all add: MemStorage_unlikeSnippet_def Let_def split: option.splits)

lemma incrementViews_records:
  "m_snippetLikes (MemStorage_incrementViews s u ip i t st) = m_snippetLikes st"
  "m_follows (MemStorage_incrementViews s u ip i t st) = m_follows st"
  "m_notifications (MemStorage_incrementViews s u ip i t st) = m_notifications st"
  "m_users (MemStorage_incrementViews s u ip i t st) = m_users st"
  "stored_under_id v_id (m_snippetViews st) \<Longrightarrow>
     stored_under_id v_id (m_snippetViews (MemStorage_incrementViews s u ip i t st))"
  by (simp_all add: MemStorage_incrementViews_def Let_def stored_under_id_Map_set
      split: option.splits)

lemma mem_records_ok_markNotificationRead:
  assumes "mem_records_ok st"
  shows "mem_records_ok (snd (MemStorage_markNotificationRead i u st))"
proof (cases "Map_get (m_notifications st) i")
  case None
  with assms show ?thesis by (simp add: MemStorage_markNotificationRead_def)
next
  case (Some n)
  with assms have "stored_under_id n_id (Map_set i (n\<lparr>isRead := True\<rparr>) (m_notifications st))"
    unfolding mem_records_ok_def using stored_under_id_replace [of n_id "m_notifications st" i n]
    by simp
  with Some assms show ?thesis
    by (simp add: MemStorage_markNotificationRead_def mem_records_ok_def)
qed

lemma mem_records_ok_step:
  assumes "mem_records_ok st"
  shows "mem_records_ok (MemStorage_step op st)"
proof (cases op)
  case (CreateUser iu i h t)
  with assms show ?thesis
    by (simp add: mem_records_ok_def MemStorage_createUser_def MemStorage_createAdminUser_def
        Let_def)
next
  case (CreateAdminUser iu r i h t)
  with assms show ?thesis by (simp add: mem_records_ok_def MemStorage_createAdminUser_def Let_def)
next
  case (UpdateUser i up)
  with assms show ?thesis
    by (simp add: mem_records_ok_def MemStorage_updateUser_def Let_def split: option.splits)
next
  case (CreateSnippet d a i t)
  with assms show ?thesis
    by (simp add: mem_records_ok_def MemStorage_createSnippet_def Let_def)
next
  case (UpdateSnippet i up t)
  with assms show ?thesis
    by (simp add: mem_records_ok_def MemStorage_updateSnippet_def Let_def split: option.splits)
next
  case (DeleteSnippet i)
  with assms show ?thesis
    by (simp add: mem_records_ok_def MemStorage_deleteSnippet_def)
next
  case (IncrementViews s u ip i t)
  with assms show ?thesis by (simp add: mem_records_ok_def incrementViews_records)
next
  case (LikeSnippet s u i t)
  with assms show ?thesis
    by (simp add: mem_records_ok_def likeSnippet_likes stored_under_id_Map_set distinct_Map_set)
next
  case (UnlikeSnippet s u)
  with assms show ?thesis
    by (simp add: mem_records_ok_def unlikeSnippet_likes stored_under_id_Map_delete
        distinct_Map_delete split: option.splits)
next
  case (FollowUser f g i t)
  with assms show ?thesis
    by (simp add: mem_records_ok_def MemStorage_followUser_def stored_under_id_Map_set Let_def
        split: option.splits)
next
  case (UnfollowUser f g)
  with assms show ?thesis
    by (simp add: mem_records_ok_def MemStorage_unfollowUser_def stored_under_id_Map_delete
        split: option.splits)
next
  case (CreateNotification n i t)
  with assms show ?thesis
    by (simp add: mem_records_ok_def MemStorage_createNotification_def stored_under_id_Map_set
        Let_def)
next
  case (MarkNotificationRead i u)
  with assms show ?thesis by (simp add: mem_records_ok_markNotificationRead)
next
  case (MarkAllNotificationsRead u)
  with assms show ?thesis by (simp add: mem_records_ok_markAll)
next
  case (DeleteUserAndSnippets u)
  with assms show ?thesis by (simp add: mem_records_ok_deleteUser)
qed

lemma mem_records_ok_run: "mem_records_ok st \<Longrightarrow> mem_records_ok (MemStorage_run ops st)"
  unfolding MemStorage_run_def
  by (induction ops arbitrary: st) (simp_all add: mem_records_ok_step)

text \<open>
  In every state that \<open>MemStorage\<close> reaches from the empty storage, whatever the calls,
  the likes, views, follows and notifications are stored under their own ids.
\<close>

lemma mem_records_ok_reachable: "mem_records_ok (MemStorage_run ops MemStorage_new)"
  by (rule mem_records_ok_run) (simp add: mem_records_ok_def stored_under_id_def MemStorage_new_def)

lemma snippets_keyed_updateSnippet:
  assumes "stored_under_id s_id (m_snippets st)" and "su_id up = None \<or> su_id up = Some i"
  shows "stored_under_id s_id (m_snippets (snd (MemStorage_updateSnippet i up t st)))"
proof (cases "Map_get (m_snippets st) i")
  case None
  with assms show ?thesis by (simp add: MemStorage_updateSnippet_def)
next
  case (Some sn)
  with assms(1) have "i = s_id sn" by (rule stored_under_id_get)
  with assms(2) have "i = s_id (merge_snippet sn up t)"
    by (auto simp: merge_snippet_def)
  with assms(1) have "stored_under_id s_id (Map_set i (merge_snippet sn up t) (m_snippets st))"
    by (rule stored_under_id_Map_set)
  with Some show ?thesis by (simp add: MemStorage_updateSnippet_def Let_def)
qed

lemma snippets_keyed_count:
  assumes "stored_under_id s_id m" and "\<And>sn. s_id (f sn) = s_id sn"
  shows "stored_under_id s_id (case Map_get m s of None \<Rightarrow> m | Some sn \<Rightarrow> Map_set s (f sn) m)"
proof (cases "Map_get m s")
  case None
  with assms show ?thesis by simp
next
  case (Some sn)
  from assms(1) Some assms(2) have "stored_under_id s_id (Map_set s (f sn) m)"
    by (rule stored_under_id_replace)
  with Some show ?thesis by simp
qed

lemma snippets_keyed_likeSnippet:
  assumes "stored_under_id s_id (m_snippets st)"
  shows "stored_under_id s_id (m_snippets (snd (MemStorage_likeSnippet s u i t st)))"
proof -
  have "m_snippets (snd (MemStorage_likeSnippet s u i t st)) = m_snippets st
      \<or> m_snippets (snd (MemStorage_likeSnippet s u i t st))
          = (case Map_get (m_snippets st) s of
               None \<Rightarrow> m_snippets st
             | Some sn \<Rightarrow> Map_set s (sn\<lparr>likes := likes sn + 1\<rparr>) (m_snippets st))"
    by (simp add: MemStorage_likeSnippet_def Let_def split: option.splits)
  with assms snippets_keyed_count [OF assms, of "\<lambda>sn. sn\<lparr>likes := likes sn + 1\<rparr>" s]
  show ?thesis by auto
qed

lemma snippets_keyed_unlikeSnippet:
  assumes "stored_under_id s_id (m_snippets st)"
  shows "stored_under_id s_id (m_snippets (snd (MemStorage_unlikeSnippet s u st)))"
proof -
  have "m_snippets (snd (MemStorage_unlikeSnippet s u st)) = m_snippets st
      \<or> m_snippets (snd (MemStorage_unlikeSnippet s u st))
          = (case Map_get (m_snippets st) s of
               None \<Rightarrow> m_snippets st
             | Some sn \<Rightarrow> Map_set s (sn\<lparr>likes := likes sn - 1\<rparr>) (m_snippets st))"
    by (simp add: MemStorage_unlikeSnippet_def Let_def split: option.splits)
  with assms snippets_keyed_count [OF assms, of "\<lambda>sn. sn\<lparr>likes := likes sn - 1\<rparr>" s]
  show ?thesis by auto
qed

lemma snippets_keyed_incrementViews:
  assumes "stored_under_id s_id (m_snippets st)"
  shows "stored_under_id s_id (m_snippets (MemStorage_incrementViews s u ip i t st))"
proof -
  have "m_snippets (MemStorage_incrementViews s u ip i t st) = m_snippets st
      \<or> m_snippets (MemStorage_incrementViews s u ip i t st)
          = (case Map_get (m_snippets st) s of
               None \<Rightarrow> m_snippets st
             | Some sn \<Rightarrow> Map_set s (sn\<lparr>views := views sn + 1\<rparr>) (m_snippets st))"
    by (simp add: MemStorage_incrementViews_def Let_def split: option.splits)
  with assms snippets_keyed_count [OF assms, of "\<lambda>sn. sn\<lparr>views := views sn + 1\<rparr>" s]
  show ?thesis by auto
qed

lemma snippets_keyed_deleteUser:
  assumes "stored_under_id s_id (m_snippets st)"
  shows "stored_under_id s_id (m_snippets (snd (MemStorage_deleteUserAndSnippets u st)))"
proof (cases "Map_get (m_users st) u")
  case None
  with assms show ?thesis by (simp add: MemStorage_deleteUserAndSnippets_def)
next
  case (Some user)
  have "set (m_snippets (snd (MemStorage_deleteUserAndSnippets u st))) \<subseteq> set (m_snippets st)"
    unfolding MemStorage_deleteUser_fields(3) [OF Some] fold_cascade_snippets by auto
  with assms show ?thesis by (rule stored_under_id_subset)
qed

lemma snippets_keyed_step:
  assumes "stored_under_id s_id (m_snippets st)" and "keeps_ids op"
  shows "stored_under_id s_id (m_snippets (MemStorage_step op st))"
proof (cases op)
  case (CreateUser iu i h t)
  with assms show ?thesis
    by (simp add: MemStorage_createUser_def MemStorage_createAdminUser_def Let_def)
next
  case (CreateAdminUser iu r i h t)
  with assms show ?thesis by (simp add: MemStorage_createAdminUser_def Let_def)
next
  case (UpdateUser i up)
  with assms show ?thesis
    by (simp add: MemStorage_updateUser_def Let_def split: option.splits)
next
  case (CreateSnippet d a i t)
  with assms show ?thesis
    by (simp add: MemStorage_createSnippet_def stored_under_id_Map_set Let_def)
next
  case (UpdateSnippet i up t)
  with assms show ?thesis by (simp add: snippets_keyed_updateSnippet keeps_ids_def)
next
  case (DeleteSnippet i)
  with assms show ?thesis
    by (simp add: MemStorage_deleteSnippet_def stored_under_id_Map_delete)
next
  case (IncrementViews s u ip i t)
  with assms show ?thesis by (simp add: snippets_keyed_incrementViews)
next
  case (LikeSnippet s u i t)
  with assms show ?thesis by (simp add: snippets_keyed_likeSnippet)
next
  case (UnlikeSnippet s u)
  with assms show ?thesis by (simp add: snippets_keyed_unlikeSnippet)
next
  case (FollowUser f g i t)
  with assms show ?thesis
    by (simp add: MemStorage_followUser_def Let_def split: option.splits)
next
  case (UnfollowUser f g)
  with assms show ?thesis
    by (simp add: MemStorage_unfollowUser_def split: option.splits)
next
  case (CreateNotification n i t)
  with assms show ?thesis by (simp add: MemStorage_createNotification_def Let_def)
next
  case (MarkNotificationRead i u)
  with assms show ?thesis
    by (simp add: MemStorage_markNotificationRead_def split: option.splits)
next
  case (MarkAllNotificationsRead u)
  with assms show ?thesis by (simp add: markAll_fields)
next
  case (DeleteUserAndSnippets u)
  with assms show ?thesis by (simp add: snippets_keyed_deleteUser)
qed

lemma snippets_keyed_run:
  "stored_under_id s_id (m_snippets st) \<Longrightarrow> \<forall>op \<in> set ops. keeps_ids op \<Longrightarrow>
     stored_under_id s_id (m_snippets (MemStorage_run ops st))"
  unfolding MemStorage_run_def
  by (induction ops arbitrary: st) (auto simp: snippets_keyed_step)

text \<open>
  In every state that \<open>MemStorage\<close> reaches from the empty storage by calls among
  which no \<open>updateSnippet\<close> is passed another \<open>id\<close>, the snippets of every user are
  stored under their own ids.
\<close>

lemma own_snippets_keyed_reachable:
  assumes "\<forall>op \<in> set ops. keeps_ids op"
  shows "own_snippets_keyed u (MemStorage_run ops MemStorage_new)"
proof -
  have "stored_under_id s_id (m_snippets MemStorage_new)"
    by (simp add: stored_under_id_def MemStorage_new_def)
  then have "stored_under_id s_id (m_snippets (MemStorage_run ops MemStorage_new))"
    using assms by (rule snippets_keyed_run)
  then show ?thesis by (simp add: own_snippets_keyed_def stored_under_id_def)
qed

subsection \<open>Deleting a user\<close>












subsection \<open>Liking a snippet twice\<close>

lemma MemStorage_liked_noop:
  "MemStorage_isSnippetLiked s u st \<Longrightarrow> MemStorage_likeSnippet s u i t st = (False, st)"
  by (auto simp: MemStorage_isSnippetLiked_def MemStorage_likeSnippet_def list_ex_iff
      find_None_iff split: option.splits)

lemma MemStorage_like_records:
  "fst (MemStorage_likeSnippet s u i t st) \<Longrightarrow>
     MemStorage_isSnippetLiked s u (snd (MemStorage_likeSnippet s u i t st))"
  apply (auto simp: MemStorage_isSnippetLiked_def MemStorage_likeSnippet_def list_ex_iff Let_def
      split: option.splits)
  using Map_set_value_mem apply force
  using Map_set_value_mem apply force
  done

lemma DatabaseStorage_liked_noop:
  "DatabaseStorage_isSnippetLiked s u db \<Longrightarrow>
     DatabaseStorage_likeSnippet s u i t db = Inr (False, db)"
  by (auto simp: DatabaseStorage_isSnippetLiked_def DatabaseStorage_likeSnippet_def
      split: option.splits)

lemma DatabaseStorage_like_records:
  "DatabaseStorage_likeSnippet s u i t db = Inr (True, db1) \<Longrightarrow>
     DatabaseStorage_isSnippetLiked s u db1"
  by (auto simp: DatabaseStorage_isSnippetLiked_def DatabaseStorage_likeSnippet_def Let_def
      first_row_def split: option.splits if_splits list.splits)


lemma isSnippetLiked_iff:
  "DatabaseStorage_isSnippetLiked s u db
     \<longleftrightarrow> (\<exists>l \<in> set (t_snippetLikes db). l_snippetId l = s \<and> l_userId l = u)"
  by (auto simp: DatabaseStorage_isSnippetLiked_def first_row_None filter_empty_conv)

lemma MemStorage_isSnippetLiked_iff:
  "MemStorage_isSnippetLiked s u st
     \<longleftrightarrow> (\<exists>p \<in> set (m_snippetLikes st). l_snippetId (snd p) = s \<and> l_userId (snd p) = u)"
  by (auto simp: MemStorage_isSnippetLiked_def list_ex_iff Map_values_def)

text \<open>A call of \<open>DatabaseStorage\<close> that does not remove the like leaves it stored.\<close>

lemma DatabaseStorage_step_keeps_like:
  assumes "DatabaseStorage_isSnippetLiked s u db" "\<not> db_removes_like s u op db"
  shows "DatabaseStorage_isSnippetLiked s u (DatabaseStorage_step op db)"
proof (cases op)
  case (LikeSnippet s' u' i t)
  with assms show ?thesis
    by (auto simp: isSnippetLiked_iff DatabaseStorage_likeSnippet_def state_after_def Let_def
        split: option.splits)
next
  case (UnlikeSnippet s' u')
  with assms show ?thesis
    by (auto simp: isSnippetLiked_iff DatabaseStorage_unlikeSnippet_def db_removes_like_def
        Let_def split: option.splits)
next
  case (DeleteUserAndSnippets x)
  with assms show ?thesis
    by (auto simp: isSnippetLiked_iff DatabaseStorage_deleteUserAndSnippets_def
        db_removes_like_def db_owned_def Let_def)
next
  case (UpdateUser i up)
  with assms show ?thesis
    by (auto simp: isSnippetLiked_iff state_after_def DatabaseStorage_updateUser_def Let_def)
qed (use assms in \<open>auto simp: isSnippetLiked_iff state_after_def DatabaseStorage_createUser_def
      DatabaseStorage_createAdminUser_def
      DatabaseStorage_createSnippet_def DatabaseStorage_updateSnippet_def
      DatabaseStorage_deleteSnippet_def DatabaseStorage_incrementViews_def
      DatabaseStorage_followUser_def DatabaseStorage_unfollowUser_def
      DatabaseStorage_createNotification_def DatabaseStorage_markNotificationRead_def
      DatabaseStorage_markAllNotificationsRead_def Let_def split: option.splits if_splits\<close>)

lemma DatabaseStorage_run_keeps_like:
  "DatabaseStorage_isSnippetLiked s u db \<Longrightarrow> db_like_kept s u ops db \<Longrightarrow>
     DatabaseStorage_isSnippetLiked s u (DatabaseStorage_run ops db)"
  unfolding DatabaseStorage_run_def
  by (induction ops arbitrary: db) (auto simp: DatabaseStorage_step_keeps_like)

text \<open>
  \<open>MemStorage\<close> deletes like records by their \<open>id\<close>; a record that is not among
  those to be deleted stays, since no other record is stored under its key.
\<close>

lemma forEach_delete_keeps:
  assumes "stored_under_id key m" and "distinct (map fst m)"
    and "p \<in> set m" and "\<not> P (snd p)"
  shows "p \<in> set (forEach_delete key (filter P (Map_values m)) m)"
proof -
  have "fst p \<notin> key ` set (filter P (Map_values m))"
  proof
    assume "fst p \<in> key ` set (filter P (Map_values m))"
    then obtain q where q: "q \<in> set m" "P (snd q)" "fst p = key (snd q)"
      by (auto simp: Map_values_def)
    from assms(1) q(1) have "fst q = key (snd q)" by (auto simp: stored_under_id_def)
    with q(3) have "fst p = fst q" by simp
    with assms(2,3) q(1) have "p = q"
      by (metis eq_key_imp_eq_value prod.collapse)
    with q(2) assms(4) show False by simp
  qed
  with assms(3) show ?thesis by (simp add: forEach_delete_filter)
qed

lemma fold_cascade_keeps_like:
  assumes "mem_records_ok st" and "p \<in> set (m_snippetLikes st)"
    and "l_snippetId (snd p) \<notin> s_id ` set sns"
  shows "p \<in> set (m_snippetLikes (fold mem_delete_snippet_cascade sns st))"
  using assms
proof (induction sns arbitrary: st)
  case Nil
  then show ?case by simp
next
  case (Cons sn sns)
  let ?st = "mem_delete_snippet_cascade sn st"
  from Cons.prems(1) have "mem_records_ok (fold mem_delete_snippet_cascade [sn] st)"
    by (rule mem_records_ok_cascade)
  then have ok: "mem_records_ok ?st" by simp
  from Cons.prems(1) have k: "stored_under_id l_id (m_snippetLikes st)"
    "distinct (map fst (m_snippetLikes st))"
    by (simp_all add: mem_records_ok_def)
  from Cons.prems(3) have "\<not> l_snippetId (snd p) = s_id sn" by simp
  with k Cons.prems(2) have "p \<in> set (m_snippetLikes ?st)"
    unfolding cascade_fields by (rule forEach_delete_keeps)
  moreover from Cons.prems(3) have "l_snippetId (snd p) \<notin> s_id ` set sns" by simp
  ultimately have "p \<in> set (m_snippetLikes (fold mem_delete_snippet_cascade sns ?st))"
    using ok Cons.IH by blast
  then show ?case by simp
qed

lemma MemStorage_deleteUser_keeps_like:
  assumes ok: "mem_records_ok st" and p: "p \<in> set (m_snippetLikes st)"
    and other: "l_userId (snd p) \<noteq> x" and foreign: "l_snippetId (snd p) \<notin> set (mem_owned x st)"
  shows "p \<in> set (m_snippetLikes (snd (MemStorage_deleteUserAndSnippets x st)))"
proof (cases "Map_get (m_users st) x")
  case None
  with p show ?thesis by (simp add: MemStorage_deleteUserAndSnippets_def)
next
  case (Some user)
  let ?us = "filter (\<lambda>snippet. authorId snippet = x) (Map_values (m_snippets st))"
  let ?st1 = "fold mem_delete_snippet_cascade ?us st"
  from foreign have "l_snippetId (snd p) \<notin> s_id ` set ?us" by (simp add: mem_owned_def)
  with ok p have p1: "p \<in> set (m_snippetLikes ?st1)" by (rule fold_cascade_keeps_like)
  from ok have "mem_records_ok ?st1" by (rule mem_records_ok_cascade)
  then have k: "stored_under_id l_id (m_snippetLikes ?st1)"
    "distinct (map fst (m_snippetLikes ?st1))"
    by (simp_all add: mem_records_ok_def)
  from other have "\<not> l_userId (snd p) = x" .
  with k p1 show ?thesis
    unfolding MemStorage_deleteUser_fields(4) [OF Some] by (rule forEach_delete_keeps)
qed

lemma MemStorage_unlike_keeps_like:
  assumes ok: "mem_records_ok st" and p: "p \<in> set (m_snippetLikes st)"
    and other: "\<not> (l_snippetId (snd p) = s' \<and> l_userId (snd p) = u')"
  shows "p \<in> set (m_snippetLikes (snd (MemStorage_unlikeSnippet s' u' st)))"
proof (cases "find (\<lambda>like. l_snippetId like = s' \<and> l_userId like = u')
                (Map_values (m_snippetLikes st))")
  case None
  with p show ?thesis by (simp add: unlikeSnippet_likes)
next
  case (Some like)
  then have "like \<in> set (Map_values (m_snippetLikes st))"
    and m: "l_snippetId like = s' \<and> l_userId like = u'"
    unfolding find_Some_iff by (metis nth_mem)+
  then obtain q where q: "q \<in> set (m_snippetLikes st)" "snd q = like"
    by (auto simp: Map_values_def)
  from ok have k: "stored_under_id l_id (m_snippetLikes st)"
    "distinct (map fst (m_snippetLikes st))"
    by (simp_all add: mem_records_ok_def)
  have "fst p \<noteq> l_id like"
  proof
    assume "fst p = l_id like"
    moreover from k(1) q have "fst q = l_id like" by (auto simp: stored_under_id_def)
    ultimately have "fst p = fst q" by simp
    with k(2) p q(1) have "p = q" by (metis eq_key_imp_eq_value prod.collapse)
    with q(2) m other show False by simp
  qed
  with p Some show ?thesis by (simp add: unlikeSnippet_likes Map_delete_def)
qed

lemma MemStorage_like_keeps_like:
  assumes p: "p \<in> set (m_snippetLikes st)"
    and fresh: "MemStorage_isSnippetLiked s' u' st \<or> i' \<notin> set (map fst (m_snippetLikes st))"
  shows "p \<in> set (m_snippetLikes (snd (MemStorage_likeSnippet s' u' i' t' st)))"
proof (cases "MemStorage_isSnippetLiked s' u' st")
  case True
  with p show ?thesis by (simp add: likeSnippet_likes)
next
  case False
  with fresh have "i' \<notin> fst ` set (m_snippetLikes st)" by simp
  with p False show ?thesis by (simp add: likeSnippet_likes Map_set_new_key)
qed

text \<open>A call of \<open>MemStorage\<close> that does not remove the like leaves it stored.\<close>

lemma MemStorage_step_keeps_like:
  assumes ok: "mem_records_ok st" and liked: "MemStorage_isSnippetLiked s u st"
    and kept: "\<not> mem_removes_like s u op st" and fresh: "\<not> mem_like_id_reused op st"
  shows "MemStorage_isSnippetLiked s u (MemStorage_step op st)"
proof -
  from liked obtain p where p: "p \<in> set (m_snippetLikes st)"
    and su: "l_snippetId (snd p) = s" "l_userId (snd p) = u"
    by (auto simp: MemStorage_isSnippetLiked_iff)
  have "p \<in> set (m_snippetLikes (MemStorage_step op st))"
  proof (cases op)
    case (CreateUser iu i h t)
    with p show ?thesis
      by (simp add: MemStorage_createUser_def MemStorage_createAdminUser_def Let_def)
  next
    case (CreateAdminUser iu r i h t)
    with p show ?thesis by (simp add: MemStorage_createAdminUser_def Let_def)
  next
    case (UpdateUser i up)
    with p show ?thesis by (simp add: MemStorage_updateUser_def Let_def split: option.splits)
  next
    case (CreateSnippet d a i t)
    with p show ?thesis by (simp add: MemStorage_createSnippet_def Let_def)
  next
    case (UpdateSnippet i up t)
    with p show ?thesis by (simp add: MemStorage_updateSnippet_def Let_def split: option.splits)
  next
    case (DeleteSnippet i)
    with p show ?thesis by (simp add: MemStorage_deleteSnippet_def)
  next
    case (IncrementViews s' u' ip i t)
    with p show ?thesis by (simp add: incrementViews_records)
  next
    case (LikeSnippet s' u' i' t')
    with fresh have "MemStorage_isSnippetLiked s' u' st
        \<or> i' \<notin> set (map fst (m_snippetLikes st))"
      by (simp add: mem_like_id_reused_def)
    with p LikeSnippet show ?thesis by (simp add: MemStorage_like_keeps_like)
  next
    case (UnlikeSnippet s' u')
    with kept su have "\<not> (l_snippetId (snd p) = s' \<and> l_userId (snd p) = u')"
      by (auto simp: mem_removes_like_def)
    with ok p UnlikeSnippet show ?thesis by (simp add: MemStorage_unlike_keeps_like)
  next
    case (FollowUser f g i t)
    with p show ?thesis by (simp add: MemStorage_followUser_def Let_def split: option.splits)
  next
    case (UnfollowUser f g)
    with p show ?thesis by (simp add: MemStorage_unfollowUser_def split: option.splits)
  next
    case (CreateNotification n i t)
    with p show ?thesis by (simp add: MemStorage_createNotification_def Let_def)
  next
    case (MarkNotificationRead i u')
    with p show ?thesis by (simp add: MemStorage_markNotificationRead_def split: option.splits)
  next
    case (MarkAllNotificationsRead u')
    with p show ?thesis by (simp add: markAll_fields)
  next
    case (DeleteUserAndSnippets x)
    show ?thesis
    proof (cases "MemStorage_getUser x st")
      case None
      with p DeleteUserAndSnippets show ?thesis
        by (simp add: MemStorage_deleteUserAndSnippets_def MemStorage_getUser_def)
    next
      case (Some user)
      with kept su DeleteUserAndSnippets
      have "l_userId (snd p) \<noteq> x" and "l_snippetId (snd p) \<notin> set (mem_owned x st)"
        by (auto simp: mem_removes_like_def)
      with ok p DeleteUserAndSnippets show ?thesis
        by (simp add: MemStorage_deleteUser_keeps_like)
    qed
  qed
  with su show ?thesis by (auto simp: MemStorage_isSnippetLiked_iff)
qed

lemma MemStorage_run_keeps_like:
  "mem_records_ok st \<Longrightarrow> MemStorage_isSnippetLiked s u st \<Longrightarrow> mem_like_kept s u ops st \<Longrightarrow>
     MemStorage_isSnippetLiked s u (MemStorage_run ops st)"
  unfolding MemStorage_run_def
  by (induction ops arbitrary: st)
     (auto simp: MemStorage_step_keeps_like mem_records_ok_step)

text \<open>
  Claim C3, as stated, is false. The second user likes the example snippet; then
  \<open>deleteUserAndSnippets\<close> is called for that user, which removes the like record
  and leaves the likes counter at 1. No \<open>unlikeSnippet\<close> has occurred, and a second
  \<open>likeSnippet\<close> of the same pair returns \<open>true\<close>, stores a like record and raises
  the counter to 2, in \<open>DatabaseStorage\<close> and in \<open>MemStorage\<close>; the route answers
  200. The same happens when the author of the snippet is deleted instead.
\<close>

theorem likeSnippet_succeeds_again_after_deleteUserAndSnippets:
  "DatabaseStorage_likeSnippet ''s1'' ''u2'' ''l1'' 2000 example_db = Inr (True, example_db_liked)
   \<and> DatabaseStorage_likeSnippet ''s1'' ''u2'' ''l2'' 3000
        (DatabaseStorage_run [DeleteUserAndSnippets ''u2''] example_db_liked)
     = Inr (True, DatabaseStorage_new\<lparr>
          t_users := [example_user ''u1'' ''alice'' Default],
          t_snippets := [example_snippet\<lparr>likes := 2\<rparr>],
          t_snippetLikes := [example_like\<lparr>l_id := ''l2'', l_createdAt := 3000\<rparr>]\<rparr>)
   \<and> fst (POST_api_snippets_id_like (Some ''u2'') ''s1'' ''l2'' 3000
        (DatabaseStorage_run [DeleteUserAndSnippets ''u2''] example_db_liked))
     = \<lparr>status = 200, body = Message ''Snippet liked successfully''\<rparr>
   \<and> DatabaseStorage_likeSnippet ''s1'' ''u2'' ''l2'' 3000
        (DatabaseStorage_run [DeleteUserAndSnippets ''u1''] example_db_liked)
     = Inr (True, DatabaseStorage_new\<lparr>
          t_users := [example_user ''u2'' ''bob'' Default],
          t_snippetLikes := [example_like\<lparr>l_id := ''l2'', l_createdAt := 3000\<rparr>]\<rparr>)
   \<and> MemStorage_likeSnippet ''s1'' ''u2'' ''l1'' 2000 example_mem = (True, example_mem_liked)
   \<and> MemStorage_likeSnippet ''s1'' ''u2'' ''l2'' 3000
        (MemStorage_run [DeleteUserAndSnippets ''u2''] example_mem_liked)
     = (True, MemStorage_new\<lparr>
          m_users := [(''u1'', example_user ''u1'' ''alice'' Default)],
          m_snippets := [(''s1'', example_snippet\<lparr>likes := 2\<rparr>)],
          m_snippetLikes := [(''l2'', example_like\<lparr>l_id := ''l2'', l_createdAt := 3000\<rparr>)]\<rparr>)"
  by code_simp

text \<open>
  In \<open>MemStorage\<close> the like record is also lost when a later \<open>likeSnippet\<close> of
  another pair is given the identifier of that record: \<open>Map.set\<close> replaces it, and the
  second user's like of the example snippet succeeds again.
\<close>

lemma MemStorage_like_lost_to_reused_id:
  "MemStorage_isSnippetLiked ''s1'' ''u2'' example_mem_liked
   \<and> \<not> MemStorage_isSnippetLiked ''s1'' ''u2''
         (MemStorage_run [LikeSnippet ''s1'' ''u1'' ''l1'' 2500] example_mem_liked)
   \<and> fst (MemStorage_likeSnippet ''s1'' ''u2'' ''l2'' 3000
         (MemStorage_run [LikeSnippet ''s1'' ''u1'' ''l1'' 2500] example_mem_liked))"
  by code_simp

text \<open>
  Claim C3, amended. Let \<open>likeSnippet(s, u)\<close> have succeeded, and let the calls made
  since then include neither \<open>unlikeSnippet(s, u)\<close> nor a \<open>deleteUserAndSnippets\<close>
  of \<open>u\<close> or of a user who is the author of a snippet with id \<open>s\<close> (for
  \<open>MemStorage\<close>, which is taken in a state reached from the empty storage: a
  \<open>deleteUserAndSnippets\<close> of an existing such user; nor a \<open>likeSnippet\<close> that
  stores its record under an identifier already in use). Then a further
  \<open>likeSnippet(s, u)\<close> returns \<open>false\<close> and returns the storage exactly as it was:
  the likes counter of \<open>s\<close> and the like records are those before the call. The
  route then answers 400. With no calls in between this is the second of two
  consecutive calls.
\<close>

theorem likeSnippet_twice_is_noop:
  "(DatabaseStorage_likeSnippet s u i t db = Inr (True, db1) \<and> db_like_kept s u ops db1 \<longrightarrow>
      DatabaseStorage_likeSnippet s u i' t' (DatabaseStorage_run ops db1)
        = Inr (False, DatabaseStorage_run ops db1))
   \<and> (DatabaseStorage_likeSnippet s u i t db = Inr (True, db1) \<and> db_like_kept s u ops db1
        \<and> u \<noteq> [] \<longrightarrow>
      POST_api_snippets_id_like (Some u) s i' t' (DatabaseStorage_run ops db1)
        = (\<lparr>status = 400, body = Message ''Already liked or snippet not found''\<rparr>,
           DatabaseStorage_run ops db1))
   \<and> (st = MemStorage_run ops0 MemStorage_new \<and> MemStorage_likeSnippet s u i t st = (True, st1)
        \<and> mem_like_kept s u ops st1 \<longrightarrow>
      MemStorage_likeSnippet s u i' t' (MemStorage_run ops st1)
        = (False, MemStorage_run ops st1))"
proof (intro conjI impI)
  assume a: "DatabaseStorage_likeSnippet s u i t db = Inr (True, db1) \<and> db_like_kept s u ops db1"
  then have "DatabaseStorage_isSnippetLiked s u db1"
    using DatabaseStorage_like_records by blast
  with a have "DatabaseStorage_isSnippetLiked s u (DatabaseStorage_run ops db1)"
    by (simp add: DatabaseStorage_run_keeps_like)
  then show "DatabaseStorage_likeSnippet s u i' t' (DatabaseStorage_run ops db1)
        = Inr (False, DatabaseStorage_run ops db1)"
    by (rule DatabaseStorage_liked_noop)
next
  assume a: "DatabaseStorage_likeSnippet s u i t db = Inr (True, db1) \<and> db_like_kept s u ops db1
        \<and> u \<noteq> []"
  then have "DatabaseStorage_isSnippetLiked s u db1"
    using DatabaseStorage_like_records by blast
  with a have "DatabaseStorage_isSnippetLiked s u (DatabaseStorage_run ops db1)"
    by (simp add: DatabaseStorage_run_keeps_like)
  with a show "POST_api_snippets_id_like (Some u) s i' t' (DatabaseStorage_run ops db1)
        = (\<lparr>status = 400, body = Message ''Already liked or snippet not found''\<rparr>,
           DatabaseStorage_run ops db1)"
    by (simp add: POST_api_snippets_id_like_def requireAuth_def DatabaseStorage_liked_noop)
next
  assume a: "st = MemStorage_run ops0 MemStorage_new \<and> MemStorage_likeSnippet s u i t st = (True, st1)
        \<and> mem_like_kept s u ops st1"
  then have reached: "st = MemStorage_run ops0 MemStorage_new"
    and first: "MemStorage_likeSnippet s u i t st = (True, st1)"
    and kept: "mem_like_kept s u ops st1"
    by blast+
  have "mem_records_ok st" unfolding reached by (rule mem_records_ok_reachable)
  then have "mem_records_ok (MemStorage_step (LikeSnippet s u i t) st)"
    by (rule mem_records_ok_step)
  then have ok: "mem_records_ok st1" by (simp add: first)
  from first have "fst (MemStorage_likeSnippet s u i t st)" by simp
  then have "MemStorage_isSnippetLiked s u (snd (MemStorage_likeSnippet s u i t st))"
    by (rule MemStorage_like_records)
  then have "MemStorage_isSnippetLiked s u st1" by (simp add: first)
  with ok have "MemStorage_isSnippetLiked s u (MemStorage_run ops st1)"
    using kept by (rule MemStorage_run_keeps_like)
  then show "MemStorage_likeSnippet s u i' t' (MemStorage_run ops st1)
        = (False, MemStorage_run ops st1)"
    by (rule MemStorage_liked_noop)
qed

lemma example_mem_like:
  "MemStorage_likeSnippet ''s1'' ''u2'' ''l1'' 2000 example_mem = (True, example_mem_liked)"
  by code_simp

lemma example_db_like:
  "DatabaseStorage_likeSnippet ''s1'' ''u2'' ''l1'' 2000 example_db = Inr (True, example_db_liked)"
  by code_simp

lemma example_start_run: "example_mem = MemStorage_run example_start_ops MemStorage_new"
  by code_simp

lemma example_between_kept:
  "db_like_kept ''s1'' ''u2'' example_between_ops example_db_liked
   \<and> db_like_kept ''s1'' ''u2'' [] example_db_liked
   \<and> mem_like_kept ''s1'' ''u2'' example_between_ops example_mem_liked
   \<and> mem_like_kept ''s1'' ''u2'' [] example_mem_liked"
  by code_simp

lemma example_between_run:
  "DatabaseStorage_run example_between_ops example_db_liked
     = example_db_liked\<lparr>
         t_snippets := [example_snippet\<lparr>views := 1, likes := 1\<rparr>],
         t_snippetViews := [example_view]\<rparr>
   \<and> MemStorage_run example_between_ops example_mem_liked
     = example_mem_liked\<lparr>
         m_snippets := [(''s1'', example_snippet\<lparr>views := 1, likes := 1\<rparr>)],
         m_snippetViews := [(''v1'', example_view)]\<rparr>
   \<and> DatabaseStorage_run [] example_db_liked = example_db_liked
   \<and> MemStorage_run [] example_mem_liked = example_mem_liked"
  by code_simp

theorem likeSnippet_twice_is_noop_witness:
  "DatabaseStorage_likeSnippet ''s1'' ''u2'' ''l1'' 2000 example_db = Inr (True, example_db_liked)
   \<and> db_like_kept ''s1'' ''u2'' example_between_ops example_db_liked
   \<and> DatabaseStorage_likeSnippet ''s1'' ''u2'' ''l2'' 3000 example_db_liked
       = Inr (False, example_db_liked)
   \<and> DatabaseStorage_likeSnippet ''s1'' ''u2'' ''l2'' 3000
        (example_db_liked\<lparr>
           t_snippets := [example_snippet\<lparr>views := 1, likes := 1\<rparr>],
           t_snippetViews := [example_view]\<rparr>)
       = Inr (False, example_db_liked\<lparr>
           t_snippets := [example_snippet\<lparr>views := 1, likes := 1\<rparr>],
           t_snippetViews := [example_view]\<rparr>)
   \<and> POST_api_snippets_id_like (Some ''u2'') ''s1'' ''l2'' 3000 example_db_liked
       = (\<lparr>status = 400, body = Message ''Already liked or snippet not found''\<rparr>, example_db_liked)
   \<and> MemStorage_likeSnippet ''s1'' ''u2'' ''l1'' 2000 example_mem = (True, example_mem_liked)
   \<and> mem_like_kept ''s1'' ''u2'' example_between_ops example_mem_liked
   \<and> MemStorage_likeSnippet ''s1'' ''u2'' ''l2'' 3000 example_mem_liked = (False, example_mem_liked)
   \<and> MemStorage_likeSnippet ''s1'' ''u2'' ''l2'' 3000
        (example_mem_liked\<lparr>
           m_snippets := [(''s1'', example_snippet\<lparr>views := 1, likes := 1\<rparr>)],
           m_snippetViews := [(''v1'', example_view)]\<rparr>)
       = (False, example_mem_liked\<lparr>
           m_snippets := [(''s1'', example_snippet\<lparr>views := 1, likes := 1\<rparr>)],
           m_snippetViews := [(''v1'', example_view)]\<rparr>)"
proof -
  have ne: "''u2'' \<noteq> []" by simp
  from likeSnippet_twice_is_noop
         [where s = "''s1''" and u = "''u2''" and i = "''l1''" and t = 2000 and db = example_db
            and ?db1.0 = example_db_liked and ops = example_between_ops and i' = "''l2''"
            and t' = 3000 and st = example_mem and ?ops0.0 = example_start_ops
            and ?st1.0 = example_mem_liked]
       likeSnippet_twice_is_noop
         [where s = "''s1''" and u = "''u2''" and i = "''l1''" and t = 2000 and db = example_db
            and ?db1.0 = example_db_liked and ops = "[]" and i' = "''l2''"
            and t' = 3000 and st = example_mem and ?ops0.0 = example_start_ops
            and ?st1.0 = example_mem_liked]
       example_db_like example_mem_like example_start_run example_between_kept
       example_between_run ne
  show ?thesis by simp
qed

subsection \<open>Private snippets\<close>

lemma GET_snippet_without_author:
  "DatabaseStorage_getSnippetWithAuthor ident db = None \<Longrightarrow>
     GET_api_snippets_id session_userId ident req_ip remoteAddress viewId now db
       = (\<lparr>status = 404, body = Message ''Snippet not found''\<rparr>, db)"
  by (simp add: GET_api_snippets_id_def)

lemma with_author_private:
  "isPublic (with_author sn a) = isPublic sn \<and> authorId (with_author sn a) = authorId sn"
  by (simp add: with_author_def snippet.extend_def)

text \<open>
  What the handler answers for a stored private snippet and a requester other than its
  author: 403 when the author has a user row, and 404 when not, since the query's
  inner join then returns no row. Nothing is written.
\<close>

lemma GET_private_snippet_of_other:
  assumes "db_keys_ok db" and "sn \<in> set (t_snippets db)" and "\<not> isPublic sn"
    and "session_userId \<noteq> Some (authorId sn)"
  shows "GET_api_snippets_id session_userId (s_id sn) req_ip remoteAddress viewId now db
           = (if DatabaseStorage_getUser (authorId sn) db = None
              then (\<lparr>status = 404, body = Message ''Snippet not found''\<rparr>, db)
              else (\<lparr>status = 403, body = Message ''Access denied''\<rparr>, db))"
proof (cases "DatabaseStorage_getUser (authorId sn) db")
  case None
  with assms have "DatabaseStorage_getSnippetWithAuthor (s_id sn) db = None"
    by (simp add: getSnippetWithAuthor_of_row)
  with None show ?thesis by (simp add: GET_snippet_without_author)
next
  case (Some a)
  with assms have "DatabaseStorage_getSnippetWithAuthor (s_id sn) db
                     = Some (with_author sn (db_author a))"
    by (simp add: getSnippetWithAuthor_of_row)
  with Some assms show ?thesis
    by (simp add: GET_api_snippets_id_def with_author_private)
qed

lemma example_private_run:
  "DatabaseStorage_run example_private_ops DatabaseStorage_new = example_db_private"
  by code_simp

lemma example_orphan_run:
  "DatabaseStorage_run example_orphan_ops DatabaseStorage_new = example_db_orphan"
  by code_simp

lemma example_private_row:
  "example_private_snippet \<in> set (t_snippets example_db_private)
   \<and> \<not> isPublic example_private_snippet
   \<and> s_id example_private_snippet = ''s2'' \<and> authorId example_private_snippet = ''u1''
   \<and> DatabaseStorage_getUser ''u1'' example_db_private
       = Some (example_user ''u1'' ''alice'' Default)"
  by code_simp

lemma example_orphan_row:
  "example_orphan_snippet \<in> set (t_snippets example_db_orphan)
   \<and> \<not> isPublic example_orphan_snippet
   \<and> s_id example_orphan_snippet = ''s3'' \<and> authorId example_orphan_snippet = ''u1''
   \<and> DatabaseStorage_getUser ''u1'' example_db_orphan = None"
  by code_simp

lemma example_admin:
  "requireAdmin (Some ''u3'') example_db_private = None
   \<and> requireAdmin (Some ''u3'') example_db_orphan = None"
  by code_simp

lemma example_not_admin:
  "requireAdmin (Some ''u2'') example_db_private \<noteq> None
   \<and> requireAdmin None example_db_private \<noteq> None
   \<and> requireAdmin (Some ''u2'') example_db_orphan \<noteq> None
   \<and> requireAdmin None example_db_orphan \<noteq> None"
  by code_simp

text \<open>
  Claim C7, as stated, is false. The administrator \<open>u3\<close> deletes user \<open>u1\<close> through
  \<open>DELETE /api/admin/users/:id\<close>; the session of \<open>u1\<close> is still open
  (\<open>requireAuth\<close> looks at the session only) and posts a private snippet, which is
  stored as \<open>s3\<close> with \<open>authorId = u1\<close>. The request of \<open>u2\<close>, who is neither the
  author nor an administrator, and the request without a session are then answered 404
  "Snippet not found", not 403 "Access denied".
\<close>

theorem GET_private_snippet_of_deleted_author_not_found:
  "DELETE_api_admin_users_id (Some ''u3'') ''u1'' example_db_private
     = (\<lparr>status = 200, body = Message ''User and all their content deleted successfully''\<rparr>,
        DatabaseStorage_run [DeleteUserAndSnippets ''u1''] example_db_private)
   \<and> POST_api_snippets (Some ''u1'') (Some example_secret) ''s3'' 6000 id example_uuid example_clock
        (DatabaseStorage_run [DeleteUserAndSnippets ''u1''] example_db_private)
     = (\<lparr>status = 201, body = SnippetJson example_orphan_snippet\<rparr>, example_db_orphan)
   \<and> t_snippets example_db_orphan = [example_orphan_snippet]
   \<and> \<not> isPublic example_orphan_snippet \<and> authorId example_orphan_snippet = ''u1''
   \<and> requireAdmin (Some ''u2'') example_db_orphan
       = Some \<lparr>status = 403, body = Message ''Admin privileges required''\<rparr>
   \<and> GET_api_snippets_id (Some ''u2'') ''s3'' (Some ''10.0.0.7'') None ''v1'' 7000 example_db_orphan
       = (\<lparr>status = 404, body = Message ''Snippet not found''\<rparr>, example_db_orphan)
   \<and> GET_api_snippets_id None ''s3'' (Some ''10.0.0.7'') None ''v1'' 7000 example_db_orphan
       = (\<lparr>status = 404, body = Message ''Snippet not found''\<rparr>, example_db_orphan)"
  by code_simp

text \<open>
  Claim C7, amended. Let the database be one that calls of the storage methods produce
  from the empty one, and let it hold a snippet that is not public. A request
  \<open>GET /api/snippets/:id\<close> for it whose session user is not the snippet's author and
  is not an administrator (would not pass \<open>requireAdmin\<close>), a request without a
  session included, is answered with status 403 and the message "Access denied" when
  the snippet's author has a user record, and with status 404 and the message
  "Snippet not found" when not. In both cases the body is the message, not the snippet,
  and nothing is written.
\<close>

theorem GET_private_snippet_denied:
  assumes "db = DatabaseStorage_run ops DatabaseStorage_new"
    and "sn \<in> set (t_snippets db)"
    and "\<not> isPublic sn"
    and "session_userId \<noteq> Some (authorId sn)"
    and "requireAdmin session_userId db \<noteq> None"
  shows "GET_api_snippets_id session_userId (s_id sn) req_ip remoteAddress viewId now db
           = (if DatabaseStorage_getUser (authorId sn) db = None
              then (\<lparr>status = 404, body = Message ''Snippet not found''\<rparr>, db)
              else (\<lparr>status = 403, body = Message ''Access denied''\<rparr>, db))"
proof -
  from assms(1) have "db_keys_ok db" by (simp add: db_keys_ok_reachable)
  then show ?thesis using assms(2-4) by (rule GET_private_snippet_of_other)
qed

theorem GET_private_snippet_denied_witness:
  "example_private_snippet \<in> set (t_snippets example_db_private)
   \<and> requireAdmin (Some ''u2'') example_db_private \<noteq> None
   \<and> GET_api_snippets_id (Some ''u2'') ''s2'' (Some ''10.0.0.7'') None ''v1'' 2000 example_db_private
       = (\<lparr>status = 403, body = Message ''Access denied''\<rparr>, example_db_private)
   \<and> GET_api_snippets_id None ''s2'' (Some ''10.0.0.7'') None ''v1'' 2000 example_db_private
       = (\<lparr>status = 403, body = Message ''Access denied''\<rparr>, example_db_private)
   \<and> GET_api_snippets_id (Some ''u2'') ''s3'' (Some ''10.0.0.7'') None ''v1'' 7000 example_db_orphan
       = (\<lparr>status = 404, body = Message ''Snippet not found''\<rparr>, example_db_orphan)"
proof -
  have row: "example_private_snippet \<in> set (t_snippets example_db_private)"
    and priv: "\<not> isPublic example_private_snippet"
    and ident: "s_id example_private_snippet = ''s2''"
    and author: "authorId example_private_snippet = ''u1''"
    and found: "DatabaseStorage_getUser ''u1'' example_db_private
                  = Some (example_user ''u1'' ''alice'' Default)"
    using example_private_row by blast+
  have orow: "example_orphan_snippet \<in> set (t_snippets example_db_orphan)"
    and opriv: "\<not> isPublic example_orphan_snippet"
    and oident: "s_id example_orphan_snippet = ''s3''"
    and oauthor: "authorId example_orphan_snippet = ''u1''"
    and gone: "DatabaseStorage_getUser ''u1'' example_db_orphan = None"
    using example_orphan_row by blast+
  have a1: "Some ''u2'' \<noteq> Some (authorId example_private_snippet)" by (simp add: author)
  have a2: "None \<noteq> Some (authorId example_private_snippet)" by simp
  have a3: "Some ''u2'' \<noteq> Some (authorId example_orphan_snippet)" by (simp add: oauthor)
  have n1: "requireAdmin (Some ''u2'') example_db_private \<noteq> None"
    and n2: "requireAdmin None example_db_private \<noteq> None"
    and n3: "requireAdmin (Some ''u2'') example_db_orphan \<noteq> None"
    using example_not_admin by blast+
  from GET_private_snippet_denied [OF example_private_run [symmetric] row priv a1 n1]
       GET_private_snippet_denied [OF example_private_run [symmetric] row priv a2 n2]
       GET_private_snippet_denied [OF example_orphan_run [symmetric] orow opriv a3 n3]
       row n1
  show ?thesis by (simp add: ident author found oident oauthor gone)
qed

lemma db_author_rank: "db_author (u\<lparr>rank := x\<rparr>) = db_author u"
  by (simp add: db_author_def)

lemma getSnippetWithAuthor_set_ranks:
  "DatabaseStorage_getSnippetWithAuthor ident (set_ranks r db)
     = DatabaseStorage_getSnippetWithAuthor ident db"
proof -
  have "map (\<lambda>(s, u). with_author s (db_author u))
          (filter (\<lambda>(s, u). s_id s = ident)
             (concat (map (\<lambda>s. map (Pair s) (filter (\<lambda>u. authorId s = u_id u)
                (map (\<lambda>u. u\<lparr>rank := r u\<rparr>) us))) ss)))
      = map (\<lambda>(s, u). with_author s (db_author u))
          (filter (\<lambda>(s, u). s_id s = ident)
             (concat (map (\<lambda>s. map (Pair s) (filter (\<lambda>u. authorId s = u_id u) us)) ss)))"
    for us ss
    by (induction ss) (auto simp: filter_map comp_def db_author_rank)
  then show ?thesis
    by (simp add: DatabaseStorage_getSnippetWithAuthor_def select_with_author_def
        snippets_join_users_def set_ranks_def)
qed

lemma incrementViews_set_ranks:
  "DatabaseStorage_incrementViews s uid ip i t (set_ranks r db)
     = map_sum id (set_ranks r) (DatabaseStorage_incrementViews s uid ip i t db)"
  by (simp add: DatabaseStorage_incrementViews_def db_existing_view_def set_ranks_def Let_def)

lemma isSnippetLiked_set_ranks:
  "DatabaseStorage_isSnippetLiked s u (set_ranks r db) = DatabaseStorage_isSnippetLiked s u db"
  by (simp add: DatabaseStorage_isSnippetLiked_def set_ranks_def)

lemma GET_ignores_rank:
  "fst (GET_api_snippets_id session_userId ident req_ip remoteAddress viewId now (set_ranks r db))
     = fst (GET_api_snippets_id session_userId ident req_ip remoteAddress viewId now db)"
  by (auto simp: GET_api_snippets_id_def getSnippetWithAuthor_set_ranks incrementViews_set_ranks
      isSnippetLiked_set_ranks Let_def split: option.splits sum.splits)

text \<open>
  Claim C10, as stated, is false, for the reason Claim C7 is. In the database in which
  the author of the private snippet \<open>s3\<close> has no user row, the authenticated request
  of the administrator \<open>u3\<close>, whose session \<open>userId\<close> differs from the snippet's
  \<open>authorId\<close>, is answered 404, not 403.
\<close>

theorem GET_private_snippet_admin_gets_not_found:
  "DatabaseStorage_run example_orphan_ops DatabaseStorage_new = example_db_orphan
   \<and> t_snippets example_db_orphan = [example_orphan_snippet]
   \<and> \<not> isPublic example_orphan_snippet \<and> authorId example_orphan_snippet = ''u1''
   \<and> DatabaseStorage_getUser ''u3'' example_db_orphan = Some (example_user ''u3'' ''carol'' Admin)
   \<and> requireAdmin (Some ''u3'') example_db_orphan = None
   \<and> GET_api_snippets_id (Some ''u3'') ''s3'' (Some ''10.0.0.7'') None ''v1'' 7000 example_db_orphan
       = (\<lparr>status = 404, body = Message ''Snippet not found''\<rparr>, example_db_orphan)"
  by code_simp

text \<open>
  Claim C10, amended. In a database that calls of the storage methods produce from the
  empty one, for a stored snippet that is not public, every authenticated requester
  whose session \<open>userId\<close> differs from the snippet's \<open>authorId\<close> is refused whatever
  the requester's rank, an administrator, who passes \<open>requireAdmin\<close>, like anyone
  else: the answer is 403 when the snippet's author has a user record and 404 when not.
  The handler compares the session \<open>userId\<close> to \<open>authorId\<close> and does not read ranks
  at all: replacing the rank of every user by an arbitrary one leaves its response
  unchanged.
\<close>

theorem GET_private_snippet_ignores_rank:
  "(db = DatabaseStorage_run ops DatabaseStorage_new \<and> sn \<in> set (t_snippets db)
      \<and> \<not> isPublic sn \<and> uid \<noteq> authorId sn \<longrightarrow>
      GET_api_snippets_id (Some uid) (s_id sn) req_ip remoteAddress viewId now db
        = (if DatabaseStorage_getUser (authorId sn) db = None
           then (\<lparr>status = 404, body = Message ''Snippet not found''\<rparr>, db)
           else (\<lparr>status = 403, body = Message ''Access denied''\<rparr>, db)))
   \<and> fst (GET_api_snippets_id session_userId ident req_ip remoteAddress viewId now (set_ranks r db))
       = fst (GET_api_snippets_id session_userId ident req_ip remoteAddress viewId now db)"
proof (intro conjI impI)
  assume h: "db = DatabaseStorage_run ops DatabaseStorage_new \<and> sn \<in> set (t_snippets db)
      \<and> \<not> isPublic sn \<and> uid \<noteq> authorId sn"
  then have keys: "db_keys_ok db" by (simp add: db_keys_ok_reachable)
  from h have row: "sn \<in> set (t_snippets db)" and priv: "\<not> isPublic sn"
    and other: "uid \<noteq> authorId sn" by blast+
  from other have "Some uid \<noteq> Some (authorId sn)" by simp
  with keys row priv show "GET_api_snippets_id (Some uid) (s_id sn) req_ip remoteAddress viewId now db
        = (if DatabaseStorage_getUser (authorId sn) db = None
           then (\<lparr>status = 404, body = Message ''Snippet not found''\<rparr>, db)
           else (\<lparr>status = 403, body = Message ''Access denied''\<rparr>, db))"
    by (rule GET_private_snippet_of_other)
next
  show "fst (GET_api_snippets_id session_userId ident req_ip remoteAddress viewId now
               (set_ranks r db))
          = fst (GET_api_snippets_id session_userId ident req_ip remoteAddress viewId now db)"
    by (rule GET_ignores_rank)
qed

theorem GET_private_snippet_ignores_rank_witness:
  "requireAdmin (Some ''u3'') example_db_private = None
   \<and> example_private_snippet \<in> set (t_snippets example_db_private)
   \<and> GET_api_snippets_id (Some ''u3'') ''s2'' (Some ''10.0.0.7'') None ''v1'' 2000 example_db_private
       = (\<lparr>status = 403, body = Message ''Access denied''\<rparr>, example_db_private)
   \<and> GET_api_snippets_id (Some ''u3'') ''s3'' (Some ''10.0.0.7'') None ''v1'' 7000 example_db_orphan
       = (\<lparr>status = 404, body = Message ''Snippet not found''\<rparr>, example_db_orphan)"
proof -
  have h: "example_db_private = DatabaseStorage_run example_private_ops DatabaseStorage_new
      \<and> example_private_snippet \<in> set (t_snippets example_db_private)
      \<and> \<not> isPublic example_private_snippet \<and> ''u3'' \<noteq> authorId example_private_snippet"
    using example_private_row by (simp add: example_private_run)
  have g: "example_db_orphan = DatabaseStorage_run example_orphan_ops DatabaseStorage_new
      \<and> example_orphan_snippet \<in> set (t_snippets example_db_orphan)
      \<and> \<not> isPublic example_orphan_snippet \<and> ''u3'' \<noteq> authorId example_orphan_snippet"
    using example_orphan_row by (simp add: example_orphan_run)
  from GET_private_snippet_ignores_rank
         [of example_db_private example_private_ops example_private_snippet "''u3''"
             "Some ''10.0.0.7''" None "''v1''" 2000]
       GET_private_snippet_ignores_rank
         [of example_db_orphan example_orphan_ops example_orphan_snippet "''u3''"
             "Some ''10.0.0.7''" None "''v1''" 7000]
       h g example_admin example_private_row example_orphan_row
  show ?thesis by simp
qed

subsection \<open>Notifying the followers of a new snippet\<close>

lemma createNotification_fresh:
  "ident \<notin> set (map n_id (t_notifications db)) \<Longrightarrow>
     DatabaseStorage_createNotification n ident now db
       = Inr (notification_row n ident now,
              db\<lparr>t_notifications := t_notifications db @ [notification_row n ident now]\<rparr>)"
  by (simp add: DatabaseStorage_createNotification_def notification_row_def Let_def)

lemma notify_followers_fresh:
  assumes "fresh_ids uuid k (length fs) (map n_id (t_notifications db))"
  shows "notify_followers fs k uuid clock a snippet db
           = db\<lparr>t_notifications := t_notifications db @ new_snippet_rows fs k uuid clock a snippet\<rparr>"
  using assms
proof (induction fs arbitrary: k db)
  case Nil
  then show ?case by (simp add: new_snippet_rows_def)
next
  case (Cons follower fs)
  let ?row = "notification_row (new_snippet_notification follower a snippet) (uuid k) (clock k)"
  let ?db = "db\<lparr>t_notifications := t_notifications db @ [?row]\<rparr>"
  have range: "[k..<k + length (follower # fs)] = k # [Suc k..<Suc k + length fs]"
    by (simp add: upt_conv_Cons del: upt_Suc)
  from Cons.prems have here: "uuid k \<notin> set (map n_id (t_notifications db))"
    unfolding fresh_ids_def range by auto
  from Cons.prems have rest: "fresh_ids uuid (Suc k) (length fs) (map n_id (t_notifications ?db))"
    unfolding fresh_ids_def range by (auto simp: notification_row_def)
  from Cons.IH [OF rest] here show ?case
    by (simp add: createNotification_fresh new_snippet_rows_def)
qed

lemma POST_api_snippets_created:
  assumes "uid \<noteq> []"
    and "DatabaseStorage_createSnippet snippetData uid ident now db = Inr (snippet, db1)"
  shows "fst (POST_api_snippets (Some uid) (Some snippetData) ident now arrange uuid clock db)
           = \<lparr>status = 201, body = SnippetJson snippet\<rparr>"
    and "\<not> isPublic snippet \<Longrightarrow>
           snd (POST_api_snippets (Some uid) (Some snippetData) ident now arrange uuid clock db)
             = db1"
    and "isPublic snippet \<Longrightarrow> DatabaseStorage_getUser uid db1 = Some a \<Longrightarrow>
         fresh_ids uuid 0 (length (DatabaseStorage_getFollowers arrange uid db1))
           (map n_id (t_notifications db1)) \<Longrightarrow>
           snd (POST_api_snippets (Some uid) (Some snippetData) ident now arrange uuid clock db)
             = db1\<lparr>t_notifications := t_notifications db1 @
                   new_snippet_rows (DatabaseStorage_getFollowers arrange uid db1) 0 uuid clock
                     a snippet\<rparr>"
  using assms
  by (simp_all add: POST_api_snippets_def requireAuth_def notify_followers_fresh)

lemma one_follow_per_pair:
  assumes "distinct (map (\<lambda>f. (followerId f, followingId f)) fs)"
  shows "length (filter (\<lambda>f. a = followerId f \<and> followingId f = b) fs) \<le> 1"
  using assms
proof (induction fs)
  case Nil
  then show ?case by simp
next
  case (Cons f fs)
  show ?case
  proof (cases "a = followerId f \<and> followingId f = b")
    case True
    with Cons.prems have "filter (\<lambda>g. a = followerId g \<and> followingId g = b) fs = []"
      by (auto simp: filter_empty_conv)
    with True show ?thesis by simp
  next
    case False
    then have "filter (\<lambda>g. a = followerId g \<and> followingId g = b) (f # fs)
        = filter (\<lambda>g. a = followerId g \<and> followingId g = b) fs"
      by auto
    moreover from Cons.prems have "distinct (map (\<lambda>f. (followerId f, followingId f)) fs)"
      by simp
    ultimately show ?thesis using Cons.IH by simp
  qed
qed

lemma followers_join_as_filter:
  assumes "follows_ok (t_follows db)"
  shows "followers_join uid db
           = filter (\<lambda>u. \<exists>f \<in> set (t_follows db). u_id u = followerId f \<and> followingId f = uid)
               (t_users db)"
proof -
  have inner: "map (\<lambda>f. u) (filter (\<lambda>f. u_id u = followerId f \<and> followingId f = uid) (t_follows db))
      = (if \<exists>f \<in> set (t_follows db). u_id u = followerId f \<and> followingId f = uid then [u] else [])"
    for u :: user
  proof -
    let ?m = "filter (\<lambda>f. u_id u = followerId f \<and> followingId f = uid) (t_follows db)"
    from assms have "length ?m \<le> 1"
      unfolding follows_ok_def using one_follow_per_pair by blast
    then consider "?m = []" | f where "?m = [f]"
      by (cases ?m) (auto simp: le_Suc_eq)
    then show ?thesis
    proof cases
      case 1
      then show ?thesis by (auto simp: filter_empty_conv)
    next
      case 2
      then have "f \<in> set ?m" by simp
      then have "f \<in> set (t_follows db) \<and> u_id u = followerId f \<and> followingId f = uid" by simp
      with 2 show ?thesis by auto
    qed
  qed
  have "concat (map (\<lambda>u. map (\<lambda>f. u)
            (filter (\<lambda>f. u_id u = followerId f \<and> followingId f = uid) (t_follows db))) us)
        = filter (\<lambda>u. \<exists>f \<in> set (t_follows db). u_id u = followerId f \<and> followingId f = uid) us"
    for us :: "user list"
    by (induction us) (simp_all add: inner)
  then show ?thesis by (simp add: followers_join_def)
qed

lemma new_snippet_rows_recipients:
  "map n_userId (new_snippet_rows fs k uuid clock a snippet) = map u_id fs"
  by (induction fs arbitrary: k)
     (simp_all add: new_snippet_rows_def notification_row_def new_snippet_notification_def)

lemma new_snippet_rows_content:
  "n \<in> set (new_snippet_rows fs k uuid clock a snippet) \<Longrightarrow>
     n_type n = ''new_snippet'' \<and> n_snippetId n = Some (s_id snippet)
     \<and> n_fromUserId n = Some (u_id a) \<and> \<not> isRead n"
  by (auto simp: new_snippet_rows_def notification_row_def new_snippet_notification_def)


lemma count_key:
  assumes "distinct (map k xs)"
  shows "length (filter (\<lambda>x. k x = f \<and> Q x) xs) = (if \<exists>x \<in> set xs. k x = f \<and> Q x then 1 else 0)"
  using assms
proof (induction xs)
  case Nil
  then show ?case by simp
next
  case (Cons a xs)
  show ?case
  proof (cases "k a = f")
    case True
    with Cons.prems have "\<forall>x \<in> set xs. k x \<noteq> f" by (auto simp: image_iff)
    then have "filter (\<lambda>x. k x = f \<and> Q x) xs = []" and "\<not> (\<exists>x \<in> set xs. k x = f \<and> Q x)"
      by (auto simp: filter_empty_conv)
    with True show ?thesis by simp
  next
    case False
    with Cons show ?thesis by simp
  qed
qed

lemma length_filter_mset:
  "mset xs = mset ys \<Longrightarrow> length (filter P xs) = length (filter P ys)"
proof -
  assume "mset xs = mset ys"
  then have "filter_mset P (mset xs) = filter_mset P (mset ys)" by simp
  then have "mset (filter P xs) = mset (filter P ys)" by simp
  then show ?thesis by (rule mset_eq_length)
qed

text \<open>
  Whatever the order of the followers, a user receives one of the new notifications if
  it has a follow record on the author and a user record, and none otherwise.
\<close>

lemma new_snippet_rows_count:
  assumes "follows_ok (t_follows db)" and "distinct (map u_id (t_users db))"
    and "mset fs = mset (followers_join uid db)"
  shows "length (filter (\<lambda>n. n_userId n = f) (new_snippet_rows fs k uuid clock a snippet))
           = (if follower_with_record f uid db then 1 else 0)"
proof -
  let ?Q = "\<lambda>u. \<exists>r \<in> set (t_follows db). u_id u = followerId r \<and> followingId r = uid"
  have "length (filter (\<lambda>n. n_userId n = f) (new_snippet_rows fs k uuid clock a snippet))
      = length (filter (\<lambda>i. i = f) (map n_userId (new_snippet_rows fs k uuid clock a snippet)))"
    by (simp add: filter_map comp_def)
  also have "\<dots> = length (filter (\<lambda>u. u_id u = f) fs)"
    by (simp add: new_snippet_rows_recipients filter_map comp_def)
  also have "\<dots> = length (filter (\<lambda>u. u_id u = f) (followers_join uid db))"
    using assms(3) by (rule length_filter_mset)
  also have "\<dots> = length (filter (\<lambda>u. u_id u = f \<and> ?Q u) (t_users db))"
    by (simp add: followers_join_as_filter [OF assms(1)] conj_commute)
  also have "\<dots> = (if \<exists>u \<in> set (t_users db). u_id u = f \<and> ?Q u then 1 else 0)"
    using assms(2) by (rule count_key)
  also have "(\<exists>u \<in> set (t_users db). u_id u = f \<and> ?Q u) \<longleftrightarrow> follower_with_record f uid db"
  proof
    assume "\<exists>u \<in> set (t_users db). u_id u = f \<and> ?Q u"
    then obtain u r where "u \<in> set (t_users db)" and "u_id u = f"
      and "r \<in> set (t_follows db)" and "u_id u = followerId r" and "followingId r = uid"
      by blast
    then show "follower_with_record f uid db"
      unfolding follower_with_record_def by force
  next
    assume "follower_with_record f uid db"
    then obtain r u where "r \<in> set (t_follows db)" and "followerId r = f"
      and "followingId r = uid" and "u \<in> set (t_users db)" and "u_id u = f"
      unfolding follower_with_record_def by auto
    then have "u_id u = f \<and> ?Q u" by force
    with \<open>u \<in> set (t_users db)\<close> show "\<exists>u \<in> set (t_users db). u_id u = f \<and> ?Q u" by blast
  qed
  finally show ?thesis .
qed

lemma createSnippet_tables:
  assumes "DatabaseStorage_createSnippet snippetData uid ident now db = Inr (snippet, db1)"
  shows "t_users db1 = t_users db" and "t_follows db1 = t_follows db"
    and "t_notifications db1 = t_notifications db"
  using assms
  by (auto simp: DatabaseStorage_createSnippet_def Let_def split: if_splits)

text \<open>
  Claim C6, as stated, is false: not every authenticated request that creates a snippet
  notifies each follower of the author. In each of the four requests below the second
  user, whom the first user follows, creates a snippet and is answered 201.
  (1) The snippet is private: the handler notifies only for a public snippet
  (\<open>if (snippet.isPublic)\<close>), and no notification exists afterwards.
  (2) The follower \<open>u7\<close> has a follow record on the author and no user record:
  \<open>getFollowers\<close> joins with \<open>users\<close>, and only the first user is notified.
  (3) The author has no user record (\<open>if (author)\<close>): nobody is notified.
  (4) The identifier drawn for the notification is in use: the write fails, the error is
  dropped, and the follower gets no notification of the new snippet.
\<close>

theorem POST_api_snippets_private_creates_no_notification:
  "DatabaseStorage_run example_followed_ops DatabaseStorage_new = example_db_followed
   \<and> DatabaseStorage_getFollowers id ''u2'' example_db_followed
       = [example_user ''u1'' ''alice'' Default]
   \<and> POST_api_snippets (Some ''u2'') (Some (example_post False)) ''s9'' 5000
         id example_uuid example_clock example_db_followed
       = (\<lparr>status = 201, body = SnippetJson (example_posted False)\<rparr>,
          example_db_followed\<lparr>t_snippets := [example_snippet, example_posted False]\<rparr>)
   \<and> t_notifications (example_db_followed\<lparr>t_snippets := [example_snippet, example_posted False]\<rparr>)
       = []
   \<and> map followerId (t_follows (DatabaseStorage_run example_ghost_follower_ops DatabaseStorage_new))
       = [''u1'', ''u7'']
   \<and> fst (POST_api_snippets (Some ''u2'') (Some (example_post True)) ''s9'' 5000
         id example_uuid example_clock
         (DatabaseStorage_run example_ghost_follower_ops DatabaseStorage_new))
       = \<lparr>status = 201, body = SnippetJson (example_posted True)\<rparr>
   \<and> t_notifications (snd (POST_api_snippets (Some ''u2'') (Some (example_post True)) ''s9'' 5000
         id example_uuid example_clock
         (DatabaseStorage_run example_ghost_follower_ops DatabaseStorage_new)))
       = [example_new_notification]
   \<and> map followerId (t_follows (DatabaseStorage_run example_ghost_author_ops DatabaseStorage_new))
       = [''u1'']
   \<and> fst (POST_api_snippets (Some ''u2'') (Some (example_post True)) ''s9'' 5000
         id example_uuid example_clock
         (DatabaseStorage_run example_ghost_author_ops DatabaseStorage_new))
       = \<lparr>status = 201, body = SnippetJson (example_posted True)\<rparr>
   \<and> t_notifications (snd (POST_api_snippets (Some ''u2'') (Some (example_post True)) ''s9'' 5000
         id example_uuid example_clock
         (DatabaseStorage_run example_ghost_author_ops DatabaseStorage_new)))
       = []
   \<and> map n_id (t_notifications (DatabaseStorage_run example_collision_ops DatabaseStorage_new))
       = [example_uuid 0]
   \<and> fst (POST_api_snippets (Some ''u2'') (Some (example_post True)) ''s9'' 5000
         id example_uuid example_clock
         (DatabaseStorage_run example_collision_ops DatabaseStorage_new))
       = \<lparr>status = 201, body = SnippetJson (example_posted True)\<rparr>
   \<and> map n_type (t_notifications (snd (POST_api_snippets (Some ''u2'') (Some (example_post True))
         ''s9'' 5000 id example_uuid example_clock
         (DatabaseStorage_run example_collision_ops DatabaseStorage_new))))
       = [''follow'']"
  by code_simp

text \<open>
  Claim C6, amended. In a database that calls of the storage methods produce from the
  empty one, whenever an authenticated \<open>POST /api/snippets\<close> creates the snippet, the
  answer is 201 with the snippet, whatever happens to the notification writes (an error
  among them ends the loop and is dropped). A private snippet creates no notification.
  For a public snippet whose author has a user record, and identifiers that do not
  collide, the handler creates exactly one notification for each follower of the author
  that has a user record, and none for anyone else, in whatever order the database
  returns the followers: each of type \<open>'new_snippet'\<close>, referring to the new snippet
  and to its author.
\<close>

theorem POST_api_snippets_notifies_followers_of_public_snippet:
  assumes "db = DatabaseStorage_run ops DatabaseStorage_new"
    and "uid \<noteq> []"
    and "DatabaseStorage_createSnippet snippetData uid ident now db = Inr (snippet, db1)"
  shows "fst (POST_api_snippets (Some uid) (Some snippetData) ident now arrange uuid clock db)
           = \<lparr>status = 201, body = SnippetJson snippet\<rparr>
     \<and> (\<not> isPublic snippet \<longrightarrow>
          snd (POST_api_snippets (Some uid) (Some snippetData) ident now arrange uuid clock db)
            = db1)
     \<and> (isPublic snippet \<and> DatabaseStorage_getUser uid db1 = Some a
          \<and> mset (arrange (followers_join uid db1)) = mset (followers_join uid db1)
          \<and> fresh_ids uuid 0 (length (followers_join uid db1))
               (map n_id (t_notifications db1)) \<longrightarrow>
          snd (POST_api_snippets (Some uid) (Some snippetData) ident now arrange uuid clock db)
            = db1\<lparr>t_notifications := t_notifications db1 @
                  new_snippet_rows (DatabaseStorage_getFollowers arrange uid db1) 0 uuid clock
                    a snippet\<rparr>
          \<and> (\<forall>f. length (filter (\<lambda>n. n_userId n = f)
                        (new_snippet_rows (DatabaseStorage_getFollowers arrange uid db1) 0 uuid
                           clock a snippet))
                   = (if follower_with_record f uid db1 then 1 else 0))
          \<and> (\<forall>n \<in> set (new_snippet_rows (DatabaseStorage_getFollowers arrange uid db1) 0 uuid
                            clock a snippet).
                n_type n = ''new_snippet'' \<and> n_snippetId n = Some (s_id snippet)
                \<and> n_fromUserId n = Some (u_id a)))"
proof (intro conjI impI allI ballI)
  note created = POST_api_snippets_created [OF assms(2,3)]
  show "fst (POST_api_snippets (Some uid) (Some snippetData) ident now arrange uuid clock db)
           = \<lparr>status = 201, body = SnippetJson snippet\<rparr>"
    by (rule created(1))
  show "snd (POST_api_snippets (Some uid) (Some snippetData) ident now arrange uuid clock db)
            = db1" if "\<not> isPublic snippet"
    using that by (rule created(2))
  let ?fs = "DatabaseStorage_getFollowers arrange uid db1"
  assume h: "isPublic snippet \<and> DatabaseStorage_getUser uid db1 = Some a
          \<and> mset (arrange (followers_join uid db1)) = mset (followers_join uid db1)
          \<and> fresh_ids uuid 0 (length (followers_join uid db1))
               (map n_id (t_notifications db1))"
  then have perm: "mset ?fs = mset (followers_join uid db1)"
    by (simp add: DatabaseStorage_getFollowers_def)
  then have "length ?fs = length (followers_join uid db1)" by (rule mset_eq_length)
  with h have fresh: "fresh_ids uuid 0 (length ?fs) (map n_id (t_notifications db1))" by simp
  from h have pub: "isPublic snippet" and author: "DatabaseStorage_getUser uid db1 = Some a"
    by blast+
  show "snd (POST_api_snippets (Some uid) (Some snippetData) ident now arrange uuid clock db)
            = db1\<lparr>t_notifications := t_notifications db1 @
                  new_snippet_rows ?fs 0 uuid clock a snippet\<rparr>"
    using pub author fresh by (rule created(3))
  have "follows_ok (t_follows db)" unfolding assms(1)
    by (rule DatabaseStorage_run_follows_ok) (simp add: follows_ok_def DatabaseStorage_new_def)
  then have f: "follows_ok (t_follows db1)" by (simp add: createSnippet_tables [OF assms(3)])
  have "db_keys_ok db" unfolding assms(1) by (rule db_keys_ok_reachable)
  then have u: "distinct (map u_id (t_users db1))"
    by (simp add: db_keys_ok_def createSnippet_tables [OF assms(3)])
  show "length (filter (\<lambda>n. n_userId n = f) (new_snippet_rows ?fs 0 uuid clock a snippet))
          = (if follower_with_record f uid db1 then 1 else 0)" for f
    using f u perm by (rule new_snippet_rows_count)
  show "n_type n = ''new_snippet''" "n_snippetId n = Some (s_id snippet)"
    "n_fromUserId n = Some (u_id a)"
    if "n \<in> set (new_snippet_rows ?fs 0 uuid clock a snippet)" for n
    using new_snippet_rows_content [OF that] by simp_all
qed

lemma example_followed_run:
  "example_db_followed = DatabaseStorage_run example_followed_ops DatabaseStorage_new"
  by code_simp

lemma example_public_post:
  "DatabaseStorage_createSnippet (example_post True) ''u2'' ''s9'' 5000 example_db_followed
     = Inr (example_posted True,
            example_db_followed\<lparr>t_snippets := [example_snippet, example_posted True]\<rparr>)"
  by code_simp

lemma example_public_post_state:
  "isPublic (example_posted True)
   \<and> DatabaseStorage_getUser ''u2''
        (example_db_followed\<lparr>t_snippets := [example_snippet, example_posted True]\<rparr>)
       = Some (example_user ''u2'' ''bob'' Default)
   \<and> followers_join ''u2''
        (example_db_followed\<lparr>t_snippets := [example_snippet, example_posted True]\<rparr>)
       = [example_user ''u1'' ''alice'' Default]
   \<and> t_notifications (example_db_followed\<lparr>t_snippets := [example_snippet, example_posted True]\<rparr>)
       = []
   \<and> fresh_ids example_uuid 0 1 []
   \<and> new_snippet_rows [example_user ''u1'' ''alice'' Default] 0 example_uuid example_clock
        (example_user ''u2'' ''bob'' Default) (example_posted True) = [example_new_notification]
   \<and> follower_with_record ''u1'' ''u2''
        (example_db_followed\<lparr>t_snippets := [example_snippet, example_posted True]\<rparr>)
   \<and> \<not> follower_with_record ''u2'' ''u2''
        (example_db_followed\<lparr>t_snippets := [example_snippet, example_posted True]\<rparr>)"
  by code_simp

theorem POST_api_snippets_notifies_followers_of_public_snippet_witness:
  "DatabaseStorage_createSnippet (example_post True) ''u2'' ''s9'' 5000 example_db_followed
     = Inr (example_posted True,
            example_db_followed\<lparr>t_snippets := [example_snippet, example_posted True]\<rparr>)
   \<and> POST_api_snippets (Some ''u2'') (Some (example_post True)) ''s9'' 5000
         rev example_uuid example_clock example_db_followed
       = (\<lparr>status = 201, body = SnippetJson (example_posted True)\<rparr>,
          example_db_followed\<lparr>t_snippets := [example_snippet, example_posted True],
                               t_notifications := [example_new_notification]\<rparr>)
   \<and> length (filter (\<lambda>n. n_userId n = ''u1'') [example_new_notification]) = 1
   \<and> length (filter (\<lambda>n. n_userId n = ''u2'') [example_new_notification]) = 0"
proof -
  have u: "''u2'' \<noteq> []" by simp
  have r: "mset (rev xs) = mset xs" for xs :: "user list" by simp
  from POST_api_snippets_notifies_followers_of_public_snippet
         [OF example_followed_run u example_public_post,
            where a = "example_user ''u2'' ''bob'' Default" and arrange = rev
              and uuid = example_uuid and clock = example_clock]
       example_public_post_state example_public_post r
  show ?thesis by (simp add: prod_eq_iff DatabaseStorage_getFollowers_def)
qed

subsection \<open>The trending list\<close>

lemma with_author_fields:
  "isPublic (with_author s a) = isPublic s"
  "s_createdAt (with_author s a) = s_createdAt s"
  "likes (with_author s a) = likes s"
  "views (with_author s a) = views s"
  by (simp_all add: with_author_def snippet.extend_def)

lemma mem_attach_authors_shape:
  "mem_attach_authors us xs = Inr rs \<Longrightarrow> list_all2 (\<lambda>s r. \<exists>a. r = with_author s a) xs rs"
  by (induction xs arbitrary: rs) (auto split: option.splits sum.splits)

lemma mem_attach_authors_map:
  assumes "mem_attach_authors us xs = Inr rs" and "\<And>s a. g (with_author s a) = f s"
  shows "map g rs = map f xs"
  using mem_attach_authors_shape [OF assms(1)] assms(2)
  by (induction xs rs rule: list_all2_induct) auto

lemma mem_attach_authors_all:
  assumes "mem_attach_authors us xs = Inr rs" and "\<forall>s \<in> set xs. Q s"
    and "\<And>s a. Q s \<Longrightarrow> P (with_author s a)"
  shows "\<forall>r \<in> set rs. P r"
  using assms(1,2)
proof (induction xs arbitrary: rs)
  case Nil
  then show ?case by simp
next
  case (Cons x xs)
  from Cons.prems(1) obtain a rs' where a: "Map_get us (authorId x) = Some a"
    and rs': "mem_attach_authors us xs = Inr rs'"
    and rs: "rs = with_author x (mem_author a) # rs'"
    by (auto split: option.splits sum.splits)
  from Cons.IH [OF rs'] Cons.prems(2) have "\<forall>r \<in> set rs'. P r" by simp
  moreover from Cons.prems(2) assms(3) have "P (with_author x (mem_author a))" by simp
  ultimately show ?case using rs by simp
qed

lemma set_slice: "set (slice start end xs) \<subseteq> set xs"
  by (auto simp: slice_def Let_def dest: in_set_takeD in_set_dropD)

lemma sorted_take_drop:
  assumes "sorted (map f xs)"
  shows "sorted (map f (take n (drop k xs)))"
proof -
  have "map f (take n (drop k xs)) = take n (drop k (map f xs))"
    by (simp add: take_map drop_map)
  moreover have "sorted (take n (drop k (map f xs)))"
    using assms by (intro sorted_wrt_take sorted_wrt_drop)
  ultimately show ?thesis by simp
qed

lemma sorted_slice: "sorted (map f xs) \<Longrightarrow> sorted (map f (slice start end xs))"
  unfolding slice_def Let_def by (rule sorted_take_drop)

text \<open>
  \<open>MemStorage.getTrendingSnippets\<close> does what the trending list is specified to do:
  whenever it returns, every snippet returned is public and was created after
  \<open>weekAgo shift now\<close>, and the list is in descending order of \<open>likes + views\<close>, for every
  state, every limit and every time-zone shift.
\<close>

lemma MemStorage_getTrendingSnippets_recent_sorted:
  assumes "MemStorage_getTrendingSnippets limit now shift st = Inr rs"
  shows "\<forall>r \<in> set rs. isPublic r \<and> s_createdAt r > weekAgo shift now"
    and "sorted (map (\<lambda>r. - (likes r + views r)) rs)"
proof -
  let ?xs = "slice 0 limit (sort_desc (\<lambda>s. likes s + views s)
                 (filter (\<lambda>snippet. isPublic snippet \<and> s_createdAt snippet > weekAgo shift now)
                    (Map_values (m_snippets st))))"
  from assms have att: "mem_attach_authors (m_users st) ?xs = Inr rs"
    by (simp add: MemStorage_getTrendingSnippets_def Let_def)
  let ?recent = "filter (\<lambda>snippet. isPublic snippet \<and> s_createdAt snippet > weekAgo shift now)
                    (Map_values (m_snippets st))"
  have "set ?xs \<subseteq> set (sort_desc (\<lambda>s. likes s + views s) ?recent)"
    by (rule set_slice)
  then have "set ?xs \<subseteq> set ?recent"
    by (simp add: sort_desc_def)
  then have xs: "\<forall>s \<in> set ?xs. isPublic s \<and> s_createdAt s > weekAgo shift now"
    by auto
  show "\<forall>r \<in> set rs. isPublic r \<and> s_createdAt r > weekAgo shift now"
    using att xs by (rule mem_attach_authors_all) (simp add: with_author_fields)
  have "map (\<lambda>r. - (likes r + views r)) rs = map (\<lambda>s. - (likes s + views s)) ?xs"
    using att by (rule mem_attach_authors_map) (simp add: with_author_fields)
  moreover have "sorted (map (\<lambda>s. - (likes s + views s)) ?xs)"
    by (rule sorted_slice) (simp add: sort_desc_def)
  ultimately show "sorted (map (\<lambda>r. - (likes r + views r)) rs)" by simp
qed

text \<open>
  Claim C1. For every storage state and every limit, \<open>getTrendingSnippets\<close> returns
  only snippets that are public and were created within the last seven days, in
  descending order of \<open>likes + views\<close>. \<open>MemStorage\<close> does so (the lemma above).
  \<open>DatabaseStorage\<close>, the implementation the routes use, does not: its query selects on
  \<open>is_public\<close> only and has no condition on \<open>created_at\<close>. Thirty days after the
  example snippet was created it still lists it, where \<open>MemStorage\<close> on the same
  content lists nothing, whether or not a daylight-saving change of one hour falls into
  the week.
\<close>

theorem DatabaseStorage_getTrendingSnippets_lists_old_snippet:
  "DatabaseStorage_getTrendingSnippets 10 example_db
     = Inr [with_author example_snippet (db_author (example_user ''u1'' ''alice'' Default))]
   \<and> \<not> s_createdAt example_snippet > weekAgo 0 example_later
   \<and> MemStorage_getTrendingSnippets 10 example_later 0 example_mem = Inr []
   \<and> MemStorage_getTrendingSnippets 10 example_later 3600000 example_mem = Inr []
   \<and> MemStorage_getTrendingSnippets 10 example_later (- 3600000) example_mem = Inr []"
  by code_simp

subsection \<open>The two implementations compared\<close>

text \<open>
  Claim C2 says that \<open>MemStorage\<close> and \<open>DatabaseStorage\<close> return the same results, list
  results in the same order, after every sequence of calls from the empty storage. After
  a user has created the public snippets \<open>a\<close> and \<open>b\<close> and then edited \<open>a\<close>,
  \<open>getPublicSnippets(50, 0)\<close> lists \<open>a\<close> before \<open>b\<close> in \<open>MemStorage\<close> (most
  recently updated first) and \<open>b\<close> before \<open>a\<close> in \<open>DatabaseStorage\<close> (most recently
  created first).
\<close>

theorem getPublicSnippets_order_differs:
  "MemStorage_getPublicSnippets 50 0 (MemStorage_run example_edit_ops MemStorage_new)
     = Inr [with_author example_edited example_author, with_author example_second example_author]
   \<and> DatabaseStorage_getPublicSnippets 50 0
         (DatabaseStorage_run example_edit_ops DatabaseStorage_new)
       = Inr [with_author example_second example_author, with_author example_edited example_author]"
  by code_simp

end
